(* ===== verification/Prelude.thy ===== *)
theory Prelude
  imports Main "HOL-Library.Word" "HOL-Library.Sublist"
begin

text \<open>
  Shared vocabulary of the development: Go's error returns as a sum type (\<open>Inl\<close> the error),
  Go strings as byte lists (\<open>string\<close>), the few functions of Go's \<open>strings\<close> package the code
  calls (on ASCII text), Go maps and JSON objects as association lists in which the last
  binding of a key counts, and a state-and-error monad for code that threads state through
  calls that may fail. The collections \<open>go_simps\<close> (unfolding of the monad and of the map
  lookups) and \<open>str_simps\<close> (evaluation of string helpers) carry the component proofs.
\<close>

named_theorems go_simps
named_theorems str_simps

section \<open>Strings\<close>

text \<open>\<open>strings.ToLower\<close> on ASCII bytes; other bytes are left alone.\<close>

definition lowerc :: "char \<Rightarrow> char" where
  "lowerc c = (let n = (of_char c :: nat) in if 65 \<le> n \<and> n \<le> 90 then char_of (n + 32) else c)"

definition lower :: "string \<Rightarrow> string" where
  "lower s = map lowerc s"

text \<open>\<open>strings.EqualFold\<close> on ASCII bytes.\<close>

definition equalFold :: "string \<Rightarrow> string \<Rightarrow> bool" where
  "equalFold a b \<longleftrightarrow> lower a = lower b"

text \<open>\<open>strings.SplitSeq\<close> with a one-byte separator: always at least one segment.\<close>

fun splitOn :: "char \<Rightarrow> string \<Rightarrow> string list" where
  "splitOn c [] = [[]]"
| "splitOn c (x # xs) =
     (if x = c then [] # splitOn c xs
      else (case splitOn c xs of [] \<Rightarrow> [[x]] | s # ss \<Rightarrow> (x # s) # ss))"

text \<open>\<open>strings.TrimRight\<close> with a one-byte cutset.\<close>

definition trimRight :: "char \<Rightarrow> string \<Rightarrow> string" where
  "trimRight c s = rev (dropWhile (\<lambda>x. x = c) (rev s))"

text \<open>\<open>strings.TrimSpace\<close>: leading and trailing ASCII white space.\<close>

definition isSpace :: "char \<Rightarrow> bool" where
  "isSpace c \<longleftrightarrow> (let n = (of_char c :: nat) in n = 32 \<or> (9 \<le> n \<and> n \<le> 13))"

definition trimSpace :: "string \<Rightarrow> string" where
  "trimSpace s = rev (dropWhile isSpace (rev (dropWhile isSpace s)))"

text \<open>\<open>strings.Contains\<close>.\<close>

fun containsStr :: "string \<Rightarrow> string \<Rightarrow> bool" where
  "containsStr [] p = (p = [])"
| "containsStr (x # xs) p = (prefix p (x # xs) \<or> containsStr xs p)"

text \<open>Decimal output of \<open>fmt\<close>'s \<open>%d\<close> and of \<open>strconv.Itoa\<close>.\<close>

definition digitChar :: "nat \<Rightarrow> char" where
  "digitChar d = char_of (48 + d)"

fun natDigits :: "nat \<Rightarrow> string" where
  "natDigits n = (if n < 10 then [digitChar n] else natDigits (n div 10) @ [digitChar (n mod 10)])"

declare natDigits.simps [simp del]

definition itoa :: "int \<Rightarrow> string" where
  "itoa i = (if i < 0 then CHR ''-'' # natDigits (nat (- i)) else natDigits (nat i))"

definition isDigit :: "char \<Rightarrow> bool" where
  "isDigit c \<longleftrightarrow> (let n = (of_char c :: nat) in 48 \<le> n \<and> n \<le> 57)"

definition digitVal :: "char \<Rightarrow> nat" where
  "digitVal c = (of_char c :: nat) - 48"

lemma splitOn_nonempty [simp]: "splitOn c s \<noteq> []"
  by (cases s) (auto split: list.splits)

lemma lower_Nil [simp]: "lower [] = []"
  by (simp add: lower_def)

lemma lower_eq_Nil [simp]: "lower s = [] \<longleftrightarrow> s = []"
  by (simp add: lower_def)

lemma lowerc_idem [simp]: "lowerc (lowerc c) = lowerc c"
proof (cases "65 \<le> (of_char c :: nat) \<and> (of_char c :: nat) \<le> 90")
  case True
  then have "(of_char (char_of (of_char c + 32 :: nat)) :: nat) = of_char c + 32"
    by (simp add: of_char_of)
  with True show ?thesis by (simp add: lowerc_def Let_def)
next
  case False
  then have "lowerc c = c" by (auto simp: lowerc_def Let_def)
  then show ?thesis by simp
qed

lemma lower_idem [simp]: "lower (lower s) = lower s"
  by (simp add: lower_def)

lemma equalFold_refl [simp]: "equalFold s s"
  by (simp add: equalFold_def)

lemma equalFold_sym: "equalFold a b \<Longrightarrow> equalFold b a"
  by (simp add: equalFold_def)

section \<open>Maps\<close>

text \<open>
  A Go map built by successive assignments, or a JSON object in document order: the last
  binding of a key is the one a lookup sees.
\<close>

fun assoc :: "('k \<times> 'v) list \<Rightarrow> 'k \<Rightarrow> 'v option" where
  "assoc [] k = None"
| "assoc ((k', v) # kvs) k =
     (case assoc kvs k of Some w \<Rightarrow> Some w | None \<Rightarrow> if k' = k then Some v else None)"

lemma assoc_map_of_rev: "assoc kvs k = map_of (rev kvs) k"
  by (induction kvs k rule: assoc.induct) (auto simp: map_add_def split: option.splits)

lemma assoc_append: "assoc (xs @ ys) k = (case assoc ys k of Some v \<Rightarrow> Some v | None \<Rightarrow> assoc xs k)"
  by (simp add: assoc_map_of_rev map_add_def split: option.split)

lemma assoc_snoc [simp]: "assoc (xs @ [(k', v)]) k = (if k' = k then Some v else assoc xs k)"
  by (simp add: assoc_append)

lemma assoc_None_iff: "assoc kvs k = None \<longleftrightarrow> k \<notin> fst ` set kvs"
  by (simp add: assoc_map_of_rev map_of_eq_None_iff)

lemma assoc_SomeD: "assoc kvs k = Some v \<Longrightarrow> (k, v) \<in> set kvs"
  using map_of_SomeD by (fastforce simp: assoc_map_of_rev)

section \<open>Durations\<close>

text \<open>Durations are \<open>int64\<close> nanoseconds: arithmetic on them wraps around.\<close>

definition wrap64 :: "int \<Rightarrow> int" where
  "wrap64 i = sint (word_of_int i :: 64 word)"

lemma wrap64_id: "- (2 ^ 63) \<le> i \<Longrightarrow> i < 2 ^ 63 \<Longrightarrow> wrap64 i = i"
  by (simp add: wrap64_def sint_sbintrunc' signed_take_bit_int_eq_self)

section \<open>Errors\<close>

text \<open>
  Go errors: a message (\<open>errors.New\<close>), an error of a library, the two sentinels of
  \<open>internal/bluelink/auth.go\<close>, and the two ways \<open>fmt.Errorf\<close> wraps an error, with the text
  in front (\<open>"...: %w"\<close>) or behind it (\<open>"%w: ..."\<close>).
\<close>

datatype gerr =
    Err string
  | LibErr string
  | ErrConsentRequired
  | ErrAuthFailed
  | Wrapped string gerr
  | Annotated gerr string
  | Joined "gerr list"

text \<open>\<open>errors.Is\<close>: the target is found along the chain of wrapped errors.\<close>

primrec errIs :: "gerr \<Rightarrow> gerr \<Rightarrow> bool" where
  "errIs (Err m) t = (Err m = t)"
| "errIs (LibErr m) t = (LibErr m = t)"
| "errIs ErrConsentRequired t = (ErrConsentRequired = t)"
| "errIs ErrAuthFailed t = (ErrAuthFailed = t)"
| "errIs (Wrapped p e) t = (Wrapped p e = t \<or> errIs e t)"
| "errIs (Annotated e a) t = (Annotated e a = t \<or> errIs e t)"
| "errIs (Joined es) t = (Joined es = t \<or> list_ex id (map (\<lambda>e. errIs e t) es))"

primrec errText :: "gerr \<Rightarrow> string" where
  "errText (Err m) = m"
| "errText (LibErr m) = m"
| "errText ErrConsentRequired = ''bluelink: account consent required (log in via browser once)''"
| "errText ErrAuthFailed = ''bluelink: authentication failed''"
| "errText (Wrapped p e) = p @ '': '' @ errText e"
| "errText (Annotated e a) = errText e @ '': '' @ a"
| "errText (Joined es) = foldr (\<lambda>t acc. if acc = [] then t else t @ [CHR 0x0A] @ acc) (map errText es) []"

section \<open>Calls that change state and may fail\<close>

text \<open>
  A Go call with an error return, run on an explicit state: the new state is returned on
  both outcomes, since a failing call keeps the effects it had before it failed.
\<close>

type_synonym ('s, 'e, 'a) op = "'s \<Rightarrow> ('e + 'a) \<times> 's"

definition ret :: "'a \<Rightarrow> ('s, 'e, 'a) op" where
  "ret x = (\<lambda>s. (Inr x, s))"

definition fail :: "'e \<Rightarrow> ('s, 'e, 'a) op" where
  "fail e = (\<lambda>s. (Inl e, s))"

definition bindOp :: "('s, 'e, 'a) op \<Rightarrow> ('a \<Rightarrow> ('s, 'e, 'b) op) \<Rightarrow> ('s, 'e, 'b) op" where
  "bindOp m f = (\<lambda>s. case m s of (Inl e, s') \<Rightarrow> (Inl e, s') | (Inr x, s') \<Rightarrow> f x s')"

text \<open>\<open>fmt.Errorf\<close> around a failing call: the state is kept, the error is replaced.\<close>

definition wrapErr :: "('e \<Rightarrow> 'f) \<Rightarrow> ('s, 'e, 'a) op \<Rightarrow> ('s, 'f, 'a) op" where
  "wrapErr w m = (\<lambda>s. case m s of (Inl e, s') \<Rightarrow> (Inl (w e), s') | (Inr x, s') \<Rightarrow> (Inr x, s'))"

lemma ret_run [simp]: "ret x s = (Inr x, s)"
  by (simp add: ret_def)

lemma fail_run [simp]: "fail e s = (Inl e, s)"
  by (simp add: fail_def)

lemma bindOp_Inl [go_simps]: "m s = (Inl e, s') \<Longrightarrow> bindOp m f s = (Inl e, s')"
  by (simp add: bindOp_def)

lemma bindOp_Inr [go_simps]: "m s = (Inr x, s') \<Longrightarrow> bindOp m f s = f x s'"
  by (simp add: bindOp_def)

lemma bindOp_InrE:
  assumes "bindOp m f s = (Inr y, s'')"
  obtains x s' where "m s = (Inr x, s')" and "f x s' = (Inr y, s'')"
  using assms by (auto simp: bindOp_def split: prod.splits sum.splits)

lemma wrapErr_Inr_iff [go_simps]: "wrapErr w m s = (Inr x, s') \<longleftrightarrow> m s = (Inr x, s')"
  by (auto simp: wrapErr_def split: prod.splits sum.splits)

lemma wrapErr_Inl [go_simps]: "m s = (Inl e, s') \<Longrightarrow> wrapErr w m s = (Inl (w e), s')"
  by (simp add: wrapErr_def)

lemma wrapErr_Inr [go_simps]: "m s = (Inr x, s') \<Longrightarrow> wrapErr w m s = (Inr x, s')"
  by (simp add: wrapErr_def)

text \<open>A predicate on the state that a call keeps, whether it fails or not.\<close>

definition keeps :: "('s \<Rightarrow> bool) \<Rightarrow> ('s, 'e, 'a) op \<Rightarrow> bool" where
  "keeps I m \<longleftrightarrow> (\<forall>s. I s \<longrightarrow> I (snd (m s)))"

named_theorems keeps_intros

lemma keepsI: "(\<And>s. I s \<Longrightarrow> I (snd (m s))) \<Longrightarrow> keeps I m"
  by (simp add: keeps_def)

lemma keepsD: "keeps I m \<Longrightarrow> I s \<Longrightarrow> I (snd (m s))"
  by (simp add: keeps_def)

lemma keeps_run: "keeps I m \<Longrightarrow> I s \<Longrightarrow> m s = (x, s') \<Longrightarrow> I s'"
  using keepsD [of I m s] by simp

lemma keeps_ret [keeps_intros]: "keeps I (ret x)"
  by (simp add: keeps_def)

lemma keeps_fail [keeps_intros]: "keeps I (fail e)"
  by (simp add: keeps_def)

lemma keeps_bind [keeps_intros]: "keeps I m \<Longrightarrow> (\<And>x. keeps I (f x)) \<Longrightarrow> keeps I (bindOp m f)"
  by (auto simp: keeps_def bindOp_def split: prod.split sum.split dest: spec)

lemma keeps_wrap [keeps_intros]: "keeps I m \<Longrightarrow> keeps I (wrapErr e m)"
  by (auto simp: keeps_def wrapErr_def split: prod.split sum.split)

end
