(* ===== verification/Float64.thy ===== *)
theory Float64
  imports Prelude Complex_Main
begin

text \<open>
  Go's \<open>float64\<close> (IEEE 754 binary64) as far as the program computes with it: finite values
  are exact rationals, every arithmetic operation rounds its exact result to the nearest
  representable value (ties to even, gradual underflow, overflow to an infinity). The two
  zeros are one value here: they compare equal in Go, and differ only in the sign Go prints.
  \<open>truncInt\<close> is Go's conversion \<open>int(f)\<close>, whose result out of the range of \<open>int64\<close>
  depends on the processor: the two the release images are built for are modelled.
\<close>

section \<open>Rounding to binary64\<close>

definition pow2 :: "int \<Rightarrow> rat" where
  "pow2 k = (if 0 \<le> k then 2 ^ nat k else 1 / 2 ^ nat (- k))"

text \<open>The number of binary digits of a positive integer.\<close>

function blen :: "int \<Rightarrow> int" where
  "blen n = (if n \<le> 0 then 0 else 1 + blen (n div 2))"
  by pat_completeness auto
termination
  by (relation "measure nat") auto

declare blen.simps [simp del]

text \<open>The floor of the binary logarithm of \<open>\<bar>x\<bar>\<close>, for \<open>x \<noteq> 0\<close>.\<close>

definition ilog2 :: "rat \<Rightarrow> int" where
  "ilog2 x = (case quotient_of \<bar>x\<bar> of (n, d) \<Rightarrow>
     let k = blen n - blen d
     in if pow2 k \<le> \<bar>x\<bar> then k else k - 1)"

text \<open>Round to the nearest integer, ties to even.\<close>

definition rne :: "rat \<Rightarrow> int" where
  "rne x = (let f = \<lfloor>x\<rfloor>; r = x - of_int f
            in if r < 1 / 2 then f else if r > 1 / 2 then f + 1
               else if even f then f else f + 1)"

datatype f64 = Fin rat | PosInf | NegInf | NaN

definition f64_finite :: "f64 \<Rightarrow> bool" where
  "f64_finite x \<longleftrightarrow> (case x of Fin _ \<Rightarrow> True | _ \<Rightarrow> False)"

text \<open>The unit in the last place of the binade of \<open>x\<close> (53-bit significand, least exponent -1074).\<close>

definition ulpExp :: "rat \<Rightarrow> int" where
  "ulpExp x = max (ilog2 x - 52) (- 1074)"

definition fl :: "rat \<Rightarrow> f64" where
  "fl x = (if x = 0 then Fin 0
           else let e = ulpExp x; y = of_int (rne (x / pow2 e)) * pow2 e
                in if y \<noteq> 0 \<and> 1024 \<le> ilog2 y then (if 0 < x then PosInf else NegInf) else Fin y)"

section \<open>The operations the code uses\<close>

fun f64_neg :: "f64 \<Rightarrow> f64" where
  "f64_neg (Fin x) = Fin (- x)"
| "f64_neg PosInf = NegInf"
| "f64_neg NegInf = PosInf"
| "f64_neg NaN = NaN"

fun f64_add :: "f64 \<Rightarrow> f64 \<Rightarrow> f64" where
  "f64_add (Fin x) (Fin y) = fl (x + y)"
| "f64_add NaN _ = NaN"
| "f64_add _ NaN = NaN"
| "f64_add PosInf NegInf = NaN"
| "f64_add NegInf PosInf = NaN"
| "f64_add PosInf _ = PosInf"
| "f64_add NegInf _ = NegInf"
| "f64_add (Fin _) y = y"

definition f64_sub :: "f64 \<Rightarrow> f64 \<Rightarrow> f64" where
  "f64_sub x y = f64_add x (f64_neg y)"

definition infOf :: "bool \<Rightarrow> f64" where
  "infOf pos = (if pos then PosInf else NegInf)"

fun f64_mul :: "f64 \<Rightarrow> f64 \<Rightarrow> f64" where
  "f64_mul (Fin x) (Fin y) = fl (x * y)"
| "f64_mul NaN _ = NaN"
| "f64_mul _ NaN = NaN"
| "f64_mul (Fin x) PosInf = (if x = 0 then NaN else infOf (0 < x))"
| "f64_mul (Fin x) NegInf = (if x = 0 then NaN else infOf (x < 0))"
| "f64_mul PosInf (Fin x) = (if x = 0 then NaN else infOf (0 < x))"
| "f64_mul NegInf (Fin x) = (if x = 0 then NaN else infOf (x < 0))"
| "f64_mul PosInf y = y"
| "f64_mul NegInf y = f64_neg y"

text \<open>Division: the code only divides by non-zero constants; a zero divisor gives Go's infinities.\<close>

fun f64_div :: "f64 \<Rightarrow> f64 \<Rightarrow> f64" where
  "f64_div (Fin x) (Fin y) = (if y = 0 then (if x = 0 then NaN else infOf (0 < x)) else fl (x / y))"
| "f64_div NaN _ = NaN"
| "f64_div _ NaN = NaN"
| "f64_div (Fin _) _ = Fin 0"
| "f64_div PosInf (Fin y) = infOf (0 \<le> y)"
| "f64_div NegInf (Fin y) = infOf (y < 0)"
| "f64_div _ _ = NaN"

text \<open>\<open>math.Round\<close>: to the nearest integer, halves away from zero.\<close>

definition roundAway :: "rat \<Rightarrow> int" where
  "roundAway x = (if 0 \<le> x then \<lfloor>x + 1 / 2\<rfloor> else - \<lfloor>1 / 2 - x\<rfloor>)"

fun f64_round :: "f64 \<Rightarrow> f64" where
  "f64_round (Fin x) = Fin (of_int (roundAway x))"
| "f64_round y = y"

text \<open>Ordered comparisons: false when an operand is NaN.\<close>

fun f64_lt :: "f64 \<Rightarrow> f64 \<Rightarrow> bool" where
  "f64_lt (Fin x) (Fin y) = (x < y)"
| "f64_lt NaN _ = False"
| "f64_lt _ NaN = False"
| "f64_lt PosInf _ = False"
| "f64_lt (Fin _) PosInf = True"
| "f64_lt (Fin _) NegInf = False"
| "f64_lt NegInf NegInf = False"
| "f64_lt NegInf _ = True"

fun f64_ne :: "f64 \<Rightarrow> f64 \<Rightarrow> bool" where
  "f64_ne NaN _ = True"
| "f64_ne _ NaN = True"
| "f64_ne x y = (x \<noteq> y)"

section \<open>Conversion to int\<close>

datatype goarch = AMD64 | ARM64

definition minInt64 :: int where "minInt64 = - (2 ^ 63)"
definition maxInt64 :: int where "maxInt64 = 2 ^ 63 - 1"

definition truncRat :: "rat \<Rightarrow> int" where
  "truncRat x = (if 0 \<le> x then \<lfloor>x\<rfloor> else - \<lfloor>- x\<rfloor>)"

text \<open>
  \<open>int(f)\<close>: truncation towards zero in range; out of range (and for NaN) the Go specification
  leaves the value to the implementation. AMD64 returns the least integer, ARM64 saturates and
  maps NaN to 0.
\<close>

fun truncInt :: "goarch \<Rightarrow> f64 \<Rightarrow> int" where
  "truncInt a (Fin x) =
     (let t = truncRat x in
      if minInt64 \<le> t \<and> t \<le> maxInt64 then t
      else (case a of AMD64 \<Rightarrow> minInt64 | ARM64 \<Rightarrow> if 0 < x then maxInt64 else minInt64))"
| "truncInt AMD64 _ = minInt64"
| "truncInt ARM64 PosInf = maxInt64"
| "truncInt ARM64 NegInf = minInt64"
| "truncInt ARM64 NaN = 0"

section \<open>Facts\<close>

lemma pow2_powi: "pow2 k = 2 powi k"
  by (simp add: pow2_def power_int_def inverse_eq_divide power_one_over)

lemma pow2_pos [simp]: "0 < pow2 k"
  by (simp add: pow2_def)

lemma pow2_nonneg [simp]: "0 \<le> pow2 k"
  using pow2_pos [of k] by (rule less_imp_le)

lemma pow2_nz [simp]: "pow2 k \<noteq> 0"
  using pow2_pos [of k] by linarith

lemma pow2_0 [simp]: "pow2 0 = 1"
  by (simp add: pow2_def)

lemma pow2_nat: "pow2 (int m) = 2 ^ m"
  by (simp add: pow2_def)

lemma pow2_mult: "pow2 (j + k) = pow2 j * pow2 k"
  by (simp add: pow2_powi power_int_add)

lemma pow2_Suc: "pow2 (k + 1) = 2 * pow2 k"
  by (simp add: pow2_mult) (simp add: pow2_def)

lemma pow2_le: "j \<le> k \<Longrightarrow> pow2 j \<le> pow2 k"
  by (simp add: pow2_powi power_int_increasing)

lemma pow2_less: "j < k \<Longrightarrow> pow2 j < pow2 k"
  by (simp add: pow2_powi power_int_strict_increasing)

lemma pow2_less_iff: "pow2 j < pow2 k \<longleftrightarrow> j < k"
  using pow2_less [of j k] pow2_le [of k j] by linarith

lemma pow2_half: "pow2 k / 2 = pow2 (k - 1)"
  using pow2_Suc [of "k - 1"] by simp

lemma blen_pow2:
  assumes "0 < n"
  shows "pow2 (blen n - 1) \<le> of_int n \<and> of_int n < pow2 (blen n)"
  using assms
proof (induction n rule: blen.induct)
  case (1 n)
  show ?case
  proof (cases "n = 1")
    case True
    then show ?thesis using pow2_Suc [of 0] by (simp add: blen.simps)
  next
    case False
    define h where "h = n div 2"
    have h: "0 < h" and n: "2 * h \<le> n" "n < 2 * (h + 1)" using "1.prems" False by (auto simp: h_def)
    have eq: "blen n = blen h + 1" using "1.prems" by (subst blen.simps) (simp add: h_def)
    have IH: "pow2 (blen h - 1) \<le> of_int h" "of_int h < pow2 (blen h)"
      using "1.IH" "1.prems" h by (auto simp: h_def)
    have "0 \<le> blen h"
      by (rule ccontr) (use IH h pow2_less [of "blen h" 0] in \<open>simp add: of_int_less_1_iff [symmetric]\<close>)
    then have "pow2 (blen h) = of_int (2 ^ nat (blen h))" by (simp add: pow2_nat [symmetric])
    with IH(2) have "h < 2 ^ nat (blen h)" by (simp only: of_int_less_iff)
    then have "of_int (h + 1) \<le> pow2 (blen h)"
      using \<open>pow2 (blen h) = _\<close> by (simp only: of_int_le_iff)
    moreover have "(of_int n :: rat) < of_int (2 * (h + 1))" "(of_int (2 * h) :: rat) \<le> of_int n"
      using n by (simp_all only: of_int_less_iff of_int_le_iff)
    ultimately show ?thesis
      using IH(1) pow2_Suc [of "blen h"] pow2_Suc [of "blen h - 1"] by (simp add: eq)
  qed
qed

lemma ilog2_bounds:
  assumes "x \<noteq> 0"
  shows "pow2 (ilog2 x) \<le> \<bar>x\<bar>" and "\<bar>x\<bar> < pow2 (ilog2 x + 1)"
proof -
  obtain n d where q: "quotient_of \<bar>x\<bar> = (n, d)" by (cases "quotient_of \<bar>x\<bar>")
  then have d: "0 < d" and xe: "\<bar>x\<bar> = of_int n / of_int d"
    by (auto simp: quotient_of_denom_pos quotient_of_div)
  from assms have "0 < \<bar>x\<bar>" by simp
  with xe d have n: "0 < n" by (auto simp: zero_less_divide_iff)
  define bn bd where "bn = blen n" and "bd = blen d"
  have nlo: "pow2 (bn - 1) \<le> of_int n" and nhi: "of_int n < pow2 bn"
    using blen_pow2 [OF n] by (simp_all add: bn_def)
  have dhi: "of_int d < pow2 bd" and dlo: "pow2 (bd - 1) \<le> of_int d"
    using blen_pow2 [OF d] by (simp_all add: bd_def)
  define k where "k = bn - bd"
  have d0: "(0::rat) < of_int d" using d by simp
  have "pow2 (k - 1) * of_int d \<le> pow2 (k - 1) * pow2 (bd)"
    using dhi by (intro mult_left_mono) auto
  also have "\<dots> = pow2 (k - 1 + bd)" by (simp only: pow2_mult)
  also have "k - 1 + bd = bn - 1" by (simp add: k_def)
  finally have lo: "pow2 (k - 1) \<le> \<bar>x\<bar>"
    using nlo d0 by (simp add: xe pos_le_divide_eq)
  have "bn = k + 1 + (bd - 1)" by (simp add: k_def)
  then have "pow2 (bn) = pow2 (k + 1) * pow2 (bd - 1)" by (simp only: pow2_mult)
  also have "\<dots> \<le> pow2 (k + 1) * of_int d" using dlo by (intro mult_left_mono) auto
  finally have hi: "\<bar>x\<bar> < pow2 (k + 1)"
    using nhi d0 by (simp add: xe pos_divide_less_eq)
  have il: "ilog2 x = (if pow2 k \<le> \<bar>x\<bar> then k else k - 1)"
    by (simp add: ilog2_def q k_def bn_def bd_def Let_def)
  show "pow2 (ilog2 x) \<le> \<bar>x\<bar>" using lo by (simp add: il)
  show "\<bar>x\<bar> < pow2 (ilog2 x + 1)" using hi by (simp add: il)
qed

lemma ilog2_less: "x \<noteq> 0 \<Longrightarrow> \<bar>x\<bar> < pow2 k \<Longrightarrow> ilog2 x < k"
  using ilog2_bounds(1) [of x] pow2_less_iff [of "ilog2 x" k] by linarith

lemma rne_error: "\<bar>of_int (rne x) - x\<bar> \<le> 1 / 2"
proof -
  define f where "f = \<lfloor>x\<rfloor>"
  have "of_int f \<le> x" and "x < of_int f + 1" using floor_correct [of x] by (simp_all add: f_def)
  then show ?thesis by (auto simp: rne_def f_def [symmetric] Let_def abs_if)
qed

lemma rne_of_int [simp]: "rne (of_int i) = i"
  by (simp add: rne_def)

text \<open>The value before the overflow test, and its relative error.\<close>

definition rnd :: "rat \<Rightarrow> rat" where
  "rnd x = of_int (rne (x / pow2 (ulpExp x))) * pow2 (ulpExp x)"

lemma fl_rnd: "x \<noteq> 0 \<Longrightarrow> fl x = (if rnd x \<noteq> 0 \<and> 1024 \<le> ilog2 (rnd x)
    then (if 0 < x then PosInf else NegInf) else Fin (rnd x))"
  by (simp add: fl_def rnd_def Let_def)

lemma rnd_error_ulp: "\<bar>rnd x - x\<bar> \<le> pow2 (ulpExp x) / 2"
proof -
  define u where "u = pow2 (ulpExp x)"
  have u: "0 < u" by (simp add: u_def)
  have "\<bar>of_int (rne (x / u)) - x / u\<bar> * u \<le> 1 / 2 * u"
    using rne_error [of "x / u"] u by (intro mult_right_mono) auto
  moreover have "\<bar>of_int (rne (x / u)) - x / u\<bar> * u = \<bar>of_int (rne (x / u)) * u - x\<bar>"
    using u by (subst abs_mult_pos) (simp_all add: algebra_simps)
  ultimately show ?thesis unfolding rnd_def u_def [symmetric] by linarith
qed

text \<open>In the normal range the relative error is at most one part in \<open>2 ^ 53\<close>.\<close>

lemma rnd_error_rel:
  assumes "x \<noteq> 0" and "pow2 (- 1022) \<le> \<bar>x\<bar>"
  shows "\<bar>rnd x - x\<bar> \<le> \<bar>x\<bar> * pow2 (- 53)"
proof -
  have "- 1022 \<le> ilog2 x"
    using assms ilog2_bounds(2) [OF assms(1)] pow2_less_iff [of "- 1022" "ilog2 x + 1"] by linarith
  then have "ulpExp x = ilog2 x + (- 52)" by (simp add: ulpExp_def)
  then have "pow2 (ulpExp x) / 2 = pow2 (ilog2 x) * pow2 (- 53)"
    by (simp add: pow2_mult [symmetric] pow2_half)
  also have "\<dots> \<le> \<bar>x\<bar> * pow2 (- 53)"
    using ilog2_bounds(1) [OF assms(1)] by (intro mult_right_mono) (auto intro: less_imp_le)
  finally show ?thesis using rnd_error_ulp [of x] by linarith
qed

lemma fl_finite:
  assumes "\<bar>x\<bar> < pow2 1023"
  shows "fl x = Fin (rnd x)"
proof (cases "x = 0")
  case True
  then show ?thesis by (simp add: fl_def rnd_def rne_def)
next
  case False
  have "ulpExp x \<le> 971"
    using ilog2_less [OF False assms] by (simp add: ulpExp_def)
  then have "pow2 (ulpExp x) \<le> pow2 971" by (rule pow2_le)
  moreover have "pow2 971 \<le> pow2 1022" and "pow2 1023 = 2 * pow2 1022" and "pow2 1024 = 2 * pow2 1023"
    using pow2_le [of 971 1022] pow2_Suc [of 1022] pow2_Suc [of 1023] by simp_all
  ultimately have "\<bar>rnd x\<bar> < pow2 1024"
    using rnd_error_ulp [of x] assms by linarith
  then show ?thesis
    using False ilog2_less [of "rnd x" 1024] by (auto simp: fl_rnd)
qed

text \<open>Values with a significand of at most 53 bits and an exponent in range are representable.\<close>

lemma rnd_scaled_int:
  assumes "\<bar>m\<bar> < 2 ^ 53" and "- 1074 \<le> e"
  shows "rnd (of_int m * pow2 e) = of_int m * pow2 e"
proof (cases "m = 0")
  case True
  then show ?thesis by (simp add: rnd_def rne_def)
next
  case False
  define x where "x = of_int m * pow2 e"
  from False have x: "x \<noteq> 0" by (simp add: x_def)
  have "(of_int \<bar>m\<bar> :: rat) < of_int (2 ^ 53)" using assms(1) by (simp only: of_int_less_iff)
  moreover have "pow2 53 = of_int (2 ^ 53)" by (simp add: pow2_def)
  ultimately have "\<bar>x\<bar> < pow2 53 * pow2 e" by (simp add: x_def abs_mult)
  then have "\<bar>x\<bar> < pow2 (53 + e)" by (simp only: pow2_mult)
  then have "ilog2 x < 53 + e" by (rule ilog2_less [OF x])
  then have u: "ulpExp x \<le> e" using assms(2) by (simp add: ulpExp_def)
  define v where "v = ulpExp x"
  define n where "n = nat (e - v)"
  have "e = int n + v" using u by (simp add: n_def v_def)
  then have "pow2 e = 2 ^ n * pow2 v" by (metis pow2_mult pow2_nat)
  then have eq: "x / pow2 v = of_int (m * 2 ^ n)" by (simp add: x_def)
  then have "rnd x = of_int (m * 2 ^ n) * pow2 v" by (simp only: rnd_def v_def [symmetric] rne_of_int)
  also have "\<dots> = x" using eq by (simp only: eq [symmetric]) simp
  finally show ?thesis by (simp only: x_def)
qed

lemma rnd_scaled_int_le:
  assumes "\<bar>m\<bar> \<le> 2 ^ 53" and "- 1074 \<le> e"
  shows "rnd (of_int m * pow2 e) = of_int m * pow2 e"
proof (cases "\<bar>m\<bar> = 2 ^ 53")
  case True
  then have "m = 2 ^ 53 \<or> m = - (2 ^ 53)" by (simp only: abs_if split: if_splits) linarith+
  then have "m = (m div 2) * 2" and "\<bar>m div 2\<bar> < 2 ^ 53" by auto
  moreover from this have "of_int m * pow2 e = of_int (m div 2) * pow2 (e + 1)"
    by (metis mult.assoc of_int_mult of_int_numeral pow2_Suc)
  ultimately show ?thesis using rnd_scaled_int [of "m div 2" "e + 1"] assms(2) by simp
next
  case False
  with assms show ?thesis by (intro rnd_scaled_int) auto
qed

lemma rnd_small_int: "\<bar>i\<bar> \<le> 2 ^ 53 \<Longrightarrow> rnd (of_int i) = of_int i"
  using rnd_scaled_int_le [of i 0] by simp

lemma fl_small_int: "\<bar>i\<bar> \<le> 2 ^ 53 \<Longrightarrow> fl (of_int i) = Fin (of_int i)"
proof -
  assume i: "\<bar>i\<bar> \<le> 2 ^ 53"
  then have "(of_int \<bar>i\<bar> :: rat) \<le> of_int (2 ^ 53)" by (simp only: of_int_le_iff)
  moreover have "(of_int (2 ^ 53) :: rat) < pow2 1023"
    using pow2_less [of 53 1023] by (simp add: pow2_def)
  ultimately show ?thesis using rnd_small_int [OF i] by (simp add: fl_finite)
qed

lemma rne_abs_le:
  assumes "\<bar>x\<bar> \<le> of_int n"
  shows "\<bar>rne x\<bar> \<le> n"
proof -
  have "\<lfloor>x\<rfloor> \<le> n" and "- n \<le> \<lfloor>x\<rfloor>" and "x \<noteq> of_int n \<Longrightarrow> \<lfloor>x\<rfloor> < n"
    using assms by (auto simp: le_floor_iff floor_less_iff abs_if floor_le_iff split: if_splits)
  then show ?thesis
    using assms by (cases "x = of_int n") (auto simp: rne_def Let_def abs_if split: if_splits)
qed

text \<open>Rounding a representable value changes nothing.\<close>

lemma rnd_idem: "rnd (rnd x) = rnd x"
proof (cases "x = 0")
  case True
  then show ?thesis by (simp add: rnd_def rne_def)
next
  case False
  have "ilog2 x + 1 \<le> ulpExp x + 53" by (simp add: ulpExp_def)
  from ilog2_bounds(2) [OF False] pow2_le [OF this]
  have "\<bar>x\<bar> < pow2 (ulpExp x + 53)" by (rule less_le_trans)
  then have "\<bar>x / pow2 (ulpExp x)\<bar> \<le> pow2 53"
    by (simp add: abs_divide pos_divide_le_eq pow2_mult mult.commute)
  then have "\<bar>rne (x / pow2 (ulpExp x))\<bar> \<le> 2 ^ 53"
    by (intro rne_abs_le) (simp add: pow2_def)
  then show ?thesis
    unfolding rnd_def [of x] by (intro rnd_scaled_int_le) (simp_all add: ulpExp_def)
qed

text \<open>The values a \<open>float64\<close> can hold.\<close>

definition representable :: "f64 \<Rightarrow> bool" where
  "representable f \<longleftrightarrow> (case f of Fin x \<Rightarrow> rnd x = x \<and> (x \<noteq> 0 \<longrightarrow> ilog2 x < 1024) | _ \<Rightarrow> True)"

lemma representable_fl [simp]: "representable (fl x)"
proof (cases "x = 0")
  case True
  then show ?thesis by (simp add: fl_def representable_def rnd_def rne_def)
next
  case False
  then show ?thesis by (auto simp: fl_rnd representable_def rnd_idem)
qed

lemma fl_representable: "representable (Fin x) \<Longrightarrow> fl x = Fin x"
  by (cases "x = 0") (simp add: fl_def, simp add: representable_def fl_rnd)

text \<open>\<open>math.Round\<close> is within a half of its argument, and fixes integers.\<close>

lemma roundAway_error: "\<bar>of_int (roundAway x) - x\<bar> \<le> 1 / 2"
proof -
  define f g where "f = \<lfloor>x + 1 / 2\<rfloor>" and "g = \<lfloor>1 / 2 - x\<rfloor>"
  have "of_int f \<le> x + 1 / 2" and "x + 1 / 2 < of_int f + 1"
    and "of_int g \<le> 1 / 2 - x" and "1 / 2 - x < of_int g + 1"
    using floor_correct [of "x + 1 / 2"] floor_correct [of "1 / 2 - x"] by (simp_all add: f_def g_def)
  then show ?thesis by (auto simp: roundAway_def f_def [symmetric] g_def [symmetric] abs_if)
qed

lemma roundAway_of_int [simp]: "roundAway (of_int i) = i"
proof -
  have "(of_int \<bar>roundAway (of_int i) - i\<bar> :: rat) < 1"
    using roundAway_error [of "of_int i"] by simp
  then have "\<bar>roundAway (of_int i) - i\<bar> < 1" by (simp only: of_int_less_1_iff)
  then show ?thesis by simp
qed

text \<open>In range, \<open>int(f)\<close> does not depend on the processor and stays an \<open>int64\<close>.\<close>

lemma truncInt_range: "minInt64 \<le> truncInt a f \<and> truncInt a f \<le> maxInt64"
  by (cases "(a, f)" rule: truncInt.cases)
     (auto simp: Let_def minInt64_def maxInt64_def split: goarch.split)

lemma truncRat_of_int [simp]: "truncRat (of_int i) = i"
  by (simp add: truncRat_def)

lemma truncInt_of_int: "minInt64 \<le> i \<Longrightarrow> i \<le> maxInt64 \<Longrightarrow> truncInt a (Fin (of_int i)) = i"
  by (simp add: Let_def)

end
