(* ===== verification/Json.thy ===== *)
theory Json
  imports Float64
begin

text \<open>
  JSON documents, what Go's \<open>encoding/json\<close> does with them in this program, and the safe
  path lookups of \<open>internal/bluelink/parse_ccs2.go\<close> and \<open>parse_ccs1.go\<close>.

  A document on the wire keeps integer literals (\<open>JInt\<close>) apart from other number literals
  (\<open>JNum\<close>), because Go refuses to decode the latter into an integer field. Decoding into
  \<open>any\<close> turns every number into a \<open>float64\<close>; an \<open>any\<close> holding nil is \<open>JNull\<close>, and a
  Go \<open>int\<close> stored in an \<open>any\<close> is \<open>JInt\<close>. Objects list their bindings in document order.
\<close>

datatype json =
    JNull
  | JBool bool
  | JNum f64
  | JInt int
  | JStr string
  | JArr "json list"
  | JObj "(string \<times> json) list"

type_synonym gomap = "(string \<times> json) list"

section \<open>Decoding with encoding/json\<close>

text \<open>Decoding into \<open>any\<close>: numbers become \<open>float64\<close>.\<close>

primrec anyOf :: "json \<Rightarrow> json" where
  "anyOf JNull = JNull"
| "anyOf (JBool b) = JBool b"
| "anyOf (JNum f) = JNum f"
| "anyOf (JInt i) = JNum (fl (of_int i))"
| "anyOf (JStr s) = JStr s"
| "anyOf (JArr xs) = JArr (map anyOf xs)"
| "anyOf (JObj kvs) = JObj (map (map_prod id anyOf) kvs)"

text \<open>A number literal beyond the range of \<open>float64\<close> is a decoding error.\<close>

primrec numsFinite :: "json \<Rightarrow> bool" where
  "numsFinite JNull = True"
| "numsFinite (JBool b) = True"
| "numsFinite (JNum f) = f64_finite f"
| "numsFinite (JInt i) = f64_finite (fl (of_int i))"
| "numsFinite (JStr s) = True"
| "numsFinite (JArr xs) = list_all id (map numsFinite xs)"
| "numsFinite (JObj kvs) = list_all snd (map (map_prod id numsFinite) kvs)"

text \<open>
  Decoding into a fresh field of the given Go type: \<open>None\<close> is the \<open>UnmarshalTypeError\<close>
  that makes \<open>json.Unmarshal\<close> fail; a JSON null leaves the zero value.
\<close>

definition decString :: "json \<Rightarrow> string option" where
  "decString v = (case v of JStr s \<Rightarrow> Some s | JNull \<Rightarrow> Some [] | _ \<Rightarrow> None)"

definition decInt :: "json \<Rightarrow> int option" where
  "decInt v = (case v of JInt i \<Rightarrow> if minInt64 \<le> i \<and> i \<le> maxInt64 then Some i else None
                       | JNull \<Rightarrow> Some 0 | _ \<Rightarrow> None)"

definition decFloatPtr :: "json \<Rightarrow> f64 option option" where
  "decFloatPtr v = (case v of
       JNum f \<Rightarrow> if f64_finite f then Some (Some f) else None
     | JInt i \<Rightarrow> if f64_finite (fl (of_int i)) then Some (Some (fl (of_int i))) else None
     | JNull \<Rightarrow> Some None | _ \<Rightarrow> None)"

definition decMap :: "json \<Rightarrow> gomap option option" where
  "decMap v = (case v of
       JObj kvs \<Rightarrow> if numsFinite v then Some (Some (map (map_prod id anyOf) kvs)) else None
     | JNull \<Rightarrow> Some None | _ \<Rightarrow> None)"

definition decList :: "(json \<Rightarrow> 'a option) \<Rightarrow> json \<Rightarrow> 'a list option" where
  "decList dec v = (case v of JArr xs \<Rightarrow> those (map dec xs) | JNull \<Rightarrow> Some [] | _ \<Rightarrow> None)"

text \<open>
  A struct target: its fields, found by name without regard to (ASCII) case. Of several matching
  members the last wins, except that an object is decoded into what the ones before it left:
  its members come after theirs.
\<close>

definition mergeMember :: "json \<Rightarrow> json \<Rightarrow> json" where
  "mergeMember v w = (case (v, w) of (JObj a, JObj b) \<Rightarrow> JObj (a @ b) | _ \<Rightarrow> w)"

fun fieldOf :: "gomap \<Rightarrow> string \<Rightarrow> json option" where
  "fieldOf [] k = None"
| "fieldOf ((k', v) # kvs) k =
     (case fieldOf kvs k of
        Some w \<Rightarrow> Some (if equalFold k' k then mergeMember v w else w)
      | None \<Rightarrow> if equalFold k' k then Some v else None)"

definition decField :: "(json \<Rightarrow> 'a option) \<Rightarrow> 'a \<Rightarrow> gomap \<Rightarrow> string \<Rightarrow> 'a option" where
  "decField dec zero kvs k = (case fieldOf kvs k of None \<Rightarrow> Some zero | Some v \<Rightarrow> dec v)"

definition decStruct :: "(gomap \<Rightarrow> 'a option) \<Rightarrow> json \<Rightarrow> 'a option" where
  "decStruct body v = (case v of JObj kvs \<Rightarrow> body kvs | JNull \<Rightarrow> body [] | _ \<Rightarrow> None)"

section \<open>Safe dotted-path lookups\<close>

text \<open>\<open>getPath\<close>: the loop over the segments of a dotted path; anything missing is nil.\<close>

fun walkPath :: "json \<Rightarrow> string list \<Rightarrow> json" where
  "walkPath cur [] = cur"
| "walkPath (JObj kvs) (seg # segs) =
     (case assoc kvs seg of None \<Rightarrow> JNull | Some v \<Rightarrow> walkPath v segs)"
| "walkPath _ (seg # segs) = JNull"

definition getPath :: "gomap \<Rightarrow> string \<Rightarrow> json" where
  "getPath m path = walkPath (JObj m) (splitOn (CHR ''.'') path)"

definition asFloat :: "json \<Rightarrow> f64 option" where
  "asFloat v = (case v of
       JNum n \<Rightarrow> Some n
     | JInt n \<Rightarrow> Some (fl (of_int n))
     | JBool b \<Rightarrow> (if b then Some (Fin 1) else Some (Fin 0))
     | _ \<Rightarrow> None)"

definition getFloat :: "gomap \<Rightarrow> string \<Rightarrow> f64 option" where
  "getFloat m path = asFloat (getPath m path)"

definition getInt :: "goarch \<Rightarrow> gomap \<Rightarrow> string \<Rightarrow> int option" where
  "getInt a m path = (case asFloat (getPath m path) of Some f \<Rightarrow> Some (truncInt a f) | None \<Rightarrow> None)"

definition getString :: "gomap \<Rightarrow> string \<Rightarrow> string" where
  "getString m path = (case getPath m path of JStr s \<Rightarrow> s | _ \<Rightarrow> [])"

definition getBool :: "gomap \<Rightarrow> string \<Rightarrow> bool option" where
  "getBool m path = (case getPath m path of JBool b \<Rightarrow> Some b | _ \<Rightarrow> None)"

section \<open>Facts\<close>

lemma walkPath_JNull [simp]: "segs \<noteq> [] \<Longrightarrow> walkPath JNull segs = JNull"
  by (cases segs) auto

text \<open>A lookup below a nil is nil, and a path can be looked up in two stages.\<close>

lemma walkPath_append: "walkPath v (xs @ ys) = (if ys = [] then walkPath v xs else walkPath (walkPath v xs) ys)"
  by (induction v xs rule: walkPath.induct) (auto split: option.splits)

lemma getInt_range: "getInt a m p = Some i \<Longrightarrow> minInt64 \<le> i \<and> i \<le> maxInt64"
  using truncInt_range by (auto simp: getInt_def split: option.splits)

lemma getInt_None_iff: "getInt a m p = None \<longleftrightarrow> getFloat m p = None"
  by (auto simp: getInt_def getFloat_def split: option.splits)

lemma getPath_Nil [simp]: "getPath [] p = JNull"
  by (cases "splitOn (CHR ''.'') p") (auto simp: getPath_def)

lemma getFloat_Nil [simp]: "getFloat [] p = None"
  by (simp add: getFloat_def asFloat_def)

lemma getInt_Nil [simp]: "getInt a [] p = None"
  by (simp add: getInt_def asFloat_def)

lemma getString_Nil [simp]: "getString [] p = []"
  by (simp add: getString_def)

lemma getBool_Nil [simp]: "getBool [] p = None"
  by (simp add: getBool_def)

text \<open>Lookups in a document of finite numbers give finite numbers.\<close>

lemma numsFinite_lookup: "numsFinite (JObj kvs) \<Longrightarrow> assoc kvs k = Some v \<Longrightarrow> numsFinite v"
  by (drule assoc_SomeD) (fastforce simp: list_all_iff)

lemma numsFinite_walkPath: "numsFinite v \<Longrightarrow> numsFinite (walkPath v segs)"
  by (induction v segs rule: walkPath.induct)
     (auto simp del: numsFinite.simps(7) intro: numsFinite_lookup split: option.splits)

lemma getFloat_finite: "numsFinite (JObj m) \<Longrightarrow> getFloat m p = Some f \<Longrightarrow> f64_finite f"
  using numsFinite_walkPath [of "JObj m" "splitOn (CHR ''.'') p"]
  by (cases "getPath m p")
     (auto simp: getFloat_def asFloat_def getPath_def f64_finite_def split: if_splits)

end
