(* ===== verification/GoTime.thy ===== *)
theory GoTime
  imports Prelude
begin

text \<open>
  Go's \<open>time\<close> package as far as the program uses it. An instant is a number of nanoseconds
  since the Unix epoch; a \<open>time.Time\<close> is an instant with the zone offset it prints with.
  Civil dates are converted with years that start in March, so that the leap day comes last.
  A \<open>*time.Location\<close> is its list of zone transitions; \<open>dateIn\<close> is \<open>time.Date\<close>, whose
  choice at a gap or an overlap of the local clock is the one Go makes. \<open>parseLayout\<close>
  interprets the layouts of \<open>time.Parse\<close> chunk by chunk.
\<close>

abbreviation nsPerSec :: int where "nsPerSec \<equiv> 1000000000"

record gotime =
  tns :: int
  toff :: int

section \<open>The calendar\<close>

definition yearDays :: "int \<Rightarrow> int" where
  "yearDays y = 365 * y + y div 4 - y div 100 + y div 400"

text \<open>Days since 1970-01-01 of a civil date; days beyond the month carry over, as in \<open>time.Date\<close>.\<close>

definition daysFromCivil :: "int \<Rightarrow> int \<Rightarrow> int \<Rightarrow> int" where
  "daysFromCivil y m d =
     (let y' = (if m \<le> 2 then y - 1 else y); mp = (m + 9) mod 12
      in yearDays y' + (153 * mp + 2) div 5 + (d - 1) - 719468)"

definition civilFromDays :: "int \<Rightarrow> int \<times> int \<times> int" where
  "civilFromDays z =
     (let n = z + 719468;
          a = n div 146097; r1 = n mod 146097;
          b = min 3 (r1 div 36524); r2 = r1 - 36524 * b;
          c = r2 div 1461; r3 = r2 mod 1461;
          e = min 3 (r3 div 365); doy = r3 - 365 * e;
          mp = (5 * doy + 2) div 153; d = doy - (153 * mp + 2) div 5 + 1;
          m = (if mp < 10 then mp + 3 else mp - 9);
          y = 400 * a + 100 * b + 4 * c + e
      in (if m \<le> 2 then y + 1 else y, m, d))"

definition isLeap :: "int \<Rightarrow> bool" where
  "isLeap y \<longleftrightarrow> y mod 4 = 0 \<and> (y mod 100 \<noteq> 0 \<or> y mod 400 = 0)"

definition daysIn :: "int \<Rightarrow> int \<Rightarrow> int" where
  "daysIn m y = (if m = 2 then (if isLeap y then 29 else 28)
                 else if m \<in> {4, 6, 9, 11} then 30 else 31)"

section \<open>Locations and time.Date\<close>

text \<open>The offset before the first transition, and the transitions (instant in seconds, new offset).\<close>

record location =
  locName :: string
  locFirst :: int
  locTrans :: "(int \<times> int) list"

definition utcLoc :: location where
  "utcLoc = \<lparr>locName = ''UTC'', locFirst = 0, locTrans = []\<rparr>"

text \<open>\<open>Location.lookup\<close>: the offset at an instant and the bounds of the zone it lies in.\<close>

fun zoneLookup :: "int \<Rightarrow> int option \<Rightarrow> (int \<times> int) list \<Rightarrow> int \<Rightarrow> int \<times> int option \<times> int option" where
  "zoneLookup off start [] t = (off, start, None)"
| "zoneLookup off start ((s, off') # rest) t =
     (if t < s then (off, start, Some s) else zoneLookup off' (Some s) rest t)"

definition locLookup :: "location \<Rightarrow> int \<Rightarrow> int \<times> int option \<times> int option" where
  "locLookup loc t = zoneLookup (locFirst loc) None (locTrans loc) t"

definition offsetAt :: "location \<Rightarrow> int \<Rightarrow> int" where
  "offsetAt loc t = fst (locLookup loc t)"

text \<open>
  The last part of \<open>time.Date\<close>: \<open>unix\<close> is the wall-clock time read as UTC seconds. The
  offset in force at \<open>unix\<close> is tried first; if the instant it gives lies outside that zone,
  the offset in force at that instant is used instead.
\<close>

definition wallToUnix :: "location \<Rightarrow> int \<Rightarrow> int" where
  "wallToUnix loc unix =
     (case locLookup loc unix of (off, start, end') \<Rightarrow>
        if off = 0 then unix
        else let utc = unix - off;
                 inZone = (case start of None \<Rightarrow> True | Some s \<Rightarrow> s \<le> utc) \<and>
                          (case end' of None \<Rightarrow> True | Some e \<Rightarrow> utc < e)
             in unix - (if inZone then off else offsetAt loc utc))"

text \<open>\<open>time.Date(y, m, d, hour, min, 0, 0, loc)\<close>, in seconds.\<close>

definition dateIn :: "location \<Rightarrow> int \<Rightarrow> int \<Rightarrow> int \<Rightarrow> int \<Rightarrow> int \<Rightarrow> int" where
  "dateIn loc y m d hour minute =
     wallToUnix loc (daysFromCivil y m d * 86400 + hour * 3600 + minute * 60)"

text \<open>The local wall clock at an instant (in seconds), and its calendar day.\<close>

definition localSecs :: "location \<Rightarrow> int \<Rightarrow> int" where
  "localSecs loc t = t + offsetAt loc t"

definition localDay :: "location \<Rightarrow> int \<Rightarrow> int" where
  "localDay loc t = localSecs loc t div 86400"

section \<open>Parsing\<close>

datatype chunk = CLit char | CLongYear | CZeroMonth | CZeroDay | CHour | CZeroMinute | CZeroSecond | CColonTZ

record parsed =
  pYear :: int
  pMonth :: int
  pDay :: int
  pHour :: int
  pMin :: int
  pSec :: int
  pNsec :: int
  pOff :: int

definition parsed0 :: parsed where
  "parsed0 = \<lparr>pYear = 0, pMonth = 1, pDay = 1, pHour = 0, pMin = 0, pSec = 0, pNsec = 0, pOff = 0\<rparr>"

text \<open>\<open>getnum\<close>: two digits, or one where the layout does not fix two.\<close>

fun getnum :: "string \<Rightarrow> bool \<Rightarrow> (int \<times> string) option" where
  "getnum [] fixed = None"
| "getnum (a # s) fixed =
     (if \<not> isDigit a then None
      else (case s of
          b # s' \<Rightarrow> if isDigit b then Some (int (digitVal a) * 10 + int (digitVal b), s')
                   else if fixed then None else Some (int (digitVal a), s)
        | [] \<Rightarrow> if fixed then None else Some (int (digitVal a), s)))"

fun digitsVal :: "int \<Rightarrow> string \<Rightarrow> int" where
  "digitsVal acc [] = acc"
| "digitsVal acc (c # cs) = digitsVal (10 * acc + int (digitVal c)) cs"

text \<open>A fractional second that the layout does not name: nine digits count.\<close>

definition fracSecond :: "string \<Rightarrow> int \<times> string" where
  "fracSecond s = (case s of
      p # d # _ \<Rightarrow>
        if (p = CHR ''.'' \<or> p = CHR '','') \<and> isDigit d
        then let ds = takeWhile isDigit (tl s); ds9 = take 9 ds
             in (digitsVal 0 ds9 * 10 ^ (9 - length ds9), dropWhile isDigit (tl s))
        else (0, s)
    | _ \<Rightarrow> (0, s))"

definition inRange :: "int \<Rightarrow> int \<Rightarrow> int \<Rightarrow> bool" where
  "inRange lo hi v \<longleftrightarrow> lo \<le> v \<and> v \<le> hi"

fun parseChunk :: "chunk \<Rightarrow> string \<Rightarrow> parsed \<Rightarrow> (string \<times> parsed) option" where
  "parseChunk (CLit c) s p =
     (if c = CHR '' '' then
        (case s of x # _ \<Rightarrow> if x = CHR '' '' then Some (dropWhile (\<lambda>x. x = CHR '' '') s, p) else None
                 | [] \<Rightarrow> Some ([], p))
      else (case s of x # s' \<Rightarrow> if x = c then Some (s', p) else None | [] \<Rightarrow> None))"
| "parseChunk CLongYear s p =
     (if 4 \<le> length s \<and> list_all isDigit (take 4 s)
      then Some (drop 4 s, p\<lparr>pYear := digitsVal 0 (take 4 s)\<rparr>) else None)"
| "parseChunk CZeroMonth s p =
     (case getnum s True of Some (v, s') \<Rightarrow> if inRange 1 12 v then Some (s', p\<lparr>pMonth := v\<rparr>) else None
                          | None \<Rightarrow> None)"
| "parseChunk CZeroDay s p =
     (case getnum s True of Some (v, s') \<Rightarrow> Some (s', p\<lparr>pDay := v\<rparr>) | None \<Rightarrow> None)"
| "parseChunk CHour s p =
     (case getnum s False of Some (v, s') \<Rightarrow> if inRange 0 23 v then Some (s', p\<lparr>pHour := v\<rparr>) else None
                           | None \<Rightarrow> None)"
| "parseChunk CZeroMinute s p =
     (case getnum s True of Some (v, s') \<Rightarrow> if inRange 0 59 v then Some (s', p\<lparr>pMin := v\<rparr>) else None
                          | None \<Rightarrow> None)"
| "parseChunk CZeroSecond s p =
     (case getnum s True of
        Some (v, s') \<Rightarrow>
          if inRange 0 59 v
          then (case fracSecond s' of (ns, s'') \<Rightarrow> Some (s'', p\<lparr>pSec := v, pNsec := ns\<rparr>)) else None
      | None \<Rightarrow> None)"
| "parseChunk CColonTZ s p =
     (if s \<noteq> [] \<and> hd s = CHR ''Z'' then Some (tl s, p\<lparr>pOff := 0\<rparr>)
      else if length s < 6 \<or> s ! 3 \<noteq> CHR '':'' then None
      else (case (getnum (take 2 (drop 1 s)) True, getnum (take 2 (drop 4 s)) True) of
          (Some (hr, _), Some (mm, _)) \<Rightarrow>
            if 24 < hr \<or> 60 < mm then None
            else let off = (hr * 60 + mm) * 60
                 in if hd s = CHR ''+'' then Some (drop 6 s, p\<lparr>pOff := off\<rparr>)
                    else if hd s = CHR ''-'' then Some (drop 6 s, p\<lparr>pOff := - off\<rparr>) else None
        | _ \<Rightarrow> None))"

fun parseChunks :: "chunk list \<Rightarrow> string \<Rightarrow> parsed \<Rightarrow> parsed option" where
  "parseChunks [] s p = (if s = [] then Some p else None)"
| "parseChunks (c # cs) s p =
     (case parseChunk c s p of None \<Rightarrow> None | Some (s', p') \<Rightarrow> parseChunks cs s' p')"

definition parsedTime :: "parsed \<Rightarrow> gotime" where
  "parsedTime p =
     \<lparr>tns = (daysFromCivil (pYear p) (pMonth p) (pDay p) * 86400 + pHour p * 3600 + pMin p * 60
             + pSec p - pOff p) * nsPerSec + pNsec p,
      toff = pOff p\<rparr>"

text \<open>\<open>time.ParseInLocation(layout, s, time.UTC)\<close>.\<close>

definition parseLayout :: "chunk list \<Rightarrow> string \<Rightarrow> gotime option" where
  "parseLayout layout s = (case parseChunks layout s parsed0 of
      None \<Rightarrow> None
    | Some p \<Rightarrow> if 1 \<le> pDay p \<and> pDay p \<le> daysIn (pMonth p) (pYear p) then Some (parsedTime p) else None)"

definition layoutCompact :: "chunk list" where
  "layoutCompact = [CLongYear, CZeroMonth, CZeroDay, CHour, CZeroMinute, CZeroSecond]"

definition layoutRFC3339 :: "chunk list" where
  "layoutRFC3339 = [CLongYear, CLit (CHR ''-''), CZeroMonth, CLit (CHR ''-''), CZeroDay, CLit (CHR ''T''),
     CHour, CLit (CHR '':''), CZeroMinute, CLit (CHR '':''), CZeroSecond, CColonTZ]"

definition layoutSpace :: "chunk list" where
  "layoutSpace = [CLongYear, CLit (CHR ''-''), CZeroMonth, CLit (CHR ''-''), CZeroDay, CLit (CHR '' ''),
     CHour, CLit (CHR '':''), CZeroMinute, CLit (CHR '':''), CZeroSecond]"

definition layoutHM :: "chunk list" where
  "layoutHM = [CHour, CLit (CHR '':''), CZeroMinute]"

section \<open>Formatting\<close>

text \<open>Zero-padded decimal of the given width.\<close>

fun padDigits :: "nat \<Rightarrow> nat \<Rightarrow> string" where
  "padDigits 0 n = []"
| "padDigits (Suc w) n = padDigits w (n div 10) @ [digitChar (n mod 10)]"

definition padNum :: "nat \<Rightarrow> int \<Rightarrow> string" where
  "padNum w i = padDigits w (nat i)"

definition formatOffset :: "int \<Rightarrow> string" where
  "formatOffset off =
     (if off = 0 then ''Z''
      else let m = \<bar>off\<bar> div 60
           in (if off < 0 then CHR ''-'' else CHR ''+'') # padNum 2 (m div 60) @ '':'' @ padNum 2 (m mod 60))"

text \<open>Trailing zeros of the nanoseconds are dropped (layout \<open>.999999999\<close>).\<close>

definition formatNanos :: "int \<Rightarrow> string" where
  "formatNanos ns = (if ns = 0 then [] else CHR ''.'' # trimRight (CHR ''0'') (padNum 9 ns))"

text \<open>Year, seconds and nanoseconds of the local clock a time prints.\<close>

definition localParts :: "gotime \<Rightarrow> (int \<times> int \<times> int) \<times> int \<times> int" where
  "localParts t = (let loc = tns t + toff t * nsPerSec; secs = loc div nsPerSec
                   in (civilFromDays (secs div 86400), secs mod 86400, loc mod nsPerSec))"

text \<open>
  \<open>Time.Format(time.RFC3339)\<close> (\<open>frac\<close> false) and the RFC3339Nano text of \<open>MarshalJSON\<close>
  (\<open>frac\<close> true), for years of four digits.
\<close>

definition formatRFC3339 :: "bool \<Rightarrow> gotime \<Rightarrow> string" where
  "formatRFC3339 frac t = (case localParts t of ((y, m, d), s, ns) \<Rightarrow>
     padNum 4 y @ ''-'' @ padNum 2 m @ ''-'' @ padNum 2 d @ ''T'' @
     padNum 2 (s div 3600) @ '':'' @ padNum 2 (s mod 3600 div 60) @ '':'' @ padNum 2 (s mod 60) @
     (if frac then formatNanos ns else []) @ formatOffset (toff t))"

text \<open>\<open>Time.MarshalJSON\<close> refuses years outside 0..9999 and offsets of a day or more.\<close>

definition marshalTime :: "gotime \<Rightarrow> string option" where
  "marshalTime t = (case localParts t of ((y, m, d), s, ns) \<Rightarrow>
     if 0 \<le> y \<and> y \<le> 9999 \<and> \<bar>toff t\<bar> < 86400 then Some (formatRFC3339 True t) else None)"

section \<open>Facts\<close>

lemma daysFromCivil_add: "daysFromCivil y m (d + k) = daysFromCivil y m d + k"
  by (simp add: daysFromCivil_def Let_def)

lemma yearDays_split:
  assumes "0 \<le> b" "b \<le> 3" "0 \<le> c" "c \<le> 24" "0 \<le> e" "e \<le> 3"
  shows "yearDays (400 * a + 100 * b + 4 * c + e) = 146097 * a + 36524 * b + 1461 * c + 365 * e"
proof -
  have "(400 * a + 100 * b + 4 * c + e) div 4 = 100 * a + 25 * b + c"
    by (rule int_div_pos_eq [where r = e]) (use assms in auto)
  moreover have "(400 * a + 100 * b + 4 * c + e) div 100 = 4 * a + b"
    by (rule int_div_pos_eq [where r = "4 * c + e"]) (use assms in auto)
  moreover have "(400 * a + 100 * b + 4 * c + e) div 400 = a"
    by (rule int_div_pos_eq [where r = "100 * b + 4 * c + e"]) (use assms in auto)
  ultimately show ?thesis by (simp add: yearDays_def)
qed

text \<open>The date of a day number denotes that day.\<close>

lemma daysFromCivil_civilFromDays: "civilFromDays z = (y, m, d) \<Longrightarrow> daysFromCivil y m d = z"
proof -
  assume civ: "civilFromDays z = (y, m, d)"
  define n where "n = z + 719468"
  define a r1 where "a = n div 146097" and "r1 = n mod 146097"
  define b r2 where "b = min 3 (r1 div 36524)" and "r2 = r1 - 36524 * b"
  define c r3 where "c = r2 div 1461" and "r3 = r2 mod 1461"
  define e doy where "e = min 3 (r3 div 365)" and "doy = r3 - 365 * e"
  define mp where "mp = (5 * doy + 2) div 153"
  define yy where "yy = 400 * a + 100 * b + 4 * c + e"
  have r1: "0 \<le> r1" "r1 < 146097" and n: "n = 146097 * a + r1" by (simp_all add: r1_def a_def)
  have b: "0 \<le> b" "b \<le> 3" and r2: "0 \<le> r2" "r2 \<le> 36524" using r1 by (auto simp: b_def r2_def min_def)
  have c: "0 \<le> c" "c \<le> 24" and r2s: "r2 = 1461 * c + r3" and r3: "0 \<le> r3" "r3 \<le> 1460"
    using r2 by (auto simp: c_def r3_def)
  have e: "0 \<le> e" "e \<le> 3" and doy: "0 \<le> doy" "doy \<le> 365" using r3 by (auto simp: e_def doy_def min_def)
  have mp: "0 \<le> mp" "mp \<le> 11" using doy by (auto simp: mp_def)
  from civ have ymd: "m = (if mp < 10 then mp + 3 else mp - 9)" "d = doy - (153 * mp + 2) div 5 + 1"
      "y = (if m \<le> 2 then yy + 1 else yy)"
    by (simp_all only: civilFromDays_def Let_def n_def [symmetric] a_def [symmetric] r1_def [symmetric]
        b_def [symmetric] r2_def [symmetric] c_def [symmetric] r3_def [symmetric] e_def [symmetric]
        doy_def [symmetric] mp_def [symmetric] yy_def [symmetric] prod.inject) auto
  have "(if m \<le> 2 then y - 1 else y) = yy" using ymd by simp
  moreover have "(m + 9) mod 12 = mp" using ymd(1) mp by (auto split: if_splits)
  ultimately have "daysFromCivil y m d = yearDays yy + doy - 719468"
    using ymd(2) by (simp add: daysFromCivil_def Let_def)
  also have "yearDays yy = 146097 * a + 36524 * b + 1461 * c + 365 * e"
    unfolding yy_def using b c e by (rule yearDays_split)
  finally show ?thesis using n r2s by (simp add: r2_def doy_def n_def)
qed

text \<open>A valid date is the date of its day number.\<close>

lemma year_of_days:
  assumes "yearDays y \<le> n" and "n < yearDays (y + 1)"
  obtains a b c e where "y = 400 * a + 100 * b + 4 * c + e"
    and "a = n div 146097" and "b = min 3 (n mod 146097 div 36524)"
    and "c = (n mod 146097 - 36524 * b) div 1461"
    and "e = min 3 ((n mod 146097 - 36524 * b) mod 1461 div 365)"
    and "n - yearDays y = (n mod 146097 - 36524 * b) mod 1461 - 365 * e"
proof -
  define a q where "a = y div 400" and "q = y mod 400"
  define b p where "b = q div 100" and "p = q mod 100"
  define c e where "c = p div 4" and "e = p mod 4"
  have "y = 400 * a + q" "q = 100 * b + p" "p = 4 * c + e" "0 \<le> q" "q < 400" "0 \<le> p" "p < 100"
      "0 \<le> e" "e < 4"
    by (simp_all add: a_def q_def b_def p_def c_def e_def)
  then have y: "y = 400 * a + 100 * b + 4 * c + e"
    and bce: "0 \<le> b" "b \<le> 3" "0 \<le> c" "c \<le> 24" "0 \<le> e" "e \<le> 3"
    by linarith+
  define doy where "doy = n - yearDays y"
  have yd: "yearDays y = 146097 * a + 36524 * b + 1461 * c + 365 * e"
    using yearDays_split [OF bce, of a] y by simp
  have yd': "yearDays (y + 1) = yearDays y + 365 + (if e < 3 then 0 else if c < 24 then 1 else if b < 3 then 0 else 1)"
  proof (cases "e < 3")
    case True
    with yearDays_split [of b c "e + 1" a] bce yd y show ?thesis by (simp add: algebra_simps)
  next
    case e: False
    show ?thesis
    proof (cases "c < 24")
      case True
      with e yearDays_split [of b "c + 1" 0 a] bce yd y show ?thesis by (simp add: algebra_simps)
    next
      case c: False
      show ?thesis
      proof (cases "b < 3")
        case True
        with e c yearDays_split [of "b + 1" 0 0 a] bce yd y show ?thesis by (simp add: algebra_simps)
      next
        case False
        with e c yearDays_split [of 0 0 0 "a + 1"] bce yd y show ?thesis by (simp add: algebra_simps)
      qed
    qed
  qed
  have len: "0 \<le> doy" "e < 3 \<Longrightarrow> doy < 365" "doy \<le> 365" "c = 24 \<Longrightarrow> b < 3 \<Longrightarrow> doy < 365"
    using assms yd' by (auto simp: doy_def split: if_splits)
  define r1 where "r1 = n mod 146097"
  have na: "n = 146097 * a + (36524 * b + 1461 * c + 365 * e + doy)" using yd by (simp add: doy_def)
  have lo: "0 \<le> 36524 * b + 1461 * c + 365 * e + doy" using bce len by simp
  have hi: "36524 * b + 1461 * c + 365 * e + doy < 146097" using bce len by auto
  have a: "a = n div 146097" and r1: "r1 = 36524 * b + 1461 * c + 365 * e + doy"
    using na lo hi by (simp_all add: r1_def)
  have b: "b = min 3 (r1 div 36524)"
  proof (cases "b < 3")
    case True
    have "r1 div 36524 = b"
      by (rule int_div_pos_eq [OF r1 [simplified add.assoc]]) (use bce len True in \<open>cases "c = 24"; simp\<close>)+
    with True show ?thesis by simp
  next
    case False
    then have "3 * 36524 \<le> r1" using bce len by (simp add: r1)
    then have "3 \<le> r1 div 36524" by linarith
    with False bce show ?thesis by simp
  qed
  have r2: "r1 - 36524 * b = 1461 * c + (365 * e + doy)" and "0 \<le> 365 * e + doy" and "365 * e + doy < 1461"
    using bce len by (auto simp: r1)
  then have c: "c = (r1 - 36524 * b) div 1461" and r3: "(r1 - 36524 * b) mod 1461 = 365 * e + doy"
    by simp_all
  have e: "e = min 3 ((365 * e + doy) div 365)"
  proof (cases "e < 3")
    case True
    have "(365 * e + doy) div 365 = e" by (rule int_div_pos_eq [OF refl]) (use len True in simp_all)
    with True show ?thesis by simp
  next
    case False
    with bce len have "3 \<le> (365 * e + doy) div 365" by linarith
    with False bce show ?thesis by simp
  qed
  from e have e': "e = min 3 ((r1 - 36524 * b) mod 1461 div 365)" by (simp only: r3)
  have doy': "n - yearDays y = (r1 - 36524 * b) mod 1461 - 365 * e"
    unfolding doy_def [symmetric] r3 by simp
  show thesis
    using that [OF y a b [unfolded r1_def] c [unfolded r1_def] e' [unfolded r1_def] doy' [unfolded r1_def]] .
qed

lemma div_succ: "0 < k \<Longrightarrow> (y + 1) div k = y div k + (if (y + 1) mod k = 0 then 1 else 0)" for y k :: int
proof -
  assume k: "0 < k"
  define q r where "q = y div k" and "r = y mod k"
  have y: "y = k * q + r" and r: "0 \<le> r" "r < k" using k by (simp_all add: q_def r_def)
  show ?thesis
  proof (cases "r + 1 = k")
    case True
    then have "y + 1 = k * (q + 1)" using y by (simp add: algebra_simps)
    with k show ?thesis by (simp add: q_def)
  next
    case False
    with r have "r + 1 < k" by simp
    then have "(y + 1) div k = q" and "(y + 1) mod k = r + 1"
      using y r int_div_pos_eq [of "y + 1" k q "r + 1"] int_mod_pos_eq [of "y + 1" k q "r + 1"] by simp_all
    with r show ?thesis by (simp add: q_def)
  qed
qed

lemma yearDays_succ: "yearDays (y + 1) = yearDays y + 365 + (if isLeap (y + 1) then 1 else 0)"
proof -
  have "400 dvd x \<Longrightarrow> 100 dvd x" and "100 dvd x \<Longrightarrow> 4 dvd x" for x :: int
    using dvd_trans [of 100 400 x] dvd_trans [of 4 100 x] by simp_all
  then have imp: "x mod 400 = 0 \<Longrightarrow> x mod 100 = 0" "x mod 100 = 0 \<Longrightarrow> x mod 4 = 0" for x :: int
    by (simp_all only: mod_eq_0_iff_dvd)
  define A B C where "A \<longleftrightarrow> (y + 1) mod 400 = 0" and "B \<longleftrightarrow> (y + 1) mod 100 = 0" and "C \<longleftrightarrow> (y + 1) mod 4 = 0"
  have "A \<Longrightarrow> B" and "B \<Longrightarrow> C" unfolding A_def B_def C_def by (rule imp, assumption)+
  moreover have "isLeap (y + 1) \<longleftrightarrow> C \<and> (\<not> B \<or> A)" by (simp only: isLeap_def A_def B_def C_def)
  moreover have "yearDays (y + 1) = yearDays y + 365 + (if C then 1 else 0) - (if B then 1 else 0) + (if A then 1 else 0)"
    unfolding yearDays_def A_def B_def C_def by (simp only: div_succ zero_less_numeral) (simp only: algebra_simps)
  ultimately show ?thesis by (cases A; cases B; cases C) simp_all
qed

lemma month_of_day:
  assumes "1 \<le> m" "m \<le> 12" "1 \<le> d" "d \<le> daysIn m y"
  defines "mp \<equiv> (m + 9) mod 12"
  defines "doy \<equiv> (153 * mp + 2) div 5 + (d - 1)"
  shows "(5 * doy + 2) div 153 = mp" and "0 \<le> doy" and "doy < 365 + (if m = 2 \<and> isLeap y then 1 else 0)"
    and "m = (if mp < 10 then mp + 3 else mp - 9)"
proof -
  have "m \<in> {1, 2, 3, 4, 5, 6, 7, 8, 9, 10, 11, 12}" using assms(1,2) by simp presburger
  then have "(5 * doy + 2) div 153 = mp \<and> 0 \<le> doy \<and> doy < 365 + (if m = 2 \<and> isLeap y then 1 else 0)
      \<and> m = (if mp < 10 then mp + 3 else mp - 9)"
    using assms(3,4) by (elim insertE emptyE) (auto simp: mp_def doy_def daysIn_def split: if_splits)
  then show "(5 * doy + 2) div 153 = mp" and "0 \<le> doy" and "doy < 365 + (if m = 2 \<and> isLeap y then 1 else 0)"
    and "m = (if mp < 10 then mp + 3 else mp - 9)" by blast+
qed

lemma civilFromDays_daysFromCivil:
  assumes "1 \<le> m" "m \<le> 12" "1 \<le> d" "d \<le> daysIn m y"
  shows "civilFromDays (daysFromCivil y m d) = (y, m, d)"
proof -
  define mp y' where "mp = (m + 9) mod 12" and "y' = (if m \<le> 2 then y - 1 else y)"
  define doy where "doy = (153 * mp + 2) div 5 + (d - 1)"
  note md = month_of_day [OF assms, folded mp_def, folded doy_def]
  define n where "n = yearDays y' + doy"
  have "doy < 365 + (if isLeap (y' + 1) then 1 else 0)" using md(3) by (auto simp: y'_def split: if_splits)
  then have hi: "n < yearDays (y' + 1)" by (simp add: n_def yearDays_succ)
  have lo: "yearDays y' \<le> n" using md(2) by (simp add: n_def)
  have dn: "daysFromCivil y m d + 719468 = n"
    by (simp add: daysFromCivil_def Let_def n_def y'_def doy_def mp_def)
  obtain a b c e where abce: "y' = 400 * a + 100 * b + 4 * c + e"
      "a = n div 146097" "b = min 3 (n mod 146097 div 36524)"
      "c = (n mod 146097 - 36524 * b) div 1461"
      "e = min 3 ((n mod 146097 - 36524 * b) mod 1461 div 365)"
      "n - yearDays y' = (n mod 146097 - 36524 * b) mod 1461 - 365 * e"
    using year_of_days [OF lo hi] .
  have doy: "(n mod 146097 - 36524 * b) mod 1461 - 365 * e = doy" using abce(6) by (simp add: n_def)
  have d: "doy - (153 * mp + 2) div 5 + 1 = d" by (simp add: doy_def)
  have yy: "(if m \<le> 2 then y' + 1 else y') = y" by (simp add: y'_def)
  show ?thesis
    unfolding civilFromDays_def Let_def dn
    by (simp only: abce(2-5) [symmetric] doy md(1) md(4) [symmetric] abce(1) [symmetric] d yy)
qed

lemma zoneLookup_mem: "fst (zoneLookup off start tr t) \<in> insert off (snd ` set tr)"
  by (induction off start tr t rule: zoneLookup.induct) auto

lemma wallToUnix_offset: "\<exists>u. wallToUnix loc unix = unix - offsetAt loc u \<and> (u = unix \<or> u = unix - offsetAt loc unix)"
proof (cases "locLookup loc unix")
  case (fields off st en)
  then have "offsetAt loc unix = off" by (simp add: offsetAt_def)
  with fields show ?thesis by (auto simp: wallToUnix_def Let_def)
qed

text \<open>
  Unless the offset tried first is contradicted by the zone the instant falls in, the
  instant found shows the wall-clock time asked for.
\<close>

lemma wallToUnix_shows:
  assumes "offsetAt loc (unix - offsetAt loc unix) = offsetAt loc unix"
  shows "localSecs loc (wallToUnix loc unix) = unix"
proof (cases "locLookup loc unix")
  case (fields off st en)
  then have o1: "offsetAt loc unix = off" by (simp add: offsetAt_def)
  with assms have o2: "offsetAt loc (unix - off) = off" by simp
  from fields o1 o2 have "wallToUnix loc unix = unix - off"
    by (auto simp: wallToUnix_def Let_def)
  then show ?thesis by (simp add: localSecs_def o2)
qed

lemma offsetAt_fixed [simp]: "locTrans loc = [] \<Longrightarrow> offsetAt loc t = locFirst loc"
  by (simp add: offsetAt_def locLookup_def)

lemma wallToUnix_fixed [simp]: "locTrans loc = [] \<Longrightarrow> wallToUnix loc unix = unix - locFirst loc"
  by (simp add: wallToUnix_def locLookup_def)

text \<open>
  With transitions in order the wall-clock time found is the one whose offset is that in force at
  the first guess; around an instant, transitions far apart look like at most one.
\<close>

lemma zoneLookup_start:
  "zoneLookup off (Some s) tr t = (o', a, b) \<Longrightarrow> \<exists>z. a = Some z \<and> (z = s \<or> z \<in> fst ` set tr)"
  by (induction off "Some s" tr t arbitrary: s rule: zoneLookup.induct) (auto split: if_splits)

lemma zoneLookup_inZone:
  assumes "zoneLookup off st tr u = (o1, a, b)" and "sorted (map fst tr)"
    and "case a of None \<Rightarrow> True | Some s \<Rightarrow> s \<le> v" and "case b of None \<Rightarrow> True | Some e \<Rightarrow> v < e"
  shows "fst (zoneLookup off st tr v) = o1"
  using assms
proof (induction off st tr u rule: zoneLookup.induct)
  case (2 off st s off' rest t)
  show ?case
  proof (cases "t < s")
    case True
    then have "b = Some s" "off = o1" using "2.prems"(1) by simp_all
    with "2.prems"(4) show ?thesis by simp
  next
    case False
    then have "zoneLookup off' (Some s) rest t = (o1, a, b)" using "2.prems"(1) by simp
    with zoneLookup_start obtain z where "a = Some z" "z = s \<or> z \<in> fst ` set rest" by blast
    with "2.prems"(2,3) have "s \<le> v" by auto
    with False "2.IH" "2.prems" show ?thesis by simp
  qed
qed simp

lemma wallToUnix_eq:
  assumes "sorted (map fst (locTrans loc))"
  shows "wallToUnix loc u = u - offsetAt loc (u - offsetAt loc u)"
proof (cases "locLookup loc u")
  case (fields off st en)
  then have o: "offsetAt loc u = off" by (simp add: offsetAt_def)
  have "fst (zoneLookup (locFirst loc) None (locTrans loc) (u - off)) = off"
    if "case st of None \<Rightarrow> True | Some s \<Rightarrow> s \<le> u - off" "case en of None \<Rightarrow> True | Some e \<Rightarrow> u - off < e"
    using zoneLookup_inZone fields assms that unfolding locLookup_def by blast
  then show ?thesis using fields o by (auto simp: wallToUnix_def Let_def offsetAt_def locLookup_def)
qed

lemma spaced_window:
  assumes "sorted_wrt (\<lambda>(s, a) (s', b). s + W < s') tr" and "hi - lo \<le> W"
  shows "\<exists>T a b. \<forall>x. lo \<le> x \<and> x \<le> hi \<longrightarrow> fst (zoneLookup off st tr x) = (if x < T then a else b)"
  using assms(1)
proof (induction tr arbitrary: off st)
  case (Cons p r)
  obtain s o' where p: "p = (s, o')" by force
  have "sorted_wrt (\<lambda>(s, a) (s', b). s + W < s') r" using Cons.prems by simp
  from Cons.IH [OF this] obtain T a b where
    IH: "\<forall>x. lo \<le> x \<and> x \<le> hi \<longrightarrow> fst (zoneLookup o' (Some s) r x) = (if x < T then a else b)" by blast
  show ?case
  proof (cases "s \<le> lo")
    case True
    with IH show ?thesis unfolding p by (intro exI [of _ T] exI [of _ a] exI [of _ b]) simp
  next
    case False
    have "fst (zoneLookup o' (Some s) r x) = o'" if "x \<le> hi" for x
    proof (cases r)
      case (Cons q r')
      then have "x < fst q" using \<open>sorted_wrt _ (p # r)\<close> that False assms(2) by (cases q) (simp add: p)
      then show ?thesis by (cases q) (simp add: Cons)
    qed simp
    then show ?thesis unfolding p by (intro exI [of _ s] exI [of _ off] exI [of _ o']) simp
  qed
qed auto

end
