(* ===== verification/Model.thy ===== *)
theory Model
  imports Json GoTime
begin

text \<open>
  The domain model of \<open>internal/bluelink/model.go\<close> and the unit helpers of
  \<open>parse_ccs2.go\<close> and \<open>status.go\<close> that fill it: vehicles, the normalised state with its
  optional fields (a nil pointer is \<open>None\<close>), tokens and their validity, distance units and
  conversion, temperatures, the 12V battery guard and the two timestamp parsers.
\<close>

section \<open>Vehicles and their state\<close>

record vehicle =
  vID :: string
  vVIN :: string
  vName :: string
  vModel :: string
  vRegDate :: string
  vType :: string
  vCCS2ProtocolSupport :: int

definition isCCS2 :: "vehicle \<Rightarrow> bool" where
  "isCCS2 v \<longleftrightarrow> vCCS2ProtocolSupport v \<noteq> 0"

record vehicle_state =
  evBatteryPercentage :: "f64 option"
  evBatterySoH :: "f64 option"
  evRange :: "f64 option"
  evRangeUnit :: string
  charging :: "bool option"
  pluggedIn :: "bool option"
  chargePortDoorOpen :: "bool option"
  chargeLimitAC :: "f64 option"
  chargeLimitDC :: "f64 option"
  chargingPowerKW :: "f64 option"
  estChargeDurationMin :: "int option"
  estFastChargeDurationMin :: "int option"
  battery12VPercentage :: "int option"
  odometer :: "f64 option"
  odometerUnit :: string
  outsideTemperatureC :: "f64 option"
  insideTemperatureC :: "f64 option"
  locked :: "bool option"
  tirePressureWarning :: "bool option"
  latitude :: "f64 option"
  longitude :: "f64 option"
  locationUpdatedAt :: "gotime option"
  lastUpdatedAt :: "gotime option"

text \<open>The zero value \<open>VehicleState{}\<close>: everything unknown.\<close>

definition emptyState :: vehicle_state where
  "emptyState = \<lparr>evBatteryPercentage = None, evBatterySoH = None, evRange = None, evRangeUnit = [],
     charging = None, pluggedIn = None, chargePortDoorOpen = None, chargeLimitAC = None,
     chargeLimitDC = None, chargingPowerKW = None, estChargeDurationMin = None,
     estFastChargeDurationMin = None, battery12VPercentage = None, odometer = None,
     odometerUnit = [], outsideTemperatureC = None, insideTemperatureC = None, locked = None,
     tirePressureWarning = None, latitude = None, longitude = None, locationUpdatedAt = None,
     lastUpdatedAt = None\<rparr>"

section \<open>Units\<close>

definition kmPerMile :: f64 where
  "kmPerMile = fl (1609344 / 1000000)"

definition convertDistance :: "f64 \<Rightarrow> string \<Rightarrow> string \<Rightarrow> f64" where
  "convertDistance value from to' =
     (if from = to' \<or> from = '''' \<or> to' = '''' then value
      else if from = ''km'' \<and> to' = ''mi'' then f64_div value kmPerMile
      else if from = ''mi'' \<and> to' = ''km'' then f64_mul value kmPerMile
      else value)"

definition convertDistanceField :: "f64 option \<Rightarrow> string \<Rightarrow> string \<Rightarrow> f64 option \<times> string" where
  "convertDistanceField value from to' =
     (case value of
        None \<Rightarrow> (value, from)
      | Some x \<Rightarrow>
          if from = '''' \<or> from = to' then (value, from)
          else (Some (f64_div (f64_round (f64_mul (convertDistance x from to') (Fin 10))) (Fin 10)), to'))"

definition inDistanceUnit :: "vehicle_state \<Rightarrow> string \<Rightarrow> vehicle_state" where
  "inDistanceUnit s unit' =
     (if unit' = '''' then s
      else (case convertDistanceField (odometer s) (odometerUnit s) unit' of (odo, odoU) \<Rightarrow>
            case convertDistanceField (evRange s) (evRangeUnit s) unit' of (rng, rngU) \<Rightarrow>
              s\<lparr>odometer := odo, odometerUnit := odoU, evRange := rng, evRangeUnit := rngU\<rparr>))"

definition distanceUnit :: "int option \<Rightarrow> string" where
  "distanceUnit idx = (case idx of
      None \<Rightarrow> ''''
    | Some i \<Rightarrow> if i = 1 then ''km'' else if i = 2 \<or> i = 3 then ''mi'' else '''')"

definition temperatureC :: "f64 option \<Rightarrow> int option \<Rightarrow> f64 option" where
  "temperatureC value unitIdx = (case value of
      None \<Rightarrow> None
    | Some c \<Rightarrow>
        if unitIdx = Some 1
        then Some (f64_div (f64_mul (f64_sub c (Fin 32)) (Fin 5)) (Fin 9))
        else Some c)"

definition normalizeBatterySoC :: "goarch \<Rightarrow> f64 option \<Rightarrow> int option \<Rightarrow> int option" where
  "normalizeBatterySoC a value reliability =
     (if reliability = Some 1 then None
      else (case value of
          None \<Rightarrow> None
        | Some v \<Rightarrow> if f64_lt v (Fin 0) \<or> f64_lt (Fin 100) v then None else Some (truncInt a v)))"

section \<open>Timestamps\<close>

text \<open>The loop over layouts: the first that parses wins.\<close>

fun firstLayout :: "chunk list list \<Rightarrow> string \<Rightarrow> gotime option" where
  "firstLayout [] s = None"
| "firstLayout (l # ls) s = (case parseLayout l s of Some t \<Rightarrow> Some t | None \<Rightarrow> firstLayout ls s)"

definition parseBluelinkTime :: "string \<Rightarrow> gotime option" where
  "parseBluelinkTime s = (if s = '''' then None else firstLayout [layoutCompact, layoutRFC3339] s)"

definition parseCCS2Date :: "string \<Rightarrow> gotime option" where
  "parseCCS2Date s =
     (if s = '''' then None
      else (case firstLayout [layoutRFC3339, layoutCompact, layoutSpace] s of
          None \<Rightarrow> None | Some t \<Rightarrow> Some (t\<lparr>toff := 0\<rparr>)))"

section \<open>Tokens\<close>

record tokens =
  accessToken :: string
  refreshToken :: string
  deviceID :: string
  validUntil :: int

text \<open>\<open>time.Time{}\<close>: the first of January of the year 1, in nanoseconds.\<close>

definition zeroTime :: int where
  "zeroTime = - 62135596800 * nsPerSec"

definition tokens0 :: tokens where
  "tokens0 = \<lparr>accessToken = [], refreshToken = [], deviceID = [], validUntil = zeroTime\<rparr>"

definition tokensValid :: "tokens \<Rightarrow> int \<Rightarrow> bool" where
  "tokensValid t now \<longleftrightarrow> accessToken t \<noteq> [] \<and> now < validUntil t - 2 * 60 * nsPerSec"

section \<open>Facts\<close>

text \<open>The units the parsers can produce.\<close>

definition knownUnit :: "string \<Rightarrow> bool" where
  "knownUnit u \<longleftrightarrow> u \<in> {'''', ''km'', ''mi''}"

lemma knownUnit_distanceUnit [simp]: "knownUnit (distanceUnit i)"
  by (auto simp: distanceUnit_def knownUnit_def split: option.splits)

lemma knownUnit_simps [simp]: "knownUnit []" "knownUnit ''km''" "knownUnit ''mi''"
  by (simp_all add: knownUnit_def)

lemma convertDistanceField_unchanged:
  "value = None \<or> from = '''' \<or> from = to' \<Longrightarrow> convertDistanceField value from to' = (value, from)"
  by (auto simp: convertDistanceField_def split: option.splits)

lemma convertDistanceField_unit:
  "snd (convertDistanceField value from to') =
     (if value = None \<or> from = '''' then from else to')"
  by (auto simp: convertDistanceField_def split: option.splits)

lemma convertDistanceField_idem:
  "convertDistanceField value from to' = (v, u) \<Longrightarrow> convertDistanceField v u to' = (v, u)"
  by (auto simp: convertDistanceField_def split: option.splits if_splits)

lemma convertDistanceField_None:
  "convertDistanceField value from to' = (v, u) \<Longrightarrow> (v = None) = (value = None)"
  by (cases "value") (auto simp: convertDistanceField_def split: if_splits)

lemma kmPerMile_eq: "kmPerMile = Fin (226495032459717 / 140737488355328)"
  by code_simp

lemma rnd_error: "\<bar>rnd x - x\<bar> \<le> \<bar>x\<bar> * pow2 (- 53) + pow2 (- 1075)"
proof (cases "x = 0")
  case True
  then show ?thesis by (simp add: rnd_def rne_def)
next
  case False
  have "pow2 (ulpExp x) / 2 \<le> \<bar>x\<bar> * pow2 (- 53) + pow2 (- 1075)"
  proof (cases "ilog2 x - 52 \<le> - 1074")
    case True
    then have "ulpExp x = - 1074" by (simp add: ulpExp_def)
    then have "pow2 (ulpExp x) / 2 = pow2 (- 1075)" by (simp add: pow2_half)
    then show ?thesis by simp
  next
    case ge: False
    then have "ulpExp x - 1 = ilog2 x + (- 53)" by (simp add: ulpExp_def)
    then have "pow2 (ulpExp x) / 2 = pow2 (ilog2 x) * pow2 (- 53)" by (simp only: pow2_half pow2_mult)
    also have "\<dots> \<le> \<bar>x\<bar> * pow2 (- 53)" using ilog2_bounds(1) [OF False] by (intro mult_right_mono) auto
    finally show ?thesis by (simp add: add_increasing2)
  qed
  then show ?thesis using rnd_error_ulp [of x] by linarith
qed

text \<open>The accuracy of one rounding, for the magnitudes distances have.\<close>

lemma fl_close:
  assumes "\<bar>x\<bar> \<le> 2 ^ 30"
  shows "\<exists>y. fl x = Fin y \<and> \<bar>y - x\<bar> \<le> 1 / 2 ^ 22"
proof -
  have small: "pow2 (- 53) = 1 / 2 ^ 53" "pow2 30 = 2 ^ 30" by (simp_all add: pow2_def)
  have "pow2 (- 1075) \<le> pow2 (- 53)" by (rule pow2_le) simp
  with small have tiny: "pow2 (- 1075) \<le> 1 / 2 ^ 53" by simp
  have "\<bar>x\<bar> < pow2 1023" using assms pow2_less [of 30 1023] small by simp
  then have "fl x = Fin (rnd x)" by (rule fl_finite)
  moreover have "\<bar>x\<bar> * pow2 (- 53) \<le> 2 ^ 30 * (1 / 2 ^ 53)"
    unfolding small using assms by (intro mult_right_mono) auto
  ultimately show ?thesis using rnd_error [of x] tiny by (intro exI [of _ "rnd x"]) simp
qed

text \<open>Rounding to one decimal: the last two steps of \<open>convertDistanceField\<close>.\<close>

lemma one_decimal_close:
  assumes "\<bar>x\<bar> \<le> 2 ^ 25"
  shows "\<exists>y. f64_div (f64_round (f64_mul (Fin x) (Fin 10))) (Fin 10) = Fin y \<and> \<bar>y - x\<bar> \<le> 1 / 20 + 1 / 2 ^ 21"
proof -
  have "\<bar>x * 10\<bar> \<le> 2 ^ 30" using assms by (simp add: abs_mult)
  then obtain p where p: "fl (x * 10) = Fin p" "\<bar>p - x * 10\<bar> \<le> 1 / 2 ^ 22" using fl_close by blast
  define i where "i = (of_int (roundAway p) :: rat)"
  have i: "\<bar>i - p\<bar> \<le> 1 / 2" using roundAway_error [of p] by (simp add: i_def)
  have "\<bar>i / 10\<bar> \<le> 2 ^ 30" using i p assms by (simp add: abs_if split: if_splits)
  then obtain y where y: "fl (i / 10) = Fin y" "\<bar>y - i / 10\<bar> \<le> 1 / 2 ^ 22" using fl_close by blast
  have "\<bar>y - x\<bar> \<le> 1 / 20 + 1 / 2 ^ 21"
    using i p(2) y(2) by (simp add: abs_if split: if_splits)
  with p(1) y(1) show ?thesis by (simp add: i_def)
qed

text \<open>The length of a unit, in kilometres, and the accuracy of a conversion either way.\<close>

definition unitLength :: "string \<Rightarrow> rat" where
  "unitLength u = (if u = ''mi'' then 1609344 / 1000000 else 1)"

lemma rounded_close:
  assumes "\<bar>q - w\<bar> \<le> 1 / 2 ^ 22" "\<bar>w - z\<bar> \<le> 1 / 2 ^ 22" "\<bar>w\<bar> \<le> 2 ^ 25 - 1"
  shows "\<exists>y. f64_div (f64_round (f64_mul (Fin q) (Fin 10))) (Fin 10) = Fin y \<and> \<bar>y - z\<bar> \<le> 1 / 20 + 1 / 10 ^ 6"
proof -
  have "\<bar>q\<bar> \<le> 2 ^ 25" using assms(1,3) by (simp add: abs_if split: if_splits)
  then obtain y where y: "f64_div (f64_round (f64_mul (Fin q) (Fin 10))) (Fin 10) = Fin y"
      "\<bar>y - q\<bar> \<le> 1 / 20 + 1 / 2 ^ 21" using one_decimal_close by blast
  have "\<bar>y - z\<bar> \<le> \<bar>y - q\<bar> + \<bar>q - w\<bar> + \<bar>w - z\<bar>" by linarith
  moreover have "(1 / 20 + 1 / 2 ^ 21) + 1 / 2 ^ 22 + 1 / 2 ^ 22 \<le> (1 / 20 + 1 / 10 ^ 6 :: rat)" by simp
  ultimately show ?thesis using assms(1,2) y by (intro exI [of _ y]) linarith
qed

lemma convertDistance_close:
  assumes "\<bar>v\<bar> \<le> 2 ^ 24" and "from \<in> {''km'', ''mi''}" and "to' \<in> {''km'', ''mi''}" and "from \<noteq> to'"
  shows "\<exists>q w. convertDistance (Fin v) from to' = Fin q \<and> \<bar>q - w\<bar> \<le> 1 / 2 ^ 22
    \<and> \<bar>w - v * unitLength from / unitLength to'\<bar> \<le> 1 / 2 ^ 22 \<and> \<bar>w\<bar> \<le> 2 ^ 25 - 1"
proof -
  define k :: rat where "k = 226495032459717 / 140737488355328"
  have kpm: "kmPerMile = Fin k" by (simp add: kmPerMile_eq k_def)
  consider "from = ''km''" "to' = ''mi''" | "from = ''mi''" "to' = ''km''" using assms(2-4) by auto
  then show ?thesis
  proof cases
    case 1
    have "\<bar>v / k\<bar> \<le> \<bar>v\<bar>" by (simp add: k_def abs_mult)
    with assms(1) have w: "\<bar>v / k\<bar> \<le> 2 ^ 24" by linarith
    then have "\<bar>v / k\<bar> \<le> 2 ^ 30" by simp
    then obtain q where q: "fl (v / k) = Fin q" "\<bar>q - v / k\<bar> \<le> 1 / 2 ^ 22" using fl_close by blast
    have "\<bar>v / k - v / (1609344 / 1000000)\<bar> \<le> 1 / 2 ^ 22"
      using assms(1) by (simp add: k_def abs_if split: if_splits)
    with w q 1 show ?thesis
      by (intro exI [of _ q] exI [of _ "v / k"]) (simp add: convertDistance_def kpm unitLength_def, simp add: k_def)
  next
    case 2
    have w: "\<bar>v * k\<bar> \<le> 2 ^ 25 - 1" using assms(1) by (simp add: k_def abs_mult)
    then have "\<bar>v * k\<bar> \<le> 2 ^ 30" by simp
    then obtain q where q: "fl (v * k) = Fin q" "\<bar>q - v * k\<bar> \<le> 1 / 2 ^ 22" using fl_close by blast
    have "\<bar>v * k - v * (1609344 / 1000000)\<bar> \<le> 1 / 2 ^ 22"
      using assms(1) by (simp add: k_def abs_if split: if_splits)
    with w q 2 show ?thesis
      by (intro exI [of _ q] exI [of _ "v * k"]) (simp add: convertDistance_def kpm unitLength_def)
  qed
qed

lemma convertDistanceField_close:
  assumes "\<bar>v\<bar> \<le> 2 ^ 24" and "from \<in> {''km'', ''mi''}" and "to' \<in> {''km'', ''mi''}"
  shows "\<exists>y. convertDistanceField (Some (Fin v)) from to' = (Some (Fin y), to')
    \<and> \<bar>y - v * unitLength from / unitLength to'\<bar> \<le> 1 / 20 + 1 / 10 ^ 6"
proof (cases "from = to'")
  case True
  then show ?thesis by (simp add: convertDistanceField_def unitLength_def)
next
  case False
  obtain q w where q: "convertDistance (Fin v) from to' = Fin q" and close: "\<bar>q - w\<bar> \<le> 1 / 2 ^ 22"
      "\<bar>w - v * unitLength from / unitLength to'\<bar> \<le> 1 / 2 ^ 22" "\<bar>w\<bar> \<le> 2 ^ 25 - 1"
    using convertDistance_close [OF assms False] by blast
  from rounded_close [OF close] obtain y where
    "f64_div (f64_round (f64_mul (Fin q) (Fin 10))) (Fin 10) = Fin y"
    "\<bar>y - v * unitLength from / unitLength to'\<bar> \<le> 1 / 20 + 1 / 10 ^ 6" by blast
  moreover have "from \<noteq> ''''" using assms(2) by auto
  ultimately show ?thesis using False q
    by (simp add: convertDistanceField_def del: f64_mul.simps f64_div.simps f64_round.simps)
qed

section \<open>Properties\<close>

text \<open>C35: \<open>VehicleState.InDistanceUnit\<close> converts kilometres to miles to one decimal: for a
  reading of at most 33 million the published value is finite and within 0.05 (plus the
  rounding of \<open>float64\<close>) of the exact quotient by 1.609344, and the unit becomes mi.\<close>

theorem convertDistanceField_km_mi_accurate:
  assumes "\<bar>v\<bar> \<le> 2 ^ 25"
  shows "\<exists>y. convertDistanceField (Some (Fin v)) ''km'' ''mi'' = (Some (Fin y), ''mi'') \<and>
    \<bar>y - v / (1609344 / 1000000)\<bar> \<le> 1 / 20 + 1 / 10 ^ 6"
proof -
  define k :: rat where "k = 226495032459717 / 140737488355328"
  have kpm: "kmPerMile = Fin k" by (simp add: kmPerMile_eq k_def)
  have "\<bar>v / k\<bar> \<le> \<bar>v\<bar>" by (simp add: k_def abs_mult)
  with assms have "\<bar>v / k\<bar> \<le> 2 ^ 25" by linarith
  then have "\<bar>v / k\<bar> \<le> 2 ^ 30" by simp
  then obtain q where q: "fl (v / k) = Fin q" "\<bar>q - v / k\<bar> \<le> 1 / 2 ^ 22" using fl_close by blast
  have "\<bar>v / k\<bar> \<le> 2 ^ 25 / k" using assms by (simp add: k_def abs_mult)
  then have "\<bar>q\<bar> \<le> 2 ^ 25" using q(2) by (simp add: k_def abs_if split: if_splits)
  then obtain y where y: "f64_div (f64_round (f64_mul (Fin q) (Fin 10))) (Fin 10) = Fin y"
      "\<bar>y - q\<bar> \<le> 1 / 20 + 1 / 2 ^ 21" using one_decimal_close by blast
  have conv: "convertDistance (Fin v) ''km'' ''mi'' = Fin q"
    using q(1) by (simp add: convertDistance_def kpm k_def)
  define w z where "w = v / k" and "z = v / (1609344 / 1000000)"
  have "\<bar>w - z\<bar> \<le> 1 / 2 ^ 22"
    using assms by (simp add: w_def z_def k_def abs_if split: if_splits)
  moreover have "\<bar>y - z\<bar> \<le> \<bar>y - q\<bar> + \<bar>q - w\<bar> + \<bar>w - z\<bar>" by linarith
  moreover have "(1 / 20 + 1 / 2 ^ 21) + 1 / 2 ^ 22 + 1 / 2 ^ 22 \<le> (1 / 20 + 1 / 10 ^ 6 :: rat)" by simp
  ultimately have "\<bar>y - z\<bar> \<le> 1 / 20 + 1 / 10 ^ 6"
    using q(2) y(2) unfolding w_def [symmetric] by linarith
  then have "\<bar>y - v / (1609344 / 1000000)\<bar> \<le> 1 / 20 + 1 / 10 ^ 6" by (simp only: z_def)
  moreover have "convertDistanceField (Some (Fin v)) ''km'' ''mi'' = (Some (Fin y), ''mi'')"
    by (simp add: convertDistanceField_def conv y(1) del: f64_mul.simps f64_div.simps f64_round.simps)
  ultimately show ?thesis by blast
qed

theorem convertDistanceField_km_mi_accurate_witness:
  "\<bar>14213 :: rat\<bar> \<le> 2 ^ 25 \<and>
   (\<exists>y. convertDistanceField (Some (Fin 14213)) ''km'' ''mi'' = (Some (Fin y), ''mi'') \<and>
     \<bar>y - 14213 / (1609344 / 1000000)\<bar> \<le> 1 / 20 + 1 / 10 ^ 6)"
  using convertDistanceField_km_mi_accurate [of 14213] by simp

text \<open>Converting to the display unit is idempotent and never relabels what it did not
  convert: a second conversion changes nothing, an absent value stays absent, and a value whose
  source unit is unknown keeps both its value and its empty unit.\<close>

theorem inDistanceUnit_safe:
  "inDistanceUnit (inDistanceUnit s u) u = inDistanceUnit s u
   \<and> (odometer (inDistanceUnit s u) = None) = (odometer s = None)
   \<and> (evRange (inDistanceUnit s u) = None) = (evRange s = None)
   \<and> (odometerUnit s = '''' \<longrightarrow> odometer (inDistanceUnit s u) = odometer s \<and> odometerUnit (inDistanceUnit s u) = '''')
   \<and> (evRangeUnit s = '''' \<longrightarrow> evRange (inDistanceUnit s u) = evRange s \<and> evRangeUnit (inDistanceUnit s u) = '''')"
proof -
  obtain o1 ou where o1: "convertDistanceField (odometer s) (odometerUnit s) u = (o1, ou)"
    by (cases "convertDistanceField (odometer s) (odometerUnit s) u")
  obtain r1 ru where r1: "convertDistanceField (evRange s) (evRangeUnit s) u = (r1, ru)"
    by (cases "convertDistanceField (evRange s) (evRangeUnit s) u")
  note idem = convertDistanceField_idem [OF o1] convertDistanceField_idem [OF r1]
  have none: "(o1 = None) = (odometer s = None)" "(r1 = None) = (evRange s = None)"
    using convertDistanceField_None [OF o1] convertDistanceField_None [OF r1] by blast+
  have unk: "odometerUnit s = '''' \<Longrightarrow> o1 = odometer s \<and> ou = ''''" "evRangeUnit s = '''' \<Longrightarrow> r1 = evRange s \<and> ru = ''''"
    using o1 r1 by (simp_all add: convertDistanceField_unchanged)
  show ?thesis
  proof (cases "u = []")
    case True
    then show ?thesis by (simp add: inDistanceUnit_def)
  next
    case False
    define s' where "s' = s\<lparr>odometer := o1, odometerUnit := ou, evRange := r1, evRangeUnit := ru\<rparr>"
    have "inDistanceUnit s u = s'" using False by (simp add: inDistanceUnit_def o1 r1 s'_def)
    moreover have "inDistanceUnit s' u = s'" using False idem by (simp add: inDistanceUnit_def s'_def)
    ultimately show ?thesis using none unk by (auto simp: s'_def)
  qed
qed

theorem inDistanceUnit_safe_witness:
  "odometerUnit emptyState = '''' \<and>
   odometer (inDistanceUnit (emptyState\<lparr>odometer := Some (Fin 5)\<rparr>) ''mi'') = Some (Fin 5)"
  using inDistanceUnit_safe [of "emptyState\<lparr>odometer := Some (Fin 5)\<rparr>" "''mi''"] by (simp add: emptyState_def)

text \<open>The 12V state of charge is reported only when it is reliable and within 0..100: an
  unreliable, absent or out-of-range reading (such as the 255 sentinel) is unknown, any other
  finite reading is truncated to an integer of 0..100, on both processors alike.\<close>

theorem normalizeBatterySoC_spec:
  "normalizeBatterySoC a value reliability =
     (case value of
        Some (Fin x) \<Rightarrow> if reliability \<noteq> Some 1 \<and> 0 \<le> x \<and> x \<le> 100 then Some \<lfloor>x\<rfloor> else None
      | Some NaN \<Rightarrow> if reliability \<noteq> Some 1 then Some (truncInt a NaN) else None
      | _ \<Rightarrow> None)
   \<and> (case (value, normalizeBatterySoC a value reliability) of
        (Some (Fin x), Some i) \<Rightarrow> 0 \<le> i \<and> i \<le> 100 | _ \<Rightarrow> True)"
proof -
  have t: "truncInt a (Fin x) = \<lfloor>x\<rfloor> \<and> 0 \<le> \<lfloor>x\<rfloor> \<and> \<lfloor>x\<rfloor> \<le> 100" if "0 \<le> x" "x \<le> 100" for x :: rat
  proof -
    have "0 \<le> \<lfloor>x\<rfloor>" "\<lfloor>x\<rfloor> \<le> 100" using that by (simp_all add: floor_le_iff)
    with that show ?thesis by (simp add: truncRat_def minInt64_def maxInt64_def Let_def)
  qed
  then show ?thesis
    by (auto simp: normalizeBatterySoC_def not_less simp del: truncInt.simps split: option.splits f64.splits)
qed

end
