(* ===== verification/ParseCCS2.thy ===== *)
theory ParseCCS2
  imports Model
begin

text \<open>
  \<open>internal/bluelink/parse_ccs2.go\<close>: the mapping of a CCS2 status document (the object at
  \<open>resMsg.state.Vehicle\<close>) into the normalised state. The lookups, the unit helpers and the
  date parser it calls are in \<open>Json\<close> and \<open>Model\<close>.
\<close>

section \<open>The parser\<close>

definition doorPaths :: "string list" where
  "doorPaths =
     [''Cabin.Door.Row1.Driver.Lock'', ''Cabin.Door.Row1.Passenger.Lock'',
      ''Cabin.Door.Row2.Left.Lock'', ''Cabin.Door.Row2.Right.Lock'']"

text \<open>The loop of \<open>allDoorsLocked\<close>: an absent door ends it with nil.\<close>

fun doorsLoop :: "goarch \<Rightarrow> gomap \<Rightarrow> string list \<Rightarrow> bool \<Rightarrow> bool option" where
  "doorsLoop a state [] isLocked = Some isLocked"
| "doorsLoop a state (p # ps) isLocked =
     (case getInt a state p of
        None \<Rightarrow> None
      | Some v \<Rightarrow> doorsLoop a state ps (if v \<noteq> 0 then False else isLocked))"

definition allDoorsLocked :: "goarch \<Rightarrow> gomap \<Rightarrow> bool option" where
  "allDoorsLocked a state = doorsLoop a state doorPaths True"

text \<open>The loop shared by \<open>tireWarning\<close> and \<open>ccs1TireWarning\<close>, over \<open>(warn, seen)\<close>.\<close>

fun lampLoop :: "goarch \<Rightarrow> gomap \<Rightarrow> string list \<Rightarrow> bool \<Rightarrow> bool \<Rightarrow> bool option" where
  "lampLoop a state [] warn seen = (if \<not> seen then None else Some warn)"
| "lampLoop a state (p # ps) warn seen =
     (case getInt a state p of
        None \<Rightarrow> lampLoop a state ps warn seen
      | Some v \<Rightarrow> lampLoop a state ps (if v \<noteq> 0 then True else warn) True)"

definition tirePaths :: "string list" where
  "tirePaths =
     [''Chassis.Axle.Tire.PressureLow'', ''Chassis.Axle.Row1.Left.Tire.PressureLow'',
      ''Chassis.Axle.Row1.Right.Tire.PressureLow'', ''Chassis.Axle.Row2.Left.Tire.PressureLow'',
      ''Chassis.Axle.Row2.Right.Tire.PressureLow'']"

definition tireWarning :: "goarch \<Rightarrow> gomap \<Rightarrow> bool option" where
  "tireWarning a state = lampLoop a state tirePaths False False"

definition chargeDoor :: "int option \<Rightarrow> bool option" where
  "chargeDoor v = (case v of
      None \<Rightarrow> None
    | Some i \<Rightarrow> if i = 1 then Some True else if i = 0 \<or> i = 2 then Some False else None)"

definition insideTemp :: "goarch \<Rightarrow> gomap \<Rightarrow> f64 option" where
  "insideTemp a state =
     (let raw = getPath state ''Cabin.HVAC.Row1.Driver.Temperature.Value'' in
      if raw = JNull then None
      else (case asFloat raw of
          None \<Rightarrow> None
        | Some f \<Rightarrow> temperatureC (Some f) (getInt a state ''Cabin.HVAC.Row1.Driver.Temperature.Unit'')))"

definition parseCCS2 :: "goarch \<Rightarrow> gomap \<Rightarrow> vehicle_state" where
  "parseCCS2 a state =
     (let remain = getInt a state ''Green.ChargingInformation.Charging.RemainTime'';
          odo = getFloat state ''Drivetrain.Odometer''
      in \<lparr>evBatteryPercentage = getFloat state ''Green.BatteryManagement.BatteryRemain.Ratio'',
          evBatterySoH = getFloat state ''Green.BatteryManagement.SoH.Ratio'',
          evRange = getFloat state ''Drivetrain.FuelSystem.DTE.Total'',
          evRangeUnit = distanceUnit (getInt a state ''Drivetrain.FuelSystem.DTE.Unit''),
          charging = (case remain of None \<Rightarrow> None | Some r \<Rightarrow> Some (0 < r)),
          pluggedIn = (case getInt a state ''Green.ChargingInformation.ConnectorFastening.State'' of
                         None \<Rightarrow> None | Some v \<Rightarrow> Some (v \<noteq> 0)),
          chargePortDoorOpen = chargeDoor (getInt a state ''Green.ChargingDoor.State''),
          chargeLimitAC = getFloat state ''Green.ChargingInformation.TargetSoC.Standard'',
          chargeLimitDC = getFloat state ''Green.ChargingInformation.TargetSoC.Quick'',
          chargingPowerKW = getFloat state ''Green.Electric.SmartGrid.RealTimePower'',
          estChargeDurationMin = remain,
          estFastChargeDurationMin = getInt a state ''Green.ChargingInformation.EstimatedTime.Quick'',
          battery12VPercentage = normalizeBatterySoC a (getFloat state ''Electronics.Battery.Level'')
                                   (getInt a state ''Electronics.Battery.SensorReliability''),
          odometer = odo,
          odometerUnit = (if odo \<noteq> None then ''km'' else ''''),
          outsideTemperatureC = temperatureC (getFloat state ''Cabin.HVAC.OutsideTemperature.Value'')
                                  (getInt a state ''Cabin.HVAC.OutsideTemperature.Unit''),
          insideTemperatureC = insideTemp a state,
          locked = allDoorsLocked a state,
          tirePressureWarning = tireWarning a state,
          latitude = None, longitude = None, locationUpdatedAt = None,
          lastUpdatedAt = parseCCS2Date (getString state ''Date'')\<rparr>)"

section \<open>Facts\<close>

lemma doorsLoop_eq:
  "doorsLoop a state ps l =
     (if list_all (\<lambda>p. getInt a state p \<noteq> None) ps
      then Some (l \<and> list_all (\<lambda>p. getInt a state p = Some 0) ps) else None)"
  by (induction a state ps l rule: doorsLoop.induct) (auto split: option.splits)

lemma lampLoop_eq:
  "lampLoop a state ps warn seen =
     (if seen \<or> list_ex (\<lambda>p. getInt a state p \<noteq> None) ps
      then Some (warn \<or> list_ex (\<lambda>p. getInt a state p \<notin> {None, Some 0}) ps) else None)"
  by (induction a state ps warn seen rule: lampLoop.induct) (auto split: option.splits)

text \<open>
  What every parsed state satisfies: known units, integers of \<open>int64\<close>, 12V charge within
  0..100, no unit without a range or an odometer that carries one on CCS2.
\<close>

definition int64Opt :: "int option \<Rightarrow> bool" where
  "int64Opt v \<longleftrightarrow> (case v of None \<Rightarrow> True | Some i \<Rightarrow> minInt64 \<le> i \<and> i \<le> maxInt64)"

definition wfState :: "vehicle_state \<Rightarrow> bool" where
  "wfState s \<longleftrightarrow> knownUnit (evRangeUnit s) \<and> knownUnit (odometerUnit s)
     \<and> int64Opt (estChargeDurationMin s) \<and> int64Opt (estFastChargeDurationMin s)
     \<and> (case battery12VPercentage s of None \<Rightarrow> True | Some i \<Rightarrow> 0 \<le> i \<and> i \<le> 100)"

lemma int64Opt_getInt [simp]: "int64Opt (getInt a m p)"
  using getInt_range by (auto simp: int64Opt_def split: option.splits)

lemma int64Opt_None [simp]: "int64Opt None"
  by (simp add: int64Opt_def)

lemma soc_range:
  "f64_finite v \<Longrightarrow> (case normalizeBatterySoC a (Some v) r of None \<Rightarrow> True | Some i \<Rightarrow> 0 \<le> i \<and> i \<le> 100)"
  by (cases v)
     (auto simp: normalizeBatterySoC_def f64_finite_def truncRat_def minInt64_def maxInt64_def not_less
       Let_def floor_le_iff)

lemma soc_range_getFloat:
  "numsFinite (JObj m) \<Longrightarrow>
    (case normalizeBatterySoC a (getFloat m p) r of None \<Rightarrow> True | Some i \<Rightarrow> 0 \<le> i \<and> i \<le> 100)"
  using getFloat_finite [of m p] soc_range
  by (cases "getFloat m p") (auto simp: normalizeBatterySoC_def)

section \<open>Properties\<close>

text \<open>The car counts as locked exactly when all four door flags are readable and zero (a
  non-zero flag means that door is unlocked); if any door is absent the state is unknown.\<close>

theorem allDoorsLocked_spec:
  "allDoorsLocked a state =
     (if list_all (\<lambda>p. getFloat state p \<noteq> None) doorPaths
      then Some (list_all (\<lambda>p. getInt a state p = Some 0) doorPaths) else None)"
  by (simp add: allDoorsLocked_def doorsLoop_eq list_all_iff getInt_None_iff)

text \<open>The tyre warning is unknown exactly when no lamp is readable, and otherwise it is on
  exactly when some readable lamp is non-zero; lamps that are absent do not hide the others.\<close>

theorem tireWarning_spec:
  "tireWarning a state =
     (if list_ex (\<lambda>p. getFloat state p \<noteq> None) tirePaths
      then Some (list_ex (\<lambda>p. getInt a state p \<notin> {None, Some 0}) tirePaths) else None)"
  by (simp add: tireWarning_def lampLoop_eq list_ex_iff getInt_None_iff)

text \<open>The charging flag of a CCS2 state is derived from the remaining charge time and agrees
  with the published estimate: both are unknown together, and charging is on exactly when the
  estimate is positive; a connector flag, where present, decides plugged-in.\<close>

theorem parseCCS2_charging:
  "charging (parseCCS2 a m) = map_option (\<lambda>r. 0 < r) (estChargeDurationMin (parseCCS2 a m))
   \<and> (estChargeDurationMin (parseCCS2 a m) = None) =
       (getFloat m ''Green.ChargingInformation.Charging.RemainTime'' = None)
   \<and> pluggedIn (parseCCS2 a m) =
       map_option (\<lambda>v. v \<noteq> 0) (getInt a m ''Green.ChargingInformation.ConnectorFastening.State'')"
  by (simp add: parseCCS2_def Let_def getInt_None_iff split: option.splits)

text \<open>Parsing never fails: a document in which nothing can be found gives the state in which
  everything is unknown, never a zero that looks like a reading.\<close>

theorem parseCCS2_empty: "parseCCS2 a [] = emptyState"
  by (simp add: parseCCS2_def emptyState_def insideTemp_def allDoorsLocked_def doorsLoop_eq
      doorPaths_def tireWarning_def lampLoop_eq tirePaths_def distanceUnit_def chargeDoor_def
      temperatureC_def normalizeBatterySoC_def parseCCS2Date_def)

text \<open>C31: Every state parsed from a decoded CCS2 document is well formed: its units are empty,
  km or mi, its durations are \<open>int64\<close> values, its 12V charge is a percentage.\<close>

theorem parseCCS2_wf:
  assumes "numsFinite (JObj m)"
  shows "wfState (parseCCS2 a m)"
  using soc_range_getFloat [OF assms] by (simp add: wfState_def parseCCS2_def Let_def)

theorem parseCCS2_wf_witness: "wfState (parseCCS2 AMD64 [(''Date'', JStr ''x'')])"
  by (rule parseCCS2_wf) simp

end
