(* ===== verification/ParseCCS1.thy ===== *)
theory ParseCCS1
  imports ParseCCS2
begin

text \<open>
  \<open>internal/bluelink/parse_ccs1.go\<close>: the mapping of a CCS1 status document (the object at
  \<open>resMsg.vehicleStatusInfo\<close>) into the normalised state. A document without
  \<open>vehicleStatus\<close> is an error; what CCS1 does not expose stays unknown.
\<close>

section \<open>The parser\<close>

definition ccs1LampPaths :: "string list" where
  "ccs1LampPaths =
     [''vehicleStatus.tirePressureLamp.tirePressureLampAll'',
      ''vehicleStatus.tirePressureLamp.tirePressureLampFL'',
      ''vehicleStatus.tirePressureLamp.tirePressureLampFR'',
      ''vehicleStatus.tirePressureLamp.tirePressureLampRL'',
      ''vehicleStatus.tirePressureLamp.tirePressureLampRR'']"

definition ccs1TireWarning :: "goarch \<Rightarrow> gomap \<Rightarrow> bool option" where
  "ccs1TireWarning a state = lampLoop a state ccs1LampPaths False False"

text \<open>The range and its unit, from the first entry of \<open>drvDistance\<close>.\<close>

definition ccs1Range :: "goarch \<Rightarrow> gomap \<Rightarrow> f64 option \<times> string" where
  "ccs1Range a state =
     (case getPath state ''vehicleStatus.evStatus.drvDistance'' of
        JArr (JObj first # _) \<Rightarrow>
          (getFloat first ''rangeByFuel.totalAvailableRange.value'',
           distanceUnit (getInt a first ''rangeByFuel.totalAvailableRange.unit''))
      | _ \<Rightarrow> (None, ''''))"

text \<open>The loop over the target charges, over \<open>(ChargeLimitAC, ChargeLimitDC)\<close>.\<close>

fun limitsLoop :: "goarch \<Rightarrow> json list \<Rightarrow> f64 option \<times> f64 option \<Rightarrow> f64 option \<times> f64 option" where
  "limitsLoop a [] acc = acc"
| "limitsLoop a (JObj m # es) (ac, dc) =
     (case (getFloat m ''targetSOClevel'', getInt a m ''plugType'') of
        (Some level, Some plug) \<Rightarrow>
          limitsLoop a es (if plug = 0 then (ac, Some level)
                           else if plug = 1 then (Some level, dc) else (ac, dc))
      | _ \<Rightarrow> limitsLoop a es (ac, dc))"
| "limitsLoop a (_ # es) acc = limitsLoop a es acc"

definition ccs1Limits :: "goarch \<Rightarrow> gomap \<Rightarrow> f64 option \<times> f64 option" where
  "ccs1Limits a state =
     (case getPath state ''vehicleStatus.evStatus.reservChargeInfos.targetSOClist'' of
        JArr arr \<Rightarrow> limitsLoop a arr (None, None) | _ \<Rightarrow> (None, None))"

text \<open>The embedded location: latitude, longitude and the time of the fix.\<close>

definition ccs1Location :: "gomap \<Rightarrow> f64 option \<times> f64 option \<times> gotime option" where
  "ccs1Location state =
     (case (getFloat state ''vehicleLocation.coord.lat'', getFloat state ''vehicleLocation.coord.lon'') of
        (Some lat, Some lon) \<Rightarrow>
          if f64_ne lat (Fin 0) \<or> f64_ne lon (Fin 0)
          then (Some lat, Some lon, parseBluelinkTime (getString state ''vehicleLocation.time''))
          else (None, None, None)
      | _ \<Rightarrow> (None, None, None))"

definition parseCCS1 :: "goarch \<Rightarrow> gomap \<Rightarrow> gerr + vehicle_state" where
  "parseCCS1 a state =
     (if getPath state ''vehicleStatus'' = JNull
      then Inl (Err ''bluelink: CCS1 status missing vehicleStatus'')
      else
        (case ccs1Range a state of (rng, rngU) \<Rightarrow>
         case ccs1Limits a state of (ac, dc) \<Rightarrow>
         case ccs1Location state of (lat, lon, locT) \<Rightarrow>
           Inr (emptyState
             \<lparr>evBatteryPercentage := getFloat state ''vehicleStatus.evStatus.batteryStatus'',
              evRange := rng, evRangeUnit := rngU,
              charging := getBool state ''vehicleStatus.evStatus.batteryCharge'',
              pluggedIn := (case getInt a state ''vehicleStatus.evStatus.batteryPlugin'' of
                              None \<Rightarrow> None | Some v \<Rightarrow> Some (v \<noteq> 0)),
              chargeLimitDC := dc, chargeLimitAC := ac,
              estChargeDurationMin := getInt a state ''vehicleStatus.evStatus.remainTime2.atc.value'',
              estFastChargeDurationMin := getInt a state ''vehicleStatus.evStatus.remainTime2.etc3.value'',
              battery12VPercentage :=
                normalizeBatterySoC a (getFloat state ''vehicleStatus.battery.batSoc'') None,
              odometer := getFloat state ''odometer.value'',
              odometerUnit := distanceUnit (getInt a state ''odometer.unit''),
              locked := getBool state ''vehicleStatus.doorLock'',
              tirePressureWarning := ccs1TireWarning a state,
              latitude := lat, longitude := lon, locationUpdatedAt := locT,
              lastUpdatedAt := parseBluelinkTime (getString state ''vehicleStatus.time'')\<rparr>)))"

section \<open>Facts\<close>

text \<open>The last valid entry of each plug type decides its limit.\<close>

definition limitEntry :: "goarch \<Rightarrow> int \<Rightarrow> json \<Rightarrow> f64 option" where
  "limitEntry a plug e = (case e of
      JObj m \<Rightarrow> if getInt a m ''plugType'' = Some plug then getFloat m ''targetSOClevel'' else None
    | _ \<Rightarrow> None)"

fun lastSome :: "'a option list \<Rightarrow> 'a option \<Rightarrow> 'a option" where
  "lastSome [] d = d"
| "lastSome (x # xs) d = lastSome xs (case x of None \<Rightarrow> d | Some y \<Rightarrow> Some y)"

lemma limitsLoop_eq:
  "limitsLoop a es (ac, dc) =
     (lastSome (map (limitEntry a 1) es) ac, lastSome (map (limitEntry a 0) es) dc)"
proof (induction es arbitrary: ac dc)
  case (Cons e es)
  then show ?case by (cases e) (auto simp: limitEntry_def split: option.splits)
qed simp

lemma f64_ne_zero: "f64_ne (Fin x) (Fin 0) \<longleftrightarrow> x \<noteq> 0"
  by simp

lemma ccs1Range_unit [simp]: "ccs1Range a state = (rng, u) \<Longrightarrow> knownUnit u"
  by (auto simp: ccs1Range_def split: json.splits list.splits)

lemma parseCCS1_InrE:
  assumes "parseCCS1 a m = Inr s"
  obtains rng rngU ac dc lat lon t
    where "ccs1Range a m = (rng, rngU)" "ccs1Limits a m = (ac, dc)" "ccs1Location m = (lat, lon, t)"
      and "evRange s = rng" "evRangeUnit s = rngU" "latitude s = lat" "longitude s = lon"
      "locationUpdatedAt s = t" "chargeLimitAC s = ac" "chargeLimitDC s = dc"
  using assms by (auto simp: parseCCS1_def split: if_splits prod.splits)

section \<open>Properties\<close>

text \<open>The location a CCS1 state carries is all or nothing: either both coordinates are present
  and not both zero, or neither is and there is no fix time either.\<close>

theorem parseCCS1_location:
  assumes "parseCCS1 a m = Inr s"
  shows "(latitude s = None) = (longitude s = None)
    \<and> (latitude s = None \<longrightarrow> locationUpdatedAt s = None)
    \<and> \<not> (latitude s = Some (Fin 0) \<and> longitude s = Some (Fin 0))"
  using assms
  by (auto elim!: parseCCS1_InrE simp: ccs1Location_def split: option.splits if_splits)

theorem parseCCS1_location_witness:
  "latitude (projr (parseCCS1 AMD64 [(''vehicleStatus'', JObj [])])) = None \<and>
   locationUpdatedAt (projr (parseCCS1 AMD64 [(''vehicleStatus'', JObj [])])) = None"
proof -
  obtain s where s: "parseCCS1 AMD64 [(''vehicleStatus'', JObj [])] = Inr s"
    by (cases "parseCCS1 AMD64 [(''vehicleStatus'', JObj [])]")
       (auto simp: parseCCS1_def getPath_def split: if_splits prod.splits)
  have "latitude s = None" using s
    by (auto elim!: parseCCS1_InrE simp: ccs1Location_def getFloat_def getPath_def asFloat_def)
  with parseCCS1_location [OF s] s show ?thesis by simp
qed

text \<open>The charge limits come from the plug types: the AC limit is the level of the last
  complete entry of plug type 1, the DC limit that of plug type 0; entries that are not objects,
  lack a level or have another plug type are ignored.\<close>

theorem ccs1Limits_spec:
  "ccs1Limits a m =
     (case getPath m ''vehicleStatus.evStatus.reservChargeInfos.targetSOClist'' of
        JArr es \<Rightarrow> (lastSome (map (limitEntry a 1) es) None, lastSome (map (limitEntry a 0) es) None)
      | _ \<Rightarrow> (None, None))"
  by (simp add: ccs1Limits_def limitsLoop_eq split: json.splits)

text \<open>C32: Every state parsed from a decoded CCS1 document is well formed, as for CCS2.\<close>

theorem parseCCS1_wf:
  assumes "numsFinite (JObj m)" and "parseCCS1 a m = Inr s"
  shows "wfState s"
  using assms(2) soc_range_getFloat [OF assms(1)]
  by (auto simp: parseCCS1_def wfState_def split: if_splits prod.splits)

theorem parseCCS1_wf_witness:
  "wfState (projr (parseCCS1 AMD64 [(''vehicleStatus'', JObj [])]))"
proof -
  obtain s where s: "parseCCS1 AMD64 [(''vehicleStatus'', JObj [])] = Inr s"
    by (cases "parseCCS1 AMD64 [(''vehicleStatus'', JObj [])]")
       (auto simp: parseCCS1_def getPath_def split: if_splits prod.splits)
  with parseCCS1_wf [OF _ s] show ?thesis by simp
qed

end
