(* ===== verification/GoFmt.thy ===== *)
theory GoFmt
  imports GoTime Float64
begin

text \<open>
  The formatting functions of Go's library that the status page and the entities use:
  \<open>strconv.FormatFloat(v, 'f', -1, 64)\<close>, \<open>Duration.String\<close> and \<open>Duration.Round\<close>, and the
  HTML escaper that \<open>html/template\<close> applies to text nodes; with what makes them right: the
  decimal text reads back as the number, escaped text holds no markup.
\<close>

section \<open>Floats\<close>

definition pow10 :: "int \<Rightarrow> rat" where
  "pow10 k = (if 0 \<le> k then 10 ^ nat k else 1 / 10 ^ nat (- k))"

text \<open>
  The shortest decimal that reads back as \<open>x\<close>: the least number of decimal places (negative
  for trailing zeros of an integer) at which the nearest decimal rounds to \<open>x\<close>. No more than
  1074 places are ever needed.
\<close>

definition readsBack :: "rat \<Rightarrow> int \<Rightarrow> bool" where
  "readsBack x j \<longleftrightarrow> fl (of_int (rne (x * pow10 j)) / pow10 j) = Fin x"

fun findPlaces :: "nat \<Rightarrow> int \<Rightarrow> rat \<Rightarrow> int" where
  "findPlaces 0 j x = j"
| "findPlaces (Suc n) j x = (if readsBack x j then j else findPlaces n (j + 1) x)"

definition decPlaces :: "rat \<Rightarrow> int" where
  "decPlaces x = (let j = 1 - int (length (natDigits (nat \<lfloor>x\<rfloor>))) in findPlaces (nat (1074 - j)) j x)"

definition decText :: "rat \<Rightarrow> string" where
  "decText x = (let j = decPlaces x; d = nat (rne (x * pow10 j)) in
     if j \<le> 0 then natDigits (d * 10 ^ nat (- j))
     else natDigits (d div 10 ^ nat j) @ CHR ''.'' # padDigits (nat j) (d mod 10 ^ nat j))"

fun trimFloat :: "f64 \<Rightarrow> string" where
  "trimFloat (Fin x) = (if x < 0 then CHR ''-'' # decText (- x) else decText x)"
| "trimFloat PosInf = ''+Inf''"
| "trimFloat NegInf = ''-Inf''"
| "trimFloat NaN = ''NaN''"

text \<open>Reading a decimal text: the number it denotes.\<close>

definition decVal :: "string \<Rightarrow> nat" where
  "decVal s = foldl (\<lambda>n c. 10 * n + digitVal c) 0 s"

fun readAbs :: "string \<Rightarrow> string \<Rightarrow> rat" where
  "readAbs acc [] = of_nat (decVal acc)"
| "readAbs acc (c # s) =
     (if c = CHR ''.'' then of_nat (decVal (acc @ s)) / 10 ^ length s else readAbs (acc @ [c]) s)"

fun readDec :: "string \<Rightarrow> rat" where
  "readDec [] = 0"
| "readDec (c # s) = (if c = CHR ''-'' then - readAbs [] s else readAbs [] (c # s))"

section \<open>Durations\<close>

text \<open>\<open>fmtFrac\<close>: the fraction \<open>v\<close> of \<open>10 ^ prec\<close>, without trailing zeros.\<close>

definition fmtFrac :: "nat \<Rightarrow> nat \<Rightarrow> string" where
  "fmtFrac v prec = (if v = 0 then [] else CHR ''.'' # trimRight (CHR ''0'') (padDigits prec v))"

definition durationString :: "int \<Rightarrow> string" where
  "durationString d =
     (let u = nat \<bar>d\<bar>;
          body = (if u = 0 then ''0s''
            else if u < 1000 then natDigits u @ ''ns''
            else if u < 1000000 then natDigits (u div 1000) @ fmtFrac (u mod 1000) 3 @ [CHR 0xC2, CHR 0xB5, CHR ''s'']
            else if u < 1000000000 then natDigits (u div 1000000) @ fmtFrac (u mod 1000000) 6 @ ''ms''
            else let secs = u div 1000000000; mins = secs div 60; hours = mins div 60
                 in (if hours > 0 then natDigits hours @ ''h'' else []) @
                    (if mins > 0 then natDigits (mins mod 60) @ ''m'' else []) @
                    natDigits (secs mod 60) @ fmtFrac (u mod 1000000000) 9 @ ''s'')
      in if d < 0 then CHR ''-'' # body else body)"

section \<open>Hexadecimal and quoted text\<close>

definition hexDigit :: "nat \<Rightarrow> char" where
  "hexDigit n = ''0123456789abcdef'' ! n"

definition hexEncode :: "nat list \<Rightarrow> string" where
  "hexEncode bs = concat (map (\<lambda>b. [hexDigit (b div 16), hexDigit (b mod 16)]) bs)"

text \<open>The verb \<open>%q\<close>, taking bytes beyond ASCII as parts of printable characters.\<close>

definition quoteChar :: "char \<Rightarrow> string" where
  "quoteChar c =
     (let n = (of_char c :: nat) in
      if n = 34 \<or> n = 92 then [CHR 0x5C, c]
      else if 7 \<le> n \<and> n \<le> 13 then [CHR 0x5C, ''abtnvfr'' ! (n - 7)]
      else if n < 32 \<or> n = 127 then [CHR 0x5C, CHR ''x''] @ hexEncode [n]
      else [c])"

definition quoteGo :: "string \<Rightarrow> string" where
  "quoteGo s = [CHR 0x22] @ concat (map quoteChar s) @ [CHR 0x22]"

text \<open>\<open>d.Round(m)\<close> for \<open>d \<ge> 0\<close>: halves away from zero.\<close>

definition durationRound :: "int \<Rightarrow> int \<Rightarrow> int" where
  "durationRound d m = (let r = d mod m in if r + r < m then d - r else d + (m - r))"

section \<open>HTML\<close>

definition htmlChar :: "char \<Rightarrow> string" where
  "htmlChar c =
     (if c = CHR ''&'' then ''&amp;'' else if c = CHR ''<'' then ''&lt;'' else if c = CHR ''>'' then ''&gt;''
      else if c = CHR 0x22 then ''&#34;'' else if c = CHR 0x27 then ''&#39;'' else if c = CHR ''+'' then ''&#43;''
      else if c = CHR 0x00 then [CHR 0xEF, CHR 0xBF, CHR 0xBD] else [c])"

definition htmlEscape :: "string \<Rightarrow> string" where
  "htmlEscape s = concat (map htmlChar s)"

section \<open>Facts\<close>

lemma count_htmlEscape [simp]:
  "count_list (htmlEscape s) (CHR ''<'') = 0" "count_list (htmlEscape s) (CHR ''>'') = 0"
  by (induction s) (simp_all add: htmlEscape_def htmlChar_def)

lemma htmlEscape_Nil [simp]: "htmlEscape [] = []"
  by (simp add: htmlEscape_def)

lemma digitVal_digitChar [simp]: "d < 10 \<Longrightarrow> digitVal (digitChar d) = d"
  by (simp add: digitVal_def digitChar_def of_char_of)

lemma isDigit_digitChar [simp]: "d < 10 \<Longrightarrow> isDigit (digitChar d)"
  by (simp add: isDigit_def digitChar_def of_char_of)

lemma isDigit_ne: "isDigit c \<Longrightarrow> c \<noteq> CHR ''.'' \<and> c \<noteq> CHR ''-''"
  by (auto simp: isDigit_def)

lemma list_all_natDigits [simp]: "list_all isDigit (natDigits n)"
  by (induction n rule: natDigits.induct) (subst natDigits.simps, simp)

lemma list_all_padDigits [simp]: "list_all isDigit (padDigits w n)"
  by (induction w n rule: padDigits.induct) simp_all

lemma length_padDigits [simp]: "length (padDigits w n) = w"
  by (induction w n rule: padDigits.induct) simp_all

lemma decVal_foldl: "foldl (\<lambda>n c. 10 * n + digitVal c) a s = a * 10 ^ length s + decVal s"
  by (induction s rule: rev_induct) (simp_all add: decVal_def algebra_simps)

lemma decVal_append: "decVal (s @ t) = decVal s * 10 ^ length t + decVal t"
  using decVal_foldl [of "decVal s" t] by (simp add: decVal_def)

lemma decVal_snoc [simp]: "decVal (s @ [c]) = 10 * decVal s + digitVal c"
  by (simp add: decVal_def)

lemma decVal_natDigits [simp]: "decVal (natDigits n) = n"
proof (induction n rule: natDigits.induct)
  case (1 n)
  then show ?case
    by (subst natDigits.simps) (auto simp: decVal_def digitVal_digitChar)
qed

lemma decVal_padDigits [simp]: "n < 10 ^ w \<Longrightarrow> decVal (padDigits w n) = n"
  by (induction w n rule: padDigits.induct) (simp_all add: decVal_def less_mult_imp_div_less)

lemma natDigits_nonempty [simp]: "natDigits n \<noteq> []"
  by (subst natDigits.simps) simp

lemma readAbs_digits: "list_all isDigit s \<Longrightarrow> readAbs acc s = of_nat (decVal (acc @ s))"
  by (induction acc s rule: readAbs.induct) (auto dest: isDigit_ne)

lemma readAbs_point:
  "list_all isDigit s \<Longrightarrow> readAbs acc (s @ CHR ''.'' # t) = of_nat (decVal (acc @ s @ t)) / 10 ^ length t"
  by (induction s arbitrary: acc) (auto dest: isDigit_ne)

lemma pow10_pos [simp]: "0 < pow10 k"
  by (simp add: pow10_def)

lemma pow10_simps [simp]: "0 \<le> pow10 k" "pow10 k \<noteq> 0"
  using pow10_pos [of k] by linarith+

lemma readAbs_decText:
  "readAbs [] (decText x) = of_nat (nat (rne (x * pow10 (decPlaces x)))) / pow10 (decPlaces x)"
proof -
  define j d where "j = decPlaces x" and "d = nat (rne (x * pow10 (decPlaces x)))"
  show ?thesis
  proof (cases "j \<le> 0")
    case True
    then show ?thesis by (simp add: decText_def readAbs_digits pow10_def flip: j_def d_def)
  next
    case False
    define p where "p = (10 :: nat) ^ nat j"
    have "decText x = natDigits (d div p) @ CHR ''.'' # padDigits (nat j) (d mod p)"
      using False by (simp add: decText_def Let_def p_def d_def flip: j_def)
    moreover have "decVal (natDigits (d div p) @ padDigits (nat j) (d mod p)) = d"
      by (simp add: decVal_append p_def div_mult_mod_eq)
    ultimately have "readAbs [] (decText x) = of_nat d / 10 ^ nat j" by (simp add: readAbs_point)
    with False show ?thesis by (simp add: pow10_def d_def flip: j_def)
  qed
qed

lemma findPlaces_reads:
  "readsBack x (j + int n) \<Longrightarrow> readsBack x (findPlaces n j x)"
  by (induction n j x rule: findPlaces.induct) (auto simp: algebra_simps)

lemma findPlaces_least:
  "j \<le> i \<Longrightarrow> i < findPlaces n j x \<Longrightarrow> \<not> readsBack x i"
proof (induction n j x rule: findPlaces.induct)
  case (2 n j x)
  then show ?case by (cases "i = j") (auto split: if_splits)
qed simp

text \<open>A representable number has at most 1074 decimal places.\<close>

lemma representable_scaled:
  assumes "representable (Fin x)" and "n = 1074"
  shows "\<exists>m. x * pow10 (int n) = of_int m"
proof (cases "x = 0")
  case False
  define k u where "k = rne (x / pow2 (ulpExp x))" and "u = nat (ulpExp x + int n)"
  have "- int n \<le> ulpExp x" by (simp add: ulpExp_def assms(2))
  then have "ulpExp x + int n = int u" by (simp add: u_def)
  then have p: "pow2 (ulpExp x) * 2 ^ n = 2 ^ u" by (simp add: pow2_nat flip: pow2_mult pow2_nat)
  have "x = of_int k * pow2 (ulpExp x)" using assms(1) False by (simp add: representable_def rnd_def k_def)
  moreover have "pow10 (int n) = 2 ^ n * 5 ^ n" by (simp add: pow10_def flip: power_mult_distrib)
  ultimately have "x * pow10 (int n) = of_int k * pow2 (ulpExp x) * (2 ^ n * 5 ^ n)" by argo
  then have "x * pow10 (int n) = of_int k * (pow2 (ulpExp x) * 2 ^ n) * 5 ^ n"
    by (simp only: mult.assoc)
  then have "x * pow10 (int n) = of_int (k * 2 ^ u * 5 ^ n)" by (simp add: p)
  then show ?thesis by blast
qed (intro exI [of _ 0], simp)

lemma readsBack_1074: "representable (Fin x) \<Longrightarrow> n = 1074 \<Longrightarrow> readsBack x (int n)"
proof -
  assume r: "representable (Fin x)" and "n = 1074"
  then obtain m where m: "x * pow10 (int n) = of_int m" using representable_scaled by blast
  have "of_int m / pow10 (int n) = x" unfolding m [symmetric] by simp
  then show ?thesis by (simp add: readsBack_def m fl_representable [OF r])
qed

lemma nat_floor_bound: "0 \<le> x \<Longrightarrow> rne x \<ge> 0" for x :: rat
  by (auto simp: rne_def Let_def)

lemma length_natDigits_le: "n < 10 ^ k \<Longrightarrow> 0 < k \<Longrightarrow> length (natDigits n) \<le> k"
proof (induction k arbitrary: n)
  case (Suc k)
  show ?case
  proof (cases "n < 10")
    case True
    then show ?thesis by (subst natDigits.simps) simp
  next
    case False
    then have "0 < k" using Suc.prems by (cases k) auto
    moreover have "n div 10 < 10 ^ k" using Suc.prems by (simp add: less_mult_imp_div_less)
    ultimately show ?thesis using Suc.IH False by (subst natDigits.simps) simp
  qed
qed simp

lemma decPlaces_reads: "representable (Fin x) \<Longrightarrow> readsBack x (decPlaces x)"
proof -
  assume r: "representable (Fin x)"
  define j where "j = 1 - int (length (natDigits (nat \<lfloor>x\<rfloor>)))"
  have "j \<le> 0" using natDigits_nonempty [of "nat \<lfloor>x\<rfloor>"] by (simp add: j_def Suc_le_eq)
  then have "j + int (nat (1074 - j)) = int (nat 1074)" by simp
  then show ?thesis using findPlaces_reads [of x j "nat (1074 - j)"] readsBack_1074 [OF r, of "nat 1074"]
    by (simp add: decPlaces_def flip: j_def)
qed

lemma decText_reads:
  assumes "representable (Fin x)" and "0 \<le> x"
  shows "fl (readAbs [] (decText x)) = Fin x"
proof -
  have "0 \<le> rne (x * pow10 (decPlaces x))"
    using assms(2) by (intro nat_floor_bound mult_nonneg_nonneg) simp_all
  then show ?thesis using decPlaces_reads [OF assms(1)]
    by (simp add: readAbs_decText readsBack_def of_nat_nat)
qed

lemma decText_head: "\<exists>c s. decText x = c # s \<and> c \<noteq> CHR ''-''"
proof -
  have "\<exists>n s. decText x = natDigits n @ s"
    unfolding decText_def Let_def by (metis append_Nil2)
  then obtain n s where "decText x = natDigits n @ s" by blast
  moreover obtain c t where ct: "natDigits n = c # t" using natDigits_nonempty [of n] by (cases "natDigits n") auto
  moreover have "isDigit c" using list_all_natDigits [of n] ct by simp
  ultimately show ?thesis using isDigit_ne by auto
qed

lemma rne_neg: "rne (- y) = - rne y"
proof (cases "y = of_int \<lfloor>y\<rfloor>")
  case True
  then obtain i where i: "y = of_int i" by blast
  have "rne (- y) = rne (of_int (- i))" by (simp only: i of_int_minus)
  then show ?thesis by (simp only: i rne_of_int)
next
  case False
  define f where "f = \<lfloor>y\<rfloor>"
  have "of_int f \<le> y" "y < of_int f + 1" using floor_correct [of y] by (simp_all only: f_def of_int_add of_int_1)
  with False have "of_int f < y" "y < of_int f + 1" unfolding f_def by linarith+
  then have e: "\<lfloor>- y\<rfloor> = - f - 1" by (simp add: floor_eq_iff)
  then show ?thesis unfolding rne_def Let_def e f_def [symmetric] by (auto simp: field_simps)
qed

lemma rnd_neg: "rnd (- x) = - rnd x"
proof -
  have "ulpExp (- x) = ulpExp x" by (simp add: ulpExp_def ilog2_def)
  then show ?thesis using rne_neg [of "x / pow2 (ulpExp x)"] by (simp add: rnd_def)
qed

lemma representable_neg: "representable (Fin x) \<Longrightarrow> representable (Fin (- x))"
  by (auto simp: representable_def rnd_neg ilog2_def)

section \<open>Properties\<close>

text \<open>The decimal text the status page and the float formatter print reads back as the very
  number: for every finite \<open>float64\<close>, parsing the text and rounding to \<open>float64\<close> gives it.\<close>

theorem trimFloat_reads_back:
  assumes "representable (Fin x)"
  shows "fl (readDec (trimFloat (Fin x))) = Fin x"
proof (cases "x < 0")
  case True
  have "representable (Fin (- x))" using assms by (rule representable_neg)
  then have "fl (readAbs [] (decText (- x))) = Fin (- x)" using True by (intro decText_reads) simp_all
  moreover have "fl (- y) = Fin x" if y: "fl y = Fin (- x)" for y
  proof -
    have "y \<noteq> 0" using y True by (auto simp: fl_def)
    moreover have "ilog2 (- rnd y) = ilog2 (rnd y)" by (simp add: ilog2_def)
    ultimately show ?thesis using y by (simp add: fl_rnd rnd_neg split: if_splits)
  qed
  ultimately show ?thesis using True by simp
next
  case False
  obtain c s where "decText x = c # s" "c \<noteq> CHR ''-''" using decText_head by blast
  then have "readDec (decText x) = readAbs [] (decText x)" by simp
  with False show ?thesis using decText_reads [OF assms] by simp
qed

theorem trimFloat_reads_back_witness:
  "representable (Fin (85 / 2)) \<and> fl (readDec (trimFloat (Fin (85 / 2)))) = Fin (85 / 2)"
proof -
  have "fl (85 / 2) = Fin (85 / 2)" by code_simp
  then have "representable (Fin (85 / 2))" using representable_fl [of "85 / 2"] by simp
  with trimFloat_reads_back [OF this] show ?thesis by simp
qed

end
