(* ===== verification/TimeText.thy ===== *)
theory TimeText
  imports GoFmt
begin

text \<open>
  The text form of times: \<open>Time.MarshalJSON\<close> writes RFC 3339 with nanoseconds, and parsing it
  gives the instant back. The token stores and the state document rely on it.
\<close>

lemma civilFromDays_valid:
  assumes "civilFromDays z = (y, m, d)"
  shows "1 \<le> m \<and> m \<le> 12 \<and> 1 \<le> d \<and> d \<le> daysIn m y"
proof -
  define n where "n = z + 719468"
  define a r1 where "a = n div 146097" and "r1 = n mod 146097"
  define b r2 where "b = min 3 (r1 div 36524)" and "r2 = r1 - 36524 * b"
  define c r3 where "c = r2 div 1461" and "r3 = r2 mod 1461"
  define e doy where "e = min 3 (r3 div 365)" and "doy = r3 - 365 * e"
  define mp where "mp = (5 * doy + 2) div 153"
  define yy where "yy = 400 * a + 100 * b + 4 * c + e"
  have r1: "0 \<le> r1" "r1 < 146097" by (simp_all add: r1_def)
  have b: "0 \<le> b" "b \<le> 3" and r2: "0 \<le> r2" "r2 \<le> 36524" "b < 3 \<Longrightarrow> r2 < 36524"
    using r1 by (auto simp: b_def r2_def min_def)
  have c: "0 \<le> c" "c \<le> 24" and r2s: "r2 = 1461 * c + r3" and r3: "0 \<le> r3" "r3 \<le> 1460"
    using r2 by (auto simp: c_def r3_def)
  have e: "0 \<le> e" "e \<le> 3" and doy: "0 \<le> doy" "doy \<le> 365"
    using r3 by (auto simp: e_def doy_def min_def)
  have top: "e = 3 \<and> r3 = 1460" if "doy = 365"
  proof (cases "e = 3")
    case False
    then have "e = r3 div 365" by (auto simp: e_def min_def split: if_splits)
    then have "doy = r3 mod 365" by (simp add: doy_def minus_mult_div_eq_mod [symmetric])
    then show ?thesis using that pos_mod_bound [of 365 r3] by simp
  qed (use that r3 in \<open>simp add: doy_def\<close>)
  have leap: "isLeap (yy + 1)" if "doy = 365"
  proof (cases "c = 24")
    case True
    then have "r2 = 36524" using top [OF that] r2s by simp
    then have "b = 3" using r2(3) b by linarith
    then have "yy + 1 = 400 * (a + 1)" using True top [OF that] by (simp add: yy_def)
    then show ?thesis by (simp add: isLeap_def)
  next
    case False
    have yy4: "yy + 1 = 4 * (100 * a + 25 * b + c + 1)" using top [OF that] by (simp add: yy_def)
    moreover have "yy + 1 = 100 * (4 * a + b) + 4 * (c + 1)" using yy4 by simp
    then have "(yy + 1) mod 100 = 4 * (c + 1)"
      using c False by (intro int_mod_pos_eq [where q = "4 * a + b"]) auto
    ultimately show ?thesis using c by (simp add: isLeap_def)
  qed
  have mp: "0 \<le> mp" "mp \<le> 11" "153 * mp \<le> 5 * doy + 2" "5 * doy + 2 < 153 * mp + 153" using doy by (auto simp: mp_def)
  from assms have ymd: "m = (if mp < 10 then mp + 3 else mp - 9)" "d = doy - (153 * mp + 2) div 5 + 1"
      "y = (if m \<le> 2 then yy + 1 else yy)"
    by (simp_all only: civilFromDays_def Let_def n_def [symmetric] a_def [symmetric] r1_def [symmetric]
        b_def [symmetric] r2_def [symmetric] c_def [symmetric] r3_def [symmetric] e_def [symmetric]
        doy_def [symmetric] mp_def [symmetric] yy_def [symmetric] prod.inject) auto
  have "mp \<in> {0, 1, 2, 3, 4, 5, 6, 7, 8, 9, 10, 11}" using mp(1,2) by simp presburger
  moreover have "\<not> isLeap (yy + 1) \<Longrightarrow> doy \<le> 364" using leap doy by (cases "doy = 365") auto
  ultimately show ?thesis
    using ymd mp(3,4) doy by (elim insertE emptyE) (auto simp: daysIn_def)
qed

section \<open>Digits\<close>

lemma digitsVal_eq: "digitsVal acc s = acc * 10 ^ length s + int (decVal s)"
proof (induction s arbitrary: acc)
  case (Cons c s)
  have "decVal (c # s) = digitVal c * 10 ^ length s + decVal s"
    using decVal_append [of "[c]" s] by (simp add: decVal_def)
  then show ?case using Cons.IH by (simp add: algebra_simps)
qed (simp add: decVal_def)

lemma digitsVal_pad: "n < 10 ^ w \<Longrightarrow> digitsVal 0 (padDigits w n) = int n"
  by (simp add: digitsVal_eq)

lemma getnum_pad: "n < 100 \<Longrightarrow> getnum (padDigits 2 n @ r) b = Some (int n, r)"
proof -
  assume "n < 100"
  have "int (n div 10) * 10 + int (n mod 10) = int (n div 10 * 10 + n mod 10)"
    by (simp only: of_nat_add of_nat_mult of_nat_numeral)
  also have "\<dots> = int n" by (simp only: div_mult_mod_eq)
  finally have "int (n div 10) * 10 + int (n mod 10) = int n" .
  then show ?thesis using \<open>n < 100\<close> by (simp add: numeral_2_eq_2)
qed

lemma take_pad [simp]: "take w (padDigits w n @ r) = padDigits w n" "drop w (padDigits w n @ r) = r"
  by simp_all

lemma digits_until: "list_all isDigit ds \<Longrightarrow> \<not> isDigit c \<Longrightarrow>
    takeWhile isDigit (ds @ c # r) = ds \<and> dropWhile isDigit (ds @ c # r) = c # r"
  by (induction ds) auto

lemma trimRight_split: "\<exists>k. s = trimRight c s @ replicate k c"
proof -
  have "rev s = takeWhile (\<lambda>x. x = c) (rev s) @ dropWhile (\<lambda>x. x = c) (rev s)" by simp
  then have "s = trimRight c s @ rev (takeWhile (\<lambda>x. x = c) (rev s))"
    by (metis rev_append rev_rev_ident trimRight_def)
  moreover have "rev (takeWhile (\<lambda>x. x = c) (rev s)) = replicate (length (takeWhile (\<lambda>x. x = c) (rev s))) c"
    by (metis (mono_tags, lifting) length_rev replicate_length_same set_rev set_takeWhileD)
  ultimately show ?thesis by metis
qed

lemma decVal_zeros: "decVal (replicate k (CHR ''0'')) = 0"
  by (induction k) (simp_all add: decVal_def digitVal_def)

text \<open>The fraction written is the fraction read.\<close>

lemma fracSecond_formatNanos:
  assumes "0 \<le> f" "f < nsPerSec" and "\<not> isDigit c" "c \<noteq> CHR ''.''" "c \<noteq> CHR '',''"
  shows "fracSecond (formatNanos f @ c # r) = (f, c # r)"
proof (cases "f = 0")
  case True
  then show ?thesis using assms by (simp add: formatNanos_def fracSecond_def split: list.split)
next
  case False
  define p where "p = padNum 9 f"
  have p: "decVal p = nat f" "length p = 9" "list_all isDigit p" using assms by (simp_all add: p_def padNum_def nat_less_iff)
  obtain k where k: "p = trimRight (CHR ''0'') p @ replicate k (CHR ''0'')" using trimRight_split by blast
  define t where "t = trimRight (CHR ''0'') p"
  have tk: "length t + k = 9" "decVal t * 10 ^ k = nat f" "list_all isDigit t"
    using k p unfolding t_def [symmetric] by (metis length_append length_replicate,
      metis add.right_neutral decVal_append decVal_zeros length_replicate, metis list_all_append)
  have "t \<noteq> []" using tk(2) False assms(1) by (auto simp: decVal_def)
  then obtain d t' where t: "t = d # t'" "isDigit d" using tk(3) by (cases t) auto
  have "digitsVal 0 (take 9 t) * 10 ^ (9 - length (take 9 t)) = f"
  proof -
    have "length t \<le> 9" "9 - length t = k" using tk(1) by simp_all
    then have "digitsVal 0 (take 9 t) * 10 ^ (9 - length (take 9 t)) = int (decVal t * 10 ^ k)"
      by (simp add: digitsVal_eq)
    with tk(2) assms(1) show ?thesis by simp
  qed
  moreover have "formatNanos f = CHR ''.'' # t" using False by (simp add: formatNanos_def t_def p_def)
  ultimately show ?thesis using digits_until [OF tk(3) assms(3), of r] t
    by (simp add: fracSecond_def Let_def)
qed

section \<open>Marshalling\<close>

lemma localParts_bounds:
  assumes "localParts t = ((y, m, d), s, f)"
  shows "0 \<le> s" "s < 86400" "0 \<le> f" "f < nsPerSec" "1 \<le> m" "m \<le> 12" "1 \<le> d" "d \<le> daysIn m y"
    "(daysFromCivil y m d * 86400 + s) * nsPerSec + f = tns t + toff t * nsPerSec"
proof -
  define l where "l = tns t + toff t * nsPerSec"
  have c: "civilFromDays (l div nsPerSec div 86400) = (y, m, d)" "s = l div nsPerSec mod 86400" "f = l mod nsPerSec"
    using assms by (simp_all add: localParts_def Let_def l_def)
  show "0 \<le> s" "s < 86400" "0 \<le> f" "f < nsPerSec" using c by simp_all
  show "1 \<le> m" "m \<le> 12" "1 \<le> d" "d \<le> daysIn m y" using civilFromDays_valid [OF c(1)] by simp_all
  have "daysFromCivil y m d * 86400 + s = l div nsPerSec"
    unfolding daysFromCivil_civilFromDays [OF c(1)] c(2) by (rule div_mult_mod_eq)
  then show "(daysFromCivil y m d * 86400 + s) * nsPerSec + f = tns t + toff t * nsPerSec"
    unfolding c(3) l_def [symmetric] by (simp only: div_mult_mod_eq)
qed

lemma daysIn_le: "daysIn m y \<le> 31"
  by (simp add: daysIn_def)

lemma parse_marshal_utc:
  assumes "toff t = 0" and "marshalTime t = Some s"
  shows "parseLayout layoutRFC3339 s = Some t"
proof -
  obtain y m d sc f where parts: "localParts t = ((y, m, d), sc, f)" by (cases "localParts t") auto
  note b = localParts_bounds [OF parts]
  have y: "0 \<le> y" "y \<le> 9999" and s: "s = formatRFC3339 True t"
    using assms(2) parts by (auto simp: marshalTime_def split: if_splits)
  define h mi se where "h = sc div 3600" and "mi = sc mod 3600 div 60" and "se = sc mod 60"
  have hms: "0 \<le> h" "h < 24" "0 \<le> mi" "mi < 60" "0 \<le> se" "se < 60"
    using b(1,2) by (auto simp: h_def mi_def se_def)
  have hs: "sc = h * 3600 + mi * 60 + se"
  proof -
    have "sc = h * 3600 + sc mod 3600" "sc mod 3600 = mi * 60 + sc mod 3600 mod 60" "sc mod 3600 mod 60 = se"
      unfolding h_def mi_def se_def by (simp_all only: div_mult_mod_eq) (simp add: mod_mod_cancel)
    then show ?thesis by linarith
  qed
  have text_s: "s = padDigits 4 (nat y) @ CHR ''-'' # padDigits 2 (nat m) @ CHR ''-'' # padDigits 2 (nat d) @ CHR ''T'' #
      padDigits 2 (nat h) @ CHR '':'' # padDigits 2 (nat mi) @ CHR '':'' # padDigits 2 (nat se) @ formatNanos f @ [CHR ''Z'']"
    using assms(1) parts by (simp add: s formatRFC3339_def formatOffset_def padNum_def h_def mi_def se_def)
  have small: "nat y < 10 ^ 4" "nat m < 100" "nat d < 100" "nat h < 100" "nat mi < 100" "nat se < 100"
    using y b(5-8) hms daysIn_le [of m y] by simp_all
  note frac = fracSecond_formatNanos [OF b(3,4), of "CHR ''Z''" "[]"]
  have "parseChunks layoutRFC3339 s parsed0 =
      Some \<lparr>pYear = y, pMonth = m, pDay = d, pHour = h, pMin = mi, pSec = se, pNsec = f, pOff = 0\<rparr>"
    unfolding text_s layoutRFC3339_def
    using y b(5-8) hms small frac by (simp add: getnum_pad digitsVal_pad inRange_def parsed0_def isDigit_def)
  then show ?thesis using b(5-9) hs assms(1)
    by (simp add: parseLayout_def parsedTime_def algebra_simps)
qed

end
