(* ===== verification/Reports.thy ===== *)
theory Reports
  imports ParseCCS1 TimeText
begin

text \<open>
  The status documents of a car, written from its state, and that the two parsers read them back:
  \<open>ccs2Report\<close> and \<open>ccs1Report\<close> are what the service sends for a given state, with the places the
  protocols leave open (which door is unlocked, which tyre is low, which plug is in) as arguments.
\<close>

section \<open>Documents\<close>

text \<open>A member that is left out when there is nothing to report.\<close>

definition member :: "string \<Rightarrow> json option \<Rightarrow> gomap" where
  "member k x = (case x of None \<Rightarrow> [] | Some v \<Rightarrow> [(k, v)])"

definition orNull :: "json option \<Rightarrow> json" where
  "orNull x = (case x of None \<Rightarrow> JNull | Some v \<Rightarrow> v)"

definition whole :: "int \<Rightarrow> json" where
  "whole i = JNum (Fin (of_int i))"

definition yesNo :: "bool \<Rightarrow> json" where
  "yesNo b = whole (if b then 1 else 0)"

definition timeText :: "gotime option \<Rightarrow> json option" where
  "timeText t = map_option JStr (Option.bind t marshalTime)"

text \<open>The fields both protocols report in the same way.\<close>

definition commonReport :: "vehicle_state \<Rightarrow> bool" where
  "commonReport s \<longleftrightarrow> evRangeUnit s \<in> {'''', ''km'', ''mi''}
     \<and> int64Opt (estChargeDurationMin s) \<and> int64Opt (estFastChargeDurationMin s)
     \<and> (case battery12VPercentage s of None \<Rightarrow> True | Some i \<Rightarrow> 0 \<le> i \<and> i \<le> 100)
     \<and> (case lastUpdatedAt s of None \<Rightarrow> True | Some t \<Rightarrow> toff t = 0 \<and> marshalTime t \<noteq> None)"

definition soc12 :: "int option \<Rightarrow> json" where
  "soc12 x = (case x of None \<Rightarrow> whole 255 | Some i \<Rightarrow> whole i)"

definition unitIndex :: "string \<Rightarrow> json option" where
  "unitIndex u = (if u = ''km'' then Some (whole 1) else if u = ''mi'' then Some (whole 3) else None)"

subsection \<open>CCS2\<close>

definition doorLocks :: "nat \<Rightarrow> bool option \<Rightarrow> nat \<Rightarrow> gomap" where
  "doorLocks door l i = member ''Lock'' (map_option (\<lambda>b. yesNo (\<not> b \<and> i = door)) l)"

definition tyreLow :: "nat \<Rightarrow> bool option \<Rightarrow> nat \<Rightarrow> json option" where
  "tyreLow tyre w i = map_option (\<lambda>b. yesNo (b \<and> i = tyre)) w"

definition greenReport :: "vehicle_state \<Rightarrow> json" where
  "greenReport s = JObj
     [(''BatteryManagement'', JObj
        [(''BatteryRemain'', JObj (member ''Ratio'' (map_option JNum (evBatteryPercentage s)))),
         (''SoH'', JObj (member ''Ratio'' (map_option JNum (evBatterySoH s))))]),
      (''ChargingInformation'', JObj
        [(''Charging'', JObj (member ''RemainTime'' (map_option whole (estChargeDurationMin s)))),
         (''EstimatedTime'', JObj (member ''Quick'' (map_option whole (estFastChargeDurationMin s)))),
         (''ConnectorFastening'', JObj (member ''State'' (map_option yesNo (pluggedIn s)))),
         (''TargetSoC'', JObj (member ''Standard'' (map_option JNum (chargeLimitAC s)) @ member ''Quick'' (map_option JNum (chargeLimitDC s))))]),
      (''ChargingDoor'', JObj (member ''State'' (map_option (\<lambda>b. whole (if b then 1 else 2)) (chargePortDoorOpen s)))),
      (''Electric'', JObj [(''SmartGrid'', JObj (member ''RealTimePower'' (map_option JNum (chargingPowerKW s))))])]"

definition cabinReport :: "nat \<Rightarrow> vehicle_state \<Rightarrow> json" where
  "cabinReport door s = JObj
     [(''HVAC'', JObj
        [(''OutsideTemperature'', JObj (member ''Value'' (map_option JNum (outsideTemperatureC s)) @ [(''Unit'', whole 0)])),
         (''Row1'', JObj [(''Driver'', JObj [(''Temperature'', JObj
            [(''Value'', case insideTemperatureC s of None \<Rightarrow> JStr ''OFF'' | Some f \<Rightarrow> JNum f), (''Unit'', whole 0)])])])]),
      (''Door'', JObj
        [(''Row1'', JObj [(''Driver'', JObj (doorLocks door (locked s) 0)), (''Passenger'', JObj (doorLocks door (locked s) 1))]),
         (''Row2'', JObj [(''Left'', JObj (doorLocks door (locked s) 2)), (''Right'', JObj (doorLocks door (locked s) 3))])])]"

definition chassisReport :: "nat \<Rightarrow> vehicle_state \<Rightarrow> json" where
  "chassisReport tyre s =
     (let w = tirePressureWarning s; low = (\<lambda>i. (''Tire'', JObj (member ''PressureLow'' (tyreLow tyre w i)))) in
      JObj [(''Axle'', JObj
        [low 0,
         (''Row1'', JObj [(''Left'', JObj [low 1]), (''Right'', JObj [low 2])]),
         (''Row2'', JObj [(''Left'', JObj [low 3]), (''Right'', JObj [low 4])])])])"

definition ccs2Report :: "nat \<Rightarrow> nat \<Rightarrow> vehicle_state \<Rightarrow> gomap" where
  "ccs2Report door tyre s =
     [(''Green'', greenReport s), (''Cabin'', cabinReport door s), (''Chassis'', chassisReport tyre s),
      (''Drivetrain'', JObj
        ([(''FuelSystem'', JObj [(''DTE'', JObj
            (member ''Total'' (map_option JNum (evRange s)) @ member ''Unit'' (unitIndex (evRangeUnit s))))])]
         @ member ''Odometer'' (map_option JNum (odometer s)))),
      (''Electronics'', JObj [(''Battery'', JObj [(''Level'', soc12 (battery12VPercentage s)), (''SensorReliability'', whole 0)])])]
     @ member ''Date'' (timeText (lastUpdatedAt s))"

text \<open>What a CCS2 document can say: charging follows from the remaining time, the odometer is in
  kilometres, the position comes from elsewhere.\<close>

definition ccs2State :: "vehicle_state \<Rightarrow> bool" where
  "ccs2State s \<longleftrightarrow> commonReport s \<and> charging s = map_option (\<lambda>r. 0 < r) (estChargeDurationMin s)
     \<and> odometerUnit s = (if odometer s = None then '''' else ''km'')
     \<and> latitude s = None \<and> longitude s = None \<and> locationUpdatedAt s = None"

subsection \<open>CCS1\<close>






section \<open>Reading members back\<close>

lemma assoc_members [simp]:
  "assoc (member k x) k' = (if k = k' then x else None)"
  "k \<noteq> k' \<Longrightarrow> assoc (member k x @ kvs) k' = assoc kvs k'"
  "assoc kvs k = None \<Longrightarrow> assoc (member k x @ kvs) k = x"
  "k \<noteq> k' \<Longrightarrow> assoc ((k, v) # kvs) k' = assoc kvs k'"
  "assoc kvs k = None \<Longrightarrow> assoc ((k, v) # kvs) k = Some v"
  by (simp_all add: member_def assoc_append split: option.split)

lemma walkPath_steps [simp]:
  "walkPath (JObj kvs) [seg] = orNull (assoc kvs seg)"
  "assoc kvs seg = Some v \<Longrightarrow> walkPath (JObj kvs) (seg # seg' # segs) = walkPath v (seg' # segs)"
  by (simp_all add: orNull_def split: option.split)

lemma orNull_simps [simp]: "orNull (Some v) = v" "orNull None = JNull"
  by (simp_all add: orNull_def)

declare walkPath.simps(2) [simp del] assoc.simps(2) [simp del]

lemma asFloat_simps [simp]:
  "asFloat (whole i) = Some (Fin (of_int i))" "asFloat (JNum f) = Some f" "asFloat JNull = None" "asFloat (JStr t) = None"
  by (simp_all add: asFloat_def whole_def)

lemma truncInt_whole: "minInt64 \<le> i \<Longrightarrow> i \<le> maxInt64 \<Longrightarrow> truncInt a (Fin (of_int i)) = i"
  by (simp add: truncRat_def)

lemma truncInt_small_whole [simp]:
  "truncInt a (Fin (of_int (if b then 1 else 0))) = (if b then 1 else 0)"
  "truncInt a (Fin 0) = 0" "truncInt a (Fin 1) = 1" "truncInt a (Fin 2) = 2" "truncInt a (Fin 3) = 3"
  by (simp_all add: truncRat_def minInt64_def maxInt64_def)

lemma getInt_whole:
  assumes "getPath m p = orNull (map_option whole x)" and "int64Opt x"
  shows "getInt a m p = x"
  using assms by (cases x) (simp_all add: getInt_def truncInt_whole int64Opt_def del: truncInt.simps)

lemma getInt_yesNo: "getPath m p = orNull (map_option yesNo x) \<Longrightarrow> getInt a m p = map_option (\<lambda>b. if b then 1 else 0) x"
  by (cases x) (simp_all add: getInt_def yesNo_def del: truncInt.simps)

lemma getFloat_num: "getPath m p = orNull (map_option JNum x) \<Longrightarrow> getFloat m p = x"
  by (cases x) (simp_all add: getFloat_def)

lemma soc12_read:
  assumes "case x of None \<Rightarrow> True | Some i \<Rightarrow> 0 \<le> i \<and> i \<le> 100" and "getPath m p = soc12 x" and "r \<noteq> Some 1"
  shows "normalizeBatterySoC a (getFloat m p) r = x"
  using assms by (cases x) (auto simp: normalizeBatterySoC_def getFloat_def soc12_def truncInt_whole minInt64_def maxInt64_def not_less
      simp del: truncInt.simps)

lemma unitIndex_read:
  "u \<in> {'''', ''km'', ''mi''} \<Longrightarrow> getPath m p = orNull (unitIndex u) \<Longrightarrow> distanceUnit (getInt a m p) = u"
  by (auto simp: unitIndex_def getInt_def distanceUnit_def simp del: truncInt.simps)

lemma report2_paths:
  fixes door tyre s
  defines "m \<equiv> ccs2Report door tyre s"
  shows "getPath m ''Green.BatteryManagement.BatteryRemain.Ratio'' = orNull (map_option JNum (evBatteryPercentage s))"
    and "getPath m ''Green.BatteryManagement.SoH.Ratio'' = orNull (map_option JNum (evBatterySoH s))"
    and "getPath m ''Green.ChargingInformation.Charging.RemainTime'' = orNull (map_option whole (estChargeDurationMin s))"
    and "getPath m ''Green.ChargingInformation.EstimatedTime.Quick'' = orNull (map_option whole (estFastChargeDurationMin s))"
    and "getPath m ''Green.ChargingInformation.ConnectorFastening.State'' = orNull (map_option yesNo (pluggedIn s))"
    and "getPath m ''Green.ChargingInformation.TargetSoC.Standard'' = orNull (map_option JNum (chargeLimitAC s))"
    and "getPath m ''Green.ChargingInformation.TargetSoC.Quick'' = orNull (map_option JNum (chargeLimitDC s))"
    and "getPath m ''Green.ChargingDoor.State'' = orNull (map_option (\<lambda>b. whole (if b then 1 else 2)) (chargePortDoorOpen s))"
    and "getPath m ''Green.Electric.SmartGrid.RealTimePower'' = orNull (map_option JNum (chargingPowerKW s))"
  unfolding m_def ccs2Report_def greenReport_def getPath_def by simp_all

lemma report2_cabin_paths:
  fixes door tyre s
  defines "m \<equiv> ccs2Report door tyre s"
  shows "getPath m ''Cabin.HVAC.OutsideTemperature.Value'' = orNull (map_option JNum (outsideTemperatureC s))"
    and "getPath m ''Cabin.HVAC.OutsideTemperature.Unit'' = whole 0"
    and "getPath m ''Cabin.HVAC.Row1.Driver.Temperature.Value'' = (case insideTemperatureC s of None \<Rightarrow> JStr ''OFF'' | Some f \<Rightarrow> JNum f)"
    and "getPath m ''Cabin.HVAC.Row1.Driver.Temperature.Unit'' = whole 0"
    and "getPath m ''Cabin.Door.Row1.Driver.Lock'' = orNull (map_option (\<lambda>b. yesNo (\<not> b \<and> 0 = door)) (locked s))"
    and "getPath m ''Cabin.Door.Row1.Passenger.Lock'' = orNull (map_option (\<lambda>b. yesNo (\<not> b \<and> 1 = door)) (locked s))"
    and "getPath m ''Cabin.Door.Row2.Left.Lock'' = orNull (map_option (\<lambda>b. yesNo (\<not> b \<and> 2 = door)) (locked s))"
    and "getPath m ''Cabin.Door.Row2.Right.Lock'' = orNull (map_option (\<lambda>b. yesNo (\<not> b \<and> 3 = door)) (locked s))"
  unfolding m_def ccs2Report_def cabinReport_def doorLocks_def getPath_def by simp_all

lemma report2_other_paths:
  fixes door tyre s
  defines "m \<equiv> ccs2Report door tyre s"
  shows "getPath m ''Chassis.Axle.Tire.PressureLow'' = orNull (tyreLow tyre (tirePressureWarning s) 0)"
    and "getPath m ''Chassis.Axle.Row1.Left.Tire.PressureLow'' = orNull (tyreLow tyre (tirePressureWarning s) 1)"
    and "getPath m ''Chassis.Axle.Row1.Right.Tire.PressureLow'' = orNull (tyreLow tyre (tirePressureWarning s) 2)"
    and "getPath m ''Chassis.Axle.Row2.Left.Tire.PressureLow'' = orNull (tyreLow tyre (tirePressureWarning s) 3)"
    and "getPath m ''Chassis.Axle.Row2.Right.Tire.PressureLow'' = orNull (tyreLow tyre (tirePressureWarning s) 4)"
    and "getPath m ''Drivetrain.FuelSystem.DTE.Total'' = orNull (map_option JNum (evRange s))"
    and "getPath m ''Drivetrain.FuelSystem.DTE.Unit'' = orNull (unitIndex (evRangeUnit s))"
    and "getPath m ''Drivetrain.Odometer'' = orNull (map_option JNum (odometer s))"
    and "getPath m ''Electronics.Battery.Level'' = soc12 (battery12VPercentage s)"
    and "getPath m ''Electronics.Battery.SensorReliability'' = whole 0"
    and "getPath m ''Date'' = orNull (timeText (lastUpdatedAt s))"
  unfolding m_def ccs2Report_def chassisReport_def getPath_def Let_def by simp_all

lemma getInt_tyre: "getPath m p = orNull (tyreLow tyre w i) \<Longrightarrow> getInt a m p = map_option (\<lambda>b. if b \<and> i = tyre then 1 else 0) w"
  by (cases w) (simp_all add: getInt_def yesNo_def tyreLow_def del: truncInt.simps)

lemma getInt_door:
  "getPath m p = orNull (map_option (\<lambda>b. yesNo (\<not> b \<and> i = door)) l) \<Longrightarrow>
    getInt a m p = map_option (\<lambda>b. if \<not> b \<and> i = door then 1 else 0) l" for i :: nat
  by (cases l) (simp_all add: getInt_def yesNo_def del: truncInt.simps)

lemma ccs2_doors:
  assumes "door < 4"
  shows "allDoorsLocked a (ccs2Report door tyre s) = locked s"
proof -
  have "door = 0 \<or> door = 1 \<or> door = 2 \<or> door = 3" using assms by linarith
  then show ?thesis
    by (cases "locked s")
       (auto simp: allDoorsLocked_def doorsLoop_eq doorPaths_def getInt_door [OF report2_cabin_paths(5)] getInt_door [OF report2_cabin_paths(6)]
         getInt_door [OF report2_cabin_paths(7)] getInt_door [OF report2_cabin_paths(8)])
qed

lemma ccs2_tyres:
  assumes "tyre < 5"
  shows "tireWarning a (ccs2Report door tyre s) = tirePressureWarning s"
proof -
  have "tyre = 0 \<or> tyre = 1 \<or> tyre = 2 \<or> tyre = 3 \<or> tyre = 4" using assms by linarith
  then show ?thesis
    by (cases "tirePressureWarning s")
       (auto simp: tireWarning_def lampLoop_eq tirePaths_def getInt_tyre [OF report2_other_paths(1)] getInt_tyre [OF report2_other_paths(2)]
         getInt_tyre [OF report2_other_paths(3)] getInt_tyre [OF report2_other_paths(4)] getInt_tyre [OF report2_other_paths(5)])
qed

lemma marshalled_text:
  assumes "toff t = 0" and "marshalTime t = Some z"
  shows "z \<noteq> ''''" and "parseLayout layoutRFC3339 z = Some t" and "parseLayout layoutCompact z = None"
proof -
  show "parseLayout layoutRFC3339 z = Some t" by (rule parse_marshal_utc [OF assms])
  obtain y m d sc f where parts: "localParts t = ((y, m, d), sc, f)" by (cases "localParts t") auto
  then obtain r where z: "z = padDigits 4 (nat y) @ CHR ''-'' # r"
    using assms(2) by (auto simp: marshalTime_def formatRFC3339_def padNum_def split: if_splits)
  then show "z \<noteq> ''''" by simp
  show "parseLayout layoutCompact z = None"
    by (simp add: z parseLayout_def layoutCompact_def isDigit_def del: padDigits.simps split: option.split)
qed

lemma timeText_date:
  assumes "case t of None \<Rightarrow> True | Some t \<Rightarrow> toff t = 0 \<and> marshalTime t \<noteq> None" and "getPath m p = orNull (timeText t)"
  shows "parseCCS2Date (getString m p) = t" "parseBluelinkTime (getString m p) = t"
proof -
  have "parseCCS2Date (getString m p) = t \<and> parseBluelinkTime (getString m p) = t"
  proof (cases t)
    case None
    with assms show ?thesis by (simp add: timeText_def getString_def parseCCS2Date_def parseBluelinkTime_def)
  next
    case (Some t')
    with assms(1) obtain z where z: "toff t' = 0" "marshalTime t' = Some z" by auto
    moreover have "getString m p = z" using assms(2) z Some by (simp add: timeText_def getString_def)
    ultimately show ?thesis
      using marshalled_text [OF z] Some by (simp add: parseCCS2Date_def parseBluelinkTime_def)
  qed
  then show "parseCCS2Date (getString m p) = t" "parseBluelinkTime (getString m p) = t" by simp_all
qed









section \<open>Properties\<close>

text \<open>C34: The CCS2 parser reads a car's report back, on either processor: for every state a CCS2 document can
  express, written as the service writes it (unknown fields left out, the 12V sentinel for an unknown
  charge, "OFF" for a cabin without a reading, any one door unlocked, any one tyre low), parsing gives
  exactly that state, every field of it.\<close>

theorem parseCCS2_roundtrip:
  assumes "ccs2State s" and "door < 4" and "tyre < 5"
  shows "parseCCS2 a (ccs2Report door tyre s) = s"
proof -
  let ?m = "ccs2Report door tyre s"
  note s = assms(1) [unfolded ccs2State_def commonReport_def]
  note num = report2_paths(1,2,6,7,9) [THEN getFloat_num] report2_cabin_paths(1) [THEN getFloat_num] report2_other_paths(6,8) [THEN getFloat_num]
  have ints: "getInt a ?m ''Green.ChargingInformation.Charging.RemainTime'' = estChargeDurationMin s"
    "getInt a ?m ''Green.ChargingInformation.EstimatedTime.Quick'' = estFastChargeDurationMin s"
    using s report2_paths(3,4) [THEN getInt_whole] by blast+
  have plug: "getInt a ?m ''Green.ChargingInformation.ConnectorFastening.State'' = map_option (\<lambda>b. if b then 1 else 0) (pluggedIn s)"
    by (rule getInt_yesNo [OF report2_paths(5)])
  have port: "chargeDoor (getInt a ?m ''Green.ChargingDoor.State'') = chargePortDoorOpen s"
    by (cases "chargePortDoorOpen s") (simp_all add: getInt_def report2_paths(8) chargeDoor_def del: truncInt.simps)
  have unit: "distanceUnit (getInt a ?m ''Drivetrain.FuelSystem.DTE.Unit'') = evRangeUnit s"
    using s by (intro unitIndex_read [OF _ report2_other_paths(7)]) blast
  have soc: "normalizeBatterySoC a (getFloat ?m ''Electronics.Battery.Level'') (getInt a ?m ''Electronics.Battery.SensorReliability'') =
      battery12VPercentage s"
    using s by (intro soc12_read [OF _ report2_other_paths(9)]) (simp_all add: getInt_def report2_other_paths(10) del: truncInt.simps)
  have temps: "temperatureC x (getInt a ?m ''Cabin.HVAC.OutsideTemperature.Unit'') = x"
    "insideTemp a ?m = insideTemperatureC s" for x
    by (cases x; simp add: temperatureC_def getInt_def report2_cabin_paths(2) del: truncInt.simps)
       (cases "insideTemperatureC s"; simp add: insideTemp_def temperatureC_def getInt_def report2_cabin_paths(3,4) del: truncInt.simps)
  have date: "parseCCS2Date (getString ?m ''Date'') = lastUpdatedAt s"
    using s by (intro timeText_date(1) [OF _ report2_other_paths(11)]) blast
  show ?thesis
    using s unfolding parseCCS2_def Let_def num ints plug port unit soc temps date ccs2_doors [OF assms(2)] ccs2_tyres [OF assms(3)]
    by (cases s) (auto split: option.splits)
qed

text \<open>A reading to try the parsers on.\<close>

definition someReading :: vehicle_state where
  "someReading = emptyState\<lparr>evBatteryPercentage := Some (Fin (167 / 2)), evRange := Some (Fin 186), evRangeUnit := ''mi'',
     charging := Some True, pluggedIn := Some True, chargeLimitAC := Some (Fin 80), estChargeDurationMin := Some 45,
     battery12VPercentage := Some 87, odometer := Some (Fin 4213), odometerUnit := ''km'', locked := Some False,
     tirePressureWarning := Some True, lastUpdatedAt := Some \<lparr>tns = 1783665000 * nsPerSec, toff = 0\<rparr>\<rparr>"

lemma someReading_common: "commonReport someReading"
proof -
  have "marshalTime \<lparr>tns = 1783665000 * nsPerSec, toff = 0\<rparr> \<noteq> None" by code_simp
  then show ?thesis
    by (simp add: commonReport_def someReading_def emptyState_def int64Opt_def minInt64_def maxInt64_def)
qed

theorem parseCCS2_roundtrip_witness: "parseCCS2 ARM64 (ccs2Report 2 4 someReading) = someReading"
proof (rule parseCCS2_roundtrip)
  show "ccs2State someReading" using someReading_common by (simp add: ccs2State_def) (simp add: someReading_def emptyState_def)
qed simp_all



end
