(* ===== verification/Config.thy ===== *)
theory Config
  imports GoFmt
begin

text \<open>
  \<open>internal/config/config.go\<close>: \<open>Load\<close> over an environment, a map from names to values in which an
  unset variable is empty, as \<open>os.Getenv\<close> has it. \<open>url.Parse\<close> and \<open>time.LoadLocation\<close> are parameters;
  \<open>time.ParseDuration\<close>, \<open>strconv.Atoi\<close> and \<open>strconv.ParseBool\<close> are modelled as the library has them.
\<close>

section \<open>The library's parsers\<close>

text \<open>\<open>leadingInt\<close>: \<open>None\<close> is an overflow.\<close>

fun leadingInt :: "int \<Rightarrow> string \<Rightarrow> (int \<times> string) option" where
  "leadingInt x [] = Some (x, [])"
| "leadingInt x (c # s) =
     (if \<not> isDigit c then Some (x, c # s)
      else if x > 2 ^ 63 div 10 then None
      else let x' = x * 10 + int (digitVal c) in if x' > 2 ^ 63 then None else leadingInt x' s)"

text \<open>\<open>leadingFraction\<close>: digits after an overflow are read and dropped.\<close>

fun leadingFraction :: "int \<Rightarrow> int \<Rightarrow> bool \<Rightarrow> string \<Rightarrow> int \<times> int \<times> string" where
  "leadingFraction x scale over [] = (x, scale, [])"
| "leadingFraction x scale over (c # s) =
     (if \<not> isDigit c then (x, scale, c # s)
      else if over then leadingFraction x scale True s
      else if x > (2 ^ 63 - 1) div 10 then leadingFraction x scale True s
      else let y = x * 10 + int (digitVal c)
           in if y > 2 ^ 63 then leadingFraction x scale True s else leadingFraction y (scale * 10) False s)"

definition unitMap :: "(string \<times> int) list" where
  "unitMap = [(''ns'', 1), (''us'', 1000), ([CHR 0xC2, CHR 0xB5, CHR ''s''], 1000), ([CHR 0xCE, CHR 0xBC, CHR ''s''], 1000),
     (''ms'', 1000000), (''s'', 1000000000), (''m'', 60000000000), (''h'', 3600000000000)]"

definition unitChar :: "char \<Rightarrow> bool" where
  "unitChar c \<longleftrightarrow> c \<noteq> CHR ''.'' \<and> \<not> isDigit c"

text \<open>The fraction of a unit, in \<open>float64\<close> and truncated.\<close>

definition fracUnit :: "int \<Rightarrow> int \<Rightarrow> int \<Rightarrow> int" where
  "fracUnit f scale unit' =
     (case f64_mul (fl (of_int f)) (f64_div (fl (of_int unit')) (fl (of_int scale))) of
        Fin q \<Rightarrow> \<lfloor>q\<rfloor> | _ \<Rightarrow> 0)"

text \<open>The number of an element (its whole part, its fraction and scale) and the text from the unit on.\<close>

definition durationNumber :: "string \<Rightarrow> (int \<times> int \<times> int \<times> string) option" where
  "durationNumber s =
     (case leadingInt 0 s of
        None \<Rightarrow> None
      | Some (v, s1) \<Rightarrow>
          if s1 \<noteq> [] \<and> hd s1 = CHR ''.''
          then (case leadingFraction 0 1 False (tl s1) of (f, scale, s2) \<Rightarrow>
                  if s1 = s \<and> s2 = tl s1 then None else Some (v, f, scale, s2))
          else if s1 = s then None else Some (v, 0, 1, s1))"

definition durationValue :: "int \<Rightarrow> int \<Rightarrow> int \<Rightarrow> int \<Rightarrow> int option" where
  "durationValue v f scale unit' =
     (if v > 2 ^ 63 div unit' then None
      else let v' = v * unit' + (if f > 0 then fracUnit f scale unit' else 0)
           in if v' > 2 ^ 63 then None else Some v')"

text \<open>One element of a duration: its nanoseconds and the rest of the text.\<close>

definition durationElem :: "string \<Rightarrow> (int \<times> string) option" where
  "durationElem s =
     (if s = [] \<or> unitChar (hd s) then None
      else case durationNumber s of None \<Rightarrow> None
      | Some (v, f, scale, s2) \<Rightarrow>
          (case assoc unitMap (takeWhile unitChar s2) of None \<Rightarrow> None
           | Some unit' \<Rightarrow> map_option (\<lambda>d. (d, dropWhile unitChar s2)) (durationValue v f scale unit')))"

lemma leadingInt_length: "leadingInt x s = Some (v, r) \<Longrightarrow> length r \<le> length s"
proof (induction x s rule: leadingInt.induct)
  case (2 x c s)
  show ?case
  proof (cases "\<not> isDigit c \<or> x > 2 ^ 63 div 10 \<or> x * 10 + int (digitVal c) > 2 ^ 63")
    case False
    with "2.prems" have "leadingInt (x * 10 + int (digitVal c)) s = Some (v, r)" by (simp add: Let_def)
    with "2.IH" False have "length r \<le> length s" by simp
    then show ?thesis by simp
  qed (use "2.prems" in \<open>auto simp: Let_def split: if_splits\<close>)
qed simp

lemma leadingFraction_length: "leadingFraction x sc ov s = (f, sc', r) \<Longrightarrow> length r \<le> length s"
proof (induction s arbitrary: x sc ov)
  case (Cons c s)
  then have IH: "\<And>x sc ov. leadingFraction x sc ov s = (f, sc', r) \<Longrightarrow> length r \<le> Suc (length s)"
    using le_Suc_eq by blast
  from Cons.prems show ?case
    by (simp only: leadingFraction.simps Let_def length_Cons split: if_split_asm) (use IH in \<open>auto\<close>)
qed simp

lemma durationNumber_length:
  assumes "durationNumber s = Some (v, f, scale, r)"
  shows "length r \<le> length s"
proof -
  obtain v0 s1 where s1: "leadingInt 0 s = Some (v0, s1)"
    using assms by (auto simp: durationNumber_def split: option.splits)
  obtain f0 sc0 s2 where s2: "leadingFraction 0 1 False (tl s1) = (f0, sc0, s2)"
    by (cases "leadingFraction 0 1 False (tl s1)")
  have "r = s2 \<or> r = s1" using assms by (auto simp: durationNumber_def s1 s2 split: if_splits)
  with leadingInt_length [OF s1] leadingFraction_length [OF s2] show ?thesis by auto
qed

lemma dropWhile_shorter: "takeWhile P t \<noteq> [] \<Longrightarrow> length (dropWhile P t) < length t"
  by (cases t) (auto simp: le_imp_less_Suc length_dropWhile_le split: if_splits)

lemma durationElem_shorter:
  assumes "durationElem s = Some (v, r)"
  shows "length r < length s"
proof -
  obtain v0 f sc s2 u where n: "durationNumber s = Some (v0, f, sc, s2)"
    and u: "assoc unitMap (takeWhile unitChar s2) = Some u" and r: "r = dropWhile unitChar s2"
    using assms by (auto simp: durationElem_def split: option.splits if_splits)
  have "assoc unitMap [] = None" by (simp add: unitMap_def)
  with u have "takeWhile unitChar s2 \<noteq> []" by (metis option.distinct(1))
  with dropWhile_shorter durationNumber_length [OF n] r show ?thesis by fastforce
qed

text \<open>The loop of \<open>ParseDuration\<close>, from the sum so far.\<close>

function durationLoop :: "int \<Rightarrow> string \<Rightarrow> int option" where
  "durationLoop d s =
     (if s = [] then Some d
      else case durationElem s of None \<Rightarrow> None
      | Some (v, r) \<Rightarrow> if d + v > 2 ^ 63 then None else durationLoop (d + v) r)"
  by pat_completeness auto
termination
  by (relation "measure (length \<circ> snd)") (auto dest: durationElem_shorter)

declare durationLoop.simps [simp del]

definition goParseDuration :: "string \<Rightarrow> gerr + int" where
  "goParseDuration orig =
     (let neg = (orig \<noteq> [] \<and> hd orig = CHR ''-'');
          s = (if orig \<noteq> [] \<and> (hd orig = CHR ''-'' \<or> hd orig = CHR ''+'') then tl orig else orig);
          bad = Inl (LibErr (''time: invalid duration '' @ quoteGo orig))
      in if s = ''0'' then Inr 0 else if s = '''' then bad
         else case durationLoop 0 s of None \<Rightarrow> bad
         | Some d \<Rightarrow> if neg then Inr (- d) else if d > 2 ^ 63 - 1 then bad else Inr d)"

definition goAtoi :: "string \<Rightarrow> int option" where
  "goAtoi s =
     (let ds = (if s \<noteq> [] \<and> (hd s = CHR ''-'' \<or> hd s = CHR ''+'') then tl s else s)
      in if ds = [] \<or> \<not> list_all isDigit ds then None
         else let v = (if hd s = CHR ''-'' then - int (decVal ds) else int (decVal ds))
              in if minInt64 \<le> v \<and> v \<le> maxInt64 then Some v else None)"

definition goParseBool :: "string \<Rightarrow> bool option" where
  "goParseBool s =
     (if s \<in> {''1'', ''t'', ''T'', ''true'', ''TRUE'', ''True''} then Some True
      else if s \<in> {''0'', ''f'', ''F'', ''false'', ''FALSE'', ''False''} then Some False else None)"

section \<open>Reading the environment\<close>

type_synonym environment = "string \<Rightarrow> string"

definition getEnv :: "environment \<Rightarrow> string \<Rightarrow> string \<Rightarrow> string" where
  "getEnv env key def' = (if env key \<noteq> '''' then env key else def')"

definition getBoolEnv :: "environment \<Rightarrow> string \<Rightarrow> bool \<Rightarrow> gerr + bool" where
  "getBoolEnv env key def' =
     (if env key = '''' then Inr def'
      else case goParseBool (env key) of Some b \<Rightarrow> Inr b
      | None \<Rightarrow> Inl (Err (key @ '' must be a boolean (true/false/1/0), got '' @ quoteGo (env key))))"

definition getIntEnv :: "environment \<Rightarrow> string \<Rightarrow> int \<Rightarrow> gerr + int" where
  "getIntEnv env key def' =
     (if env key = '''' then Inr def'
      else case goAtoi (env key) of Some n \<Rightarrow> Inr n
      | None \<Rightarrow> Inl (Err (key @ '' must be an integer, got '' @ quoteGo (env key))))"

definition parseDuration :: "environment \<Rightarrow> string \<Rightarrow> int \<Rightarrow> gerr + int" where
  "parseDuration env key def' =
     (if env key = '''' then Inr def'
      else case goParseDuration (env key) of Inr d \<Rightarrow> Inr d
      | Inl e \<Rightarrow> Inl (Wrapped (key @ '' is not a valid duration'') e))"

section \<open>The configuration\<close>

record config =
  bluelinkUsername :: string
  bluelinkPassword :: string
  bluelinkVIN :: string
  bluelinkPIN :: string
  cfgMode :: string
  bluelinkBaseURL :: string
  bluelinkLoginURL :: string
  pollInterval :: int
  forceRefreshEnabled :: bool
  forceRefreshHour :: int
  forceRefreshMinute :: int
  forceRefreshLocation :: "location option"
  forceRefreshOnlyWhenPluggedIn :: bool
  cfgReadyThreshold :: int
  pollMaxRetries :: int
  mqttBrokerURL :: string
  mqttUsername :: string
  mqttPassword :: string
  mqttClientID :: string
  mqttTopicPrefix :: string
  cfgHADiscoveryPrefix :: string
  cfgDistanceUnit :: string
  tokenStore :: string
  tokenSecretName :: string
  healthAddr :: string
  logLevel :: string
  logFormat :: string

text \<open>What \<open>url.Parse\<close> returns that the code reads; the error is the inner one of a \<open>*url.Error\<close>.\<close>

record parsed_url =
  uScheme :: string
  uHost :: string
  uRedacted :: string

record parsers =
  prURL :: "string \<Rightarrow> gerr + parsed_url"
  prLocation :: "string \<Rightarrow> gerr + location"

definition minPollInterval :: int where
  "minPollInterval = 5 * 60 * nsPerSec"

definition defaultMockURL :: string where
  "defaultMockURL = ''http://localhost:8090''"

definition validateBrokerURL :: "parsers \<Rightarrow> string \<Rightarrow> gerr option" where
  "validateBrokerURL p raw =
     (case prURL p raw of
        Inl e \<Rightarrow> Some (Wrapped ''MQTT_BROKER_URL is invalid'' e)
      | Inr u \<Rightarrow>
          if uScheme u = '''' \<or> uHost u = ''''
          then Some (Err (''MQTT_BROKER_URL must include a scheme and host (e.g. mqtt://host:1883), got '' @
                 quoteGo (uRedacted u)))
          else None)"

text \<open>\<open>Time.Hour\<close> and \<open>Time.Minute\<close>.\<close>

definition timeHour :: "gotime \<Rightarrow> int" where
  "timeHour t = (case localParts t of (date, s, ns) \<Rightarrow> s div 3600)"

definition timeMinute :: "gotime \<Rightarrow> int" where
  "timeMinute t = (case localParts t of (date, s, ns) \<Rightarrow> s mod 3600 div 60)"

text \<open>The assignments of \<open>parseForceRefresh\<close>: enabled, hour, minute and location.\<close>

definition parseForceRefresh :: "parsers \<Rightarrow> environment \<Rightarrow> gerr + bool \<times> int \<times> int \<times> location option" where
  "parseForceRefresh p env =
     (let hm = getEnv env ''FORCE_REFRESH_AT'' ''05:00''; tzName = getEnv env ''FORCE_REFRESH_TZ'' ''UTC''
      in if hm = '''' then Inr (False, 0, 0, None)
         else case parseLayout layoutHM hm of
           None \<Rightarrow> Inl (Err (''FORCE_REFRESH_AT must be HH:MM, got '' @ quoteGo hm))
         | Some t \<Rightarrow>
             if length hm \<noteq> length ''15:04'' then Inl (Err (''FORCE_REFRESH_AT must be HH:MM, got '' @ quoteGo hm))
             else (case prLocation p tzName of
                 Inl e \<Rightarrow> Inl (Wrapped (''FORCE_REFRESH_TZ '' @ quoteGo tzName @ '' is not a valid timezone'') e)
               | Inr loc \<Rightarrow> Inr (True, timeHour t, timeMinute t, Some loc)))"

definition errorIf :: "bool \<Rightarrow> string \<Rightarrow> gerr list" where
  "errorIf b m = (if b then [Err m] else [])"

text \<open>A value that failed to parse is zero; one that parsed is checked.\<close>

definition checked :: "gerr + 'a \<Rightarrow> ('a \<Rightarrow> gerr list) \<Rightarrow> gerr list" where
  "checked r check = (case r of Inl e \<Rightarrow> [e] | Inr x \<Rightarrow> check x)"

definition orZero :: "'a \<Rightarrow> gerr + 'a \<Rightarrow> 'a" where
  "orZero z r = (case r of Inl e \<Rightarrow> z | Inr x \<Rightarrow> x)"

text \<open>The configuration \<open>Load\<close> fills in, and the errors it collects on the way, in order.\<close>

definition loadConfig :: "parsers \<Rightarrow> environment \<Rightarrow> config" where
  "loadConfig p env =
     (let mode = lower (getEnv env ''MODE'' ''live'');
          mockURL = getEnv env ''MOCK_URL'' defaultMockURL;
          mock = (mode = ''mock'');
          (en, h, mi, loc) = orZero (False, 0, 0, None) (parseForceRefresh p env)
      in \<lparr>bluelinkUsername = (if mock then getEnv env ''BLUELINK_USERNAME'' ''mock'' else env ''BLUELINK_USERNAME''),
          bluelinkPassword = (if mock then getEnv env ''BLUELINK_PASSWORD'' ''mock'' else env ''BLUELINK_PASSWORD''),
          bluelinkVIN = env ''BLUELINK_VIN'', bluelinkPIN = env ''BLUELINK_PIN'', cfgMode = mode,
          bluelinkBaseURL = (if mock then mockURL else ''''), bluelinkLoginURL = (if mock then mockURL else ''''),
          pollInterval = orZero 0 (parseDuration env ''POLL_INTERVAL'' (45 * 60 * nsPerSec)),
          forceRefreshEnabled = en, forceRefreshHour = h, forceRefreshMinute = mi, forceRefreshLocation = loc,
          forceRefreshOnlyWhenPluggedIn = orZero False (getBoolEnv env ''FORCE_REFRESH_ONLY_WHEN_PLUGGED_IN'' False),
          cfgReadyThreshold = orZero 0 (getIntEnv env ''READY_FAILURE_THRESHOLD'' 3),
          pollMaxRetries = orZero 0 (getIntEnv env ''POLL_MAX_RETRIES'' 3),
          mqttBrokerURL = env ''MQTT_BROKER_URL'', mqttUsername = env ''MQTT_USERNAME'',
          mqttPassword = env ''MQTT_PASSWORD'', mqttClientID = getEnv env ''MQTT_CLIENT_ID'' ''hyundai-bluelink-mqtt'',
          mqttTopicPrefix = getEnv env ''MQTT_TOPIC_PREFIX'' ''hyundai_bluelink'',
          cfgHADiscoveryPrefix = getEnv env ''HA_DISCOVERY_PREFIX'' ''homeassistant'',
          cfgDistanceUnit = lower (getEnv env ''DISTANCE_UNIT'' ''km''),
          tokenStore = lower (getEnv env ''TOKEN_STORE'' ''memory''), tokenSecretName = env ''TOKEN_SECRET_NAME'',
          healthAddr = getEnv env ''HEALTH_ADDR'' '':8080'', logLevel = lower (getEnv env ''LOG_LEVEL'' ''info''),
          logFormat = lower (getEnv env ''LOG_FORMAT'' ''json'')\<rparr>)"

definition targetErrors :: "config \<Rightarrow> gerr list" where
  "targetErrors c =
     errorIf (cfgMode c \<noteq> ''live'' \<and> cfgMode c \<noteq> ''mock'') (''MODE must be live or mock, got '' @ quoteGo (cfgMode c)) @
     errorIf (cfgMode c = ''live'' \<and> bluelinkUsername c = '''') ''BLUELINK_USERNAME is required'' @
     errorIf (cfgMode c = ''live'' \<and> bluelinkPassword c = '''') ''BLUELINK_PASSWORD is required''"

definition brokerErrors :: "parsers \<Rightarrow> config \<Rightarrow> gerr list" where
  "brokerErrors p c =
     (if mqttBrokerURL c = '''' then [Err ''MQTT_BROKER_URL is required'']
      else case validateBrokerURL p (mqttBrokerURL c) of None \<Rightarrow> [] | Some e \<Rightarrow> [e])"

definition scheduleErrors :: "parsers \<Rightarrow> environment \<Rightarrow> gerr list" where
  "scheduleErrors p env =
     checked (parseDuration env ''POLL_INTERVAL'' (45 * 60 * nsPerSec)) (\<lambda>d.
       errorIf (d < minPollInterval) (''POLL_INTERVAL '' @ durationString d @ '' is below the '' @
         durationString minPollInterval @ '' floor'')) @
     checked (getIntEnv env ''READY_FAILURE_THRESHOLD'' 3) (\<lambda>n. errorIf (n < 1) ''READY_FAILURE_THRESHOLD must be >= 1'') @
     checked (getIntEnv env ''POLL_MAX_RETRIES'' 3) (\<lambda>n. errorIf (n < 0) ''POLL_MAX_RETRIES must be >= 0'') @
     checked (getBoolEnv env ''FORCE_REFRESH_ONLY_WHEN_PLUGGED_IN'' False) (\<lambda>b. []) @
     checked (parseForceRefresh p env) (\<lambda>x. [])"

definition choiceErrors :: "config \<Rightarrow> gerr list" where
  "choiceErrors c =
     errorIf (cfgDistanceUnit c \<notin> {''km'', ''mi''}) (''DISTANCE_UNIT must be km or mi, got '' @ quoteGo (cfgDistanceUnit c)) @
     errorIf (logLevel c \<notin> {''debug'', ''info'', ''warn'', ''error''})
       (''LOG_LEVEL must be debug, info, warn or error, got '' @ quoteGo (logLevel c)) @
     errorIf (logFormat c \<notin> {''json'', ''text''}) (''LOG_FORMAT must be json or text, got '' @ quoteGo (logFormat c)) @
     errorIf (tokenStore c = ''kube'' \<and> tokenSecretName c = '''') ''TOKEN_SECRET_NAME is required when TOKEN_STORE=kube'' @
     errorIf (tokenStore c \<notin> {''memory'', ''kube''}) (''TOKEN_STORE must be memory or kube, got '' @ quoteGo (tokenStore c))"

definition configErrors :: "parsers \<Rightarrow> environment \<Rightarrow> gerr list" where
  "configErrors p env = (let c = loadConfig p env in
     targetErrors c @ brokerErrors p c @ scheduleErrors p env @ choiceErrors c)"

definition load :: "parsers \<Rightarrow> environment \<Rightarrow> gerr + config" where
  "load p env = (if configErrors p env \<noteq> [] then Inl (Joined (configErrors p env)) else Inr (loadConfig p env))"

section \<open>Printing it\<close>

definition locNameOf :: "location option \<Rightarrow> string" where
  "locNameOf l = (case l of None \<Rightarrow> ''-'' | Some loc \<Rightarrow> locName loc)"

definition redact :: "string \<Rightarrow> string" where
  "redact s = (if s = '''' then '''' else ''***'')"

definition boolText :: "bool \<Rightarrow> string" where
  "boolText b = (if b then ''true'' else ''false'')"

text \<open>The verb \<open>%02d\<close>.\<close>

definition twoDigits :: "int \<Rightarrow> string" where
  "twoDigits i = (if 0 \<le> i \<and> i < 10 then CHR ''0'' # itoa i else itoa i)"

definition configString :: "config \<Rightarrow> string" where
  "configString c =
     ''Config{mode='' @ (if cfgMode c = ''mock'' then ''mock('' @ bluelinkBaseURL c @ '')'' else cfgMode c) @
     '' user='' @ bluelinkUsername c @ '' vin='' @ redact (bluelinkVIN c) @ '' poll='' @ durationString (pollInterval c) @
     '' forceRefresh='' @ boolText (forceRefreshEnabled c) @ ''@'' @ twoDigits (forceRefreshHour c) @ '':'' @
     twoDigits (forceRefreshMinute c) @ '' '' @ locNameOf (forceRefreshLocation c) @
     '' pluggedGate='' @ boolText (forceRefreshOnlyWhenPluggedIn c) @ '' broker='' @ mqttBrokerURL c @
     '' topicPrefix='' @ mqttTopicPrefix c @ '' haPrefix='' @ cfgHADiscoveryPrefix c @
     '' distanceUnit='' @ cfgDistanceUnit c @ '' tokenStore='' @ tokenStore c @ '' secret='' @ tokenSecretName c @
     '' health='' @ healthAddr c @ '' log='' @ logLevel c @ ''/'' @ logFormat c @ ''}''"

section \<open>Facts\<close>

lemma errorIf_Nil [simp]: "errorIf b m = [] \<longleftrightarrow> \<not> b"
  by (simp add: errorIf_def)

lemma checked_errorIf: "checked r (\<lambda>x. errorIf (Q x) (m x)) = [] \<Longrightarrow> \<not> Q (orZero z r)"
  by (auto simp: checked_def orZero_def split: sum.splits)

text \<open>The time of day a force refresh is set for.\<close>

lemma getEnv_default: "d \<noteq> '''' \<Longrightarrow> getEnv env k d \<noteq> ''''"
  by (simp add: getEnv_def)

lemma clock_range:
  "0 \<le> timeHour t \<and> timeHour t < 24" "0 \<le> timeMinute t \<and> timeMinute t < 60"
proof -
  obtain date s ns where s: "localParts t = (date, s, ns)" by (metis prod_cases3)
  then have "0 \<le> s \<and> s < 86400" by (auto simp: localParts_def Let_def)
  then show "0 \<le> timeHour t \<and> timeHour t < 24"
    using zdiv_mono1 [of s 86399 3600] by (simp add: timeHour_def s pos_imp_zdiv_nonneg_iff)
  have "s mod 3600 \<le> 3599" using pos_mod_bound [of 3600 s] by simp
  then show "0 \<le> timeMinute t \<and> timeMinute t < 60"
    using zdiv_mono1 [of "s mod 3600" 3599 60] by (simp add: timeMinute_def s pos_imp_zdiv_nonneg_iff)
qed

lemma parseForceRefresh_cases:
  assumes "parseForceRefresh p env = Inr (en, h, mi, loc)"
  shows "en \<and> 0 \<le> h \<and> h < 24 \<and> 0 \<le> mi \<and> mi < 60 \<and> loc \<noteq> None"
proof -
  let ?hm = "getEnv env ''FORCE_REFRESH_AT'' ''05:00''"
  have hm: "?hm \<noteq> ''''" by (rule getEnv_default) simp
  then obtain t where t: "parseLayout layoutHM ?hm = Some t"
    using assms by (cases "parseLayout layoutHM ?hm") (simp_all add: parseForceRefresh_def Let_def)
  obtain l where "en \<and> h = timeHour t \<and> mi = timeMinute t \<and> loc = Some l"
    using assms hm
    by (cases "prLocation p (getEnv env ''FORCE_REFRESH_TZ'' ''UTC'')")
       (auto simp: parseForceRefresh_def Let_def t split: if_split_asm)
  then show ?thesis using clock_range by simp
qed

lemma load_Inr: "load p env = Inr c \<longleftrightarrow> configErrors p env = [] \<and> c = loadConfig p env"
  by (auto simp: load_def)

lemma loadConfig_sel:
  "pollInterval (loadConfig p env) = orZero 0 (parseDuration env ''POLL_INTERVAL'' (45 * 60 * nsPerSec))"
  "cfgReadyThreshold (loadConfig p env) = orZero 0 (getIntEnv env ''READY_FAILURE_THRESHOLD'' 3)"
  "pollMaxRetries (loadConfig p env) = orZero 0 (getIntEnv env ''POLL_MAX_RETRIES'' 3)"
  "(forceRefreshEnabled (loadConfig p env), forceRefreshHour (loadConfig p env), forceRefreshMinute (loadConfig p env),
    forceRefreshLocation (loadConfig p env)) = orZero (False, 0, 0, None) (parseForceRefresh p env)"
  by (simp_all add: loadConfig_def Let_def split: prod.split)

lemma loadConfig_mode:
  "cfgMode (loadConfig p env) = lower (getEnv env ''MODE'' ''live'')"
  "bluelinkUsername (loadConfig p env) = (if cfgMode (loadConfig p env) = ''mock'' then getEnv env ''BLUELINK_USERNAME'' ''mock''
     else env ''BLUELINK_USERNAME'')"
  "bluelinkPassword (loadConfig p env) = (if cfgMode (loadConfig p env) = ''mock'' then getEnv env ''BLUELINK_PASSWORD'' ''mock''
     else env ''BLUELINK_PASSWORD'')"
  "bluelinkBaseURL (loadConfig p env) = (if cfgMode (loadConfig p env) = ''mock'' then getEnv env ''MOCK_URL'' defaultMockURL else '''')"
  "bluelinkLoginURL (loadConfig p env) = (if cfgMode (loadConfig p env) = ''mock'' then getEnv env ''MOCK_URL'' defaultMockURL else '''')"
  by (simp_all add: loadConfig_def Let_def split: prod.split)

lemma loadConfig_target:
  "cfgMode (loadConfig p env) = ''mock'' \<Longrightarrow> bluelinkUsername (loadConfig p env) \<noteq> '''' \<and>
     bluelinkPassword (loadConfig p env) \<noteq> '''' \<and> bluelinkBaseURL (loadConfig p env) = getEnv env ''MOCK_URL'' defaultMockURL \<and>
     bluelinkLoginURL (loadConfig p env) = getEnv env ''MOCK_URL'' defaultMockURL"
  "cfgMode (loadConfig p env) \<noteq> ''mock'' \<Longrightarrow> bluelinkBaseURL (loadConfig p env) = '''' \<and> bluelinkLoginURL (loadConfig p env) = ''''"
  by (simp_all add: loadConfig_mode(2-5) getEnv_default)

lemma sublist_skip: "sublist x s \<Longrightarrow> sublist x (p @ s)"
  unfolding sublist_def by (metis append_assoc)

lemma sublist_here: "sublist x (x @ s)"
  by simp

lemma load_parts:
  assumes "load p env = Inr c"
  shows "c = loadConfig p env" and "targetErrors c = []" and "brokerErrors p c = []" and "scheduleErrors p env = []"
    and "choiceErrors c = []"
  using assms by (auto simp: load_Inr configErrors_def Let_def)

lemma load_schedule:
  assumes "load p env = Inr c"
  shows "minPollInterval \<le> pollInterval c" and "0 \<le> pollMaxRetries c" and "1 \<le> cfgReadyThreshold c"
    and "forceRefreshEnabled c \<and> 0 \<le> forceRefreshHour c \<and> forceRefreshHour c < 24
      \<and> 0 \<le> forceRefreshMinute c \<and> forceRefreshMinute c < 60 \<and> forceRefreshLocation c \<noteq> None"
proof -
  note c = load_parts(1) [OF assms]
  note sched = load_parts(4) [OF assms, unfolded scheduleErrors_def append_is_Nil_conv]
  have "\<not> pollInterval c < minPollInterval" "\<not> pollMaxRetries c < 0" "\<not> cfgReadyThreshold c < 1"
    unfolding c loadConfig_sel by (rule checked_errorIf, insert sched, elim conjE, assumption)+
  then show "minPollInterval \<le> pollInterval c" and "0 \<le> pollMaxRetries c" and "1 \<le> cfgReadyThreshold c"
    by simp_all
  obtain en h mi loc where f: "parseForceRefresh p env = Inr (en, h, mi, loc)"
    using sched by (auto simp: checked_def split: sum.splits)
  moreover have "(forceRefreshEnabled c, forceRefreshHour c, forceRefreshMinute c, forceRefreshLocation c) = (en, h, mi, loc)"
    unfolding c loadConfig_sel(4) by (simp add: f orZero_def)
  ultimately show "forceRefreshEnabled c \<and> 0 \<le> forceRefreshHour c \<and> forceRefreshHour c < 24
      \<and> 0 \<le> forceRefreshMinute c \<and> forceRefreshMinute c < 60 \<and> forceRefreshLocation c \<noteq> None"
    using parseForceRefresh_cases [OF f] by simp
qed

lemma load_choices:
  assumes "load p env = Inr c"
  shows "cfgDistanceUnit c \<in> {''km'', ''mi''}" and "logLevel c \<in> {''debug'', ''info'', ''warn'', ''error''}"
    and "tokenStore c = ''memory'' \<or> tokenStore c = ''kube'' \<and> tokenSecretName c \<noteq> ''''"
  using load_parts(5) [OF assms] by (auto simp: choiceErrors_def)

lemma load_credentials:
  assumes "load p env = Inr c"
  shows "bluelinkUsername c \<noteq> ''''" and "bluelinkPassword c \<noteq> ''''" and "mqttBrokerURL c \<noteq> ''''"
proof -
  have "bluelinkUsername c \<noteq> '''' \<and> bluelinkPassword c \<noteq> ''''"
    using load_parts(2) [OF assms] loadConfig_target(1) [of p env] load_parts(1) [OF assms]
    by (auto simp: targetErrors_def)
  then show "bluelinkUsername c \<noteq> ''''" and "bluelinkPassword c \<noteq> ''''" by simp_all
  show "mqttBrokerURL c \<noteq> ''''" using load_parts(3) [OF assms] by (auto simp: brokerErrors_def)
qed

section \<open>Properties\<close>

text \<open>The environment of a first start, and parsers that accept what it names.\<close>

definition demoParsers :: parsers where
  "demoParsers = \<lparr>prURL = (\<lambda>s. Inr \<lparr>uScheme = ''mqtt'', uHost = ''broker:1883'', uRedacted = s\<rparr>),
     prLocation = (\<lambda>s. if s = ''UTC'' then Inr utcLoc else Inl (LibErr ''unknown time zone''))\<rparr>"

definition demoEnvironment :: environment where
  "demoEnvironment = (\<lambda>k. if k = ''MODE'' then ''MOCK'' else if k = ''MQTT_BROKER_URL'' then ''mqtt://broker:1883''
     else if k = ''POLL_INTERVAL'' then ''10m'' else '''')"

lemma demo_loads: "load demoParsers demoEnvironment = Inr (loadConfig demoParsers demoEnvironment)"
proof -
  have "targetErrors (loadConfig demoParsers demoEnvironment) = []" by code_simp
  moreover have "brokerErrors demoParsers (loadConfig demoParsers demoEnvironment) = []" by code_simp
  moreover have "choiceErrors (loadConfig demoParsers demoEnvironment) = []" by code_simp
  moreover have "goParseDuration ''10m'' = Inr 600000000000" by code_simp
  then have "parseDuration demoEnvironment ''POLL_INTERVAL'' d = Inr 600000000000" for d
    by (simp add: parseDuration_def demoEnvironment_def)
  moreover have "getIntEnv demoEnvironment ''READY_FAILURE_THRESHOLD'' 3 = Inr 3"
    "getIntEnv demoEnvironment ''POLL_MAX_RETRIES'' 3 = Inr 3"
    "getBoolEnv demoEnvironment ''FORCE_REFRESH_ONLY_WHEN_PLUGGED_IN'' False = Inr False"
    by (simp_all add: getIntEnv_def getBoolEnv_def demoEnvironment_def)
  moreover have "parseForceRefresh demoParsers demoEnvironment = Inr (True, 5, 0, Some utcLoc)" by code_simp
  ultimately show ?thesis
    by (simp add: load_Inr configErrors_def Let_def scheduleErrors_def checked_def minPollInterval_def)
qed

text \<open>C22: A configuration that \<open>Load\<close> accepts is one the rest of the program can run with: the poll
  interval is at least five minutes, retries are not negative, the readiness threshold is at least one,
  the daily refresh has a time of day and a location, the choices are among the documented ones, and
  the credentials are set. Every accepted configuration has the daily refresh enabled.\<close>

theorem load_valid:
  assumes "load p env = Inr c"
  shows "5 * 60 * nsPerSec \<le> pollInterval c \<and> 0 \<le> pollMaxRetries c \<and> 1 \<le> cfgReadyThreshold c
    \<and> forceRefreshEnabled c \<and> 0 \<le> forceRefreshHour c \<and> forceRefreshHour c < 24
    \<and> 0 \<le> forceRefreshMinute c \<and> forceRefreshMinute c < 60 \<and> forceRefreshLocation c \<noteq> None
    \<and> cfgDistanceUnit c \<in> {''km'', ''mi''} \<and> logLevel c \<in> {''debug'', ''info'', ''warn'', ''error''}
    \<and> (tokenStore c = ''memory'' \<or> tokenStore c = ''kube'' \<and> tokenSecretName c \<noteq> '''')
    \<and> bluelinkUsername c \<noteq> '''' \<and> bluelinkPassword c \<noteq> '''' \<and> mqttBrokerURL c \<noteq> ''''"
  using load_schedule [OF assms] load_choices [OF assms] load_credentials [OF assms] by (simp add: minPollInterval_def)

theorem load_valid_witness:
  "\<exists>c. load demoParsers demoEnvironment = Inr c \<and> 5 * 60 * nsPerSec \<le> pollInterval c \<and> forceRefreshEnabled c"
  using load_valid [OF demo_loads] demo_loads by blast

text \<open>An empty FORCE_REFRESH_AT does not disable the daily refresh: it is the default, five o'clock.\<close>

theorem empty_force_time_is_default:
  assumes "env ''FORCE_REFRESH_AT'' = ''''" and "prLocation p (getEnv env ''FORCE_REFRESH_TZ'' ''UTC'') = Inr loc"
  shows "parseForceRefresh p env = Inr (True, 5, 0, Some loc)"
proof -
  have "parseLayout layoutHM ''05:00'' \<noteq> None
      \<and> timeHour (the (parseLayout layoutHM ''05:00'')) = 5 \<and> timeMinute (the (parseLayout layoutHM ''05:00'')) = 0" by code_simp
  then obtain t where "parseLayout layoutHM ''05:00'' = Some t" "timeHour t = 5" "timeMinute t = 0" by auto
  then show ?thesis using assms by (simp add: parseForceRefresh_def getEnv_def)
qed

theorem empty_force_time_is_default_witness:
  "parseForceRefresh demoParsers (\<lambda>k. '''') = Inr (True, 5, 0, Some utcLoc)"
  by (rule empty_force_time_is_default) (simp_all add: demoParsers_def getEnv_def)

text \<open>The mode decides the hosts alone: live leaves both overrides empty, mock points both at the mock
  URL, whatever else the environment says, and no other mode is accepted.\<close>

theorem mode_decides_hosts:
  assumes "load p env = Inr c"
  shows "(cfgMode c = ''live'' \<and> bluelinkBaseURL c = '''' \<and> bluelinkLoginURL c = '''')
    \<or> (cfgMode c = ''mock'' \<and> bluelinkBaseURL c = getEnv env ''MOCK_URL'' defaultMockURL
        \<and> bluelinkLoginURL c = bluelinkBaseURL c)"
proof -
  have c: "c = loadConfig p env" and "targetErrors c = []"
    using assms by (auto simp: load_Inr configErrors_def Let_def)
  then show ?thesis using loadConfig_target [of p env] by (auto simp: targetErrors_def)
qed

theorem mode_decides_hosts_witness:
  "\<exists>c. load demoParsers demoEnvironment = Inr c \<and> (cfgMode c = ''mock'' \<longrightarrow> bluelinkLoginURL c = ''http://localhost:8090'')"
  using mode_decides_hosts [OF demo_loads] demo_loads by (auto simp: getEnv_def demoEnvironment_def defaultMockURL_def)

text \<open>C39: The printed configuration depends on neither password, the PIN nor the MQTT user name, and on the
  VIN only through whether one is set; the broker URL, with any password in it, is printed as it is.\<close>

theorem configString_secrets:
  "configString (c\<lparr>bluelinkPassword := a, bluelinkPIN := b, mqttPassword := d, mqttUsername := u,
      bluelinkVIN := (if bluelinkVIN c = '''' then '''' else w # ws)\<rparr>) = configString c
   \<and> sublist (mqttBrokerURL c) (configString c)"
proof (rule conjI)
  show "sublist (mqttBrokerURL c) (configString c)"
    unfolding configString_def by (rule sublist_here sublist_skip)+
qed (simp add: configString_def redact_def)

end
