(* ===== verification/Crypto.thy ===== *)
theory Crypto
  imports Prelude
begin

text \<open>
  \<open>internal/bluelink/stamp.go\<close> and \<open>jwk.go\<close>: Go's base64 (standard with padding, URL
  without), the request stamp and the conversion of a JWK into an RSA public key. Bytes are
  numbers below 256. The encryption itself (\<open>crypto/rsa\<close>) is a parameter of the client.
\<close>

unbundle bit_operations_syntax

section \<open>Base64\<close>

definition stdAlphabet :: string where
  "stdAlphabet = ''ABCDEFGHIJKLMNOPQRSTUVWXYZabcdefghijklmnopqrstuvwxyz0123456789+/''"

definition urlAlphabet :: string where
  "urlAlphabet = ''ABCDEFGHIJKLMNOPQRSTUVWXYZabcdefghijklmnopqrstuvwxyz0123456789-_''"

text \<open>The position of a character in the alphabet.\<close>

fun indexOf :: "string \<Rightarrow> char \<Rightarrow> nat option" where
  "indexOf [] c = None"
| "indexOf (x # xs) c = (if x = c then Some 0 else map_option Suc (indexOf xs c))"

fun b64Encode :: "string \<Rightarrow> bool \<Rightarrow> nat list \<Rightarrow> string" where
  "b64Encode al pad [] = []"
| "b64Encode al pad [a] =
     [al ! (a div 4), al ! (a mod 4 * 16)] @ (if pad then ''=='' else [])"
| "b64Encode al pad [a, b] =
     [al ! (a div 4), al ! (a mod 4 * 16 + b div 16), al ! (b mod 16 * 4)] @ (if pad then ''='' else [])"
| "b64Encode al pad (a # b # c # r) =
     [al ! (a div 4), al ! (a mod 4 * 16 + b div 16), al ! (b mod 16 * 4 + c div 64), al ! (c mod 64)] @
     b64Encode al pad r"

text \<open>Sextets to bytes: a quantum of two, three or four; a lone one is corrupt input.\<close>

fun fromSextets :: "nat list \<Rightarrow> nat list option" where
  "fromSextets [] = Some []"
| "fromSextets [x] = None"
| "fromSextets [x, y] = Some [x * 4 + y div 16]"
| "fromSextets [x, y, z] = Some [x * 4 + y div 16, y mod 16 * 16 + z div 4]"
| "fromSextets (x # y # z # w # r) =
     map_option (\<lambda>bs. (x * 4 + y div 16) # (y mod 16 * 16 + z div 4) # (z mod 4 * 64 + w) # bs) (fromSextets r)"

definition noNewlines :: "string \<Rightarrow> string" where
  "noNewlines s = filter (\<lambda>c. c \<noteq> CHR 0x0A \<and> c \<noteq> CHR 0x0D) s"

text \<open>\<open>RawURLEncoding.DecodeString\<close>: no padding.\<close>

definition rawDecode :: "string \<Rightarrow> string \<Rightarrow> nat list option" where
  "rawDecode al s = (case those (map (indexOf al) (noNewlines s)) of None \<Rightarrow> None | Some xs \<Rightarrow> fromSextets xs)"

text \<open>\<open>StdEncoding.DecodeString\<close>: whole quanta, the last one padded.\<close>

definition stdDecode :: "string \<Rightarrow> nat list option" where
  "stdDecode s0 =
     (let s = noNewlines s0; body = takeWhile (\<lambda>c. c \<noteq> CHR ''='') s; rest = dropWhile (\<lambda>c. c \<noteq> CHR ''='') s
      in if length s mod 4 = 0 \<and> length body mod 4 \<noteq> 1 \<and> rest \<in> {[], ''='', ''==''}
         then rawDecode stdAlphabet body else None)"

section \<open>The stamp\<close>

definition bytesOf :: "string \<Rightarrow> nat list" where
  "bytesOf s = map of_char s"

definition xorTruncate :: "nat list \<Rightarrow> nat list \<Rightarrow> nat list" where
  "xorTruncate a b = map (\<lambda>(x, y). x XOR y) (zip a b)"

definition cfbBase64 :: string where
  "cfbBase64 = ''RFtoRq/vDXJmRndoZaZQyfOot7OrIqGVFj96iY2WL3yyH5Z/pUvlUhqmCxD2t+D65SQ=''"

definition appID :: string where
  "appID = ''014d2225-8495-4735-812d-2616334fd15d''"

text \<open>The stamp of a time, given in nanoseconds.\<close>

definition stampRaw :: "int \<Rightarrow> string" where
  "stampRaw now = appID @ '':'' @ itoa (now div 1000000000)"

definition stamp :: "int \<Rightarrow> gerr + string" where
  "stamp now =
     (case stdDecode cfbBase64 of
        None \<Rightarrow> Inl (Wrapped ''decode CFB constant'' (LibErr ''illegal base64 data''))
      | Some cfb \<Rightarrow> Inr (b64Encode stdAlphabet True (xorTruncate cfb (bytesOf (stampRaw now)))))"

section \<open>The public key\<close>

record rsa_jwk =
  jwkKid :: string
  jwkN :: string
  jwkE :: string

record rsa_key =
  rsaN :: nat
  rsaE :: nat

definition base64URLDecode :: "string \<Rightarrow> gerr + nat list" where
  "base64URLDecode s =
     (case rawDecode urlAlphabet (trimRight (CHR ''='') s) of
        None \<Rightarrow> Inl (LibErr ''illegal base64 data'') | Some bs \<Rightarrow> Inr bs)"

text \<open>\<open>big.Int\<close>: \<open>SetBytes\<close> and \<open>Bytes\<close>, big-endian.\<close>

definition setBytes :: "nat list \<Rightarrow> nat" where
  "setBytes bs = foldl (\<lambda>n b. n * 256 + b) 0 bs"

fun bigBytes :: "nat \<Rightarrow> nat list" where
  "bigBytes n = (if n = 0 then [] else bigBytes (n div 256) @ [n mod 256])"

declare bigBytes.simps [simp del]

definition jwkToRSAPublicKey :: "rsa_jwk \<Rightarrow> gerr + rsa_key" where
  "jwkToRSAPublicKey jwk =
     (case base64URLDecode (jwkN jwk) of
        Inl e \<Rightarrow> Inl (Wrapped ''decode JWK modulus'' e)
      | Inr nBytes \<Rightarrow>
          (case base64URLDecode (jwkE jwk) of
             Inl e \<Rightarrow> Inl (Wrapped ''decode JWK exponent'' e)
           | Inr eBytes \<Rightarrow>
               if nBytes = [] \<or> eBytes = [] then Inl (Err ''JWK missing modulus or exponent'')
               else let n = setBytes nBytes; e = setBytes eBytes
                    in if e \<ge> 2 ^ 63 \<or> e > 2 ^ 31 - 1 then Inl (Err ''JWK exponent out of range'')
                       else Inr \<lparr>rsaN = n, rsaE = e\<rparr>))"

section \<open>Facts\<close>

definition isBytes :: "nat list \<Rightarrow> bool" where
  "isBytes bs \<longleftrightarrow> list_all (\<lambda>b. b < 256) bs"

lemma isBytes_simps [simp]: "isBytes []" "isBytes (b # bs) \<longleftrightarrow> b < 256 \<and> isBytes bs"
  "isBytes (xs @ ys) \<longleftrightarrow> isBytes xs \<and> isBytes ys"
  by (simp_all add: isBytes_def)

lemma alphabets: "length stdAlphabet = 64" "distinct stdAlphabet" "length urlAlphabet = 64" "distinct urlAlphabet"
  "set stdAlphabet \<inter> {CHR ''='', CHR 0x0A, CHR 0x0D} = {}" "set urlAlphabet \<inter> {CHR ''='', CHR 0x0A, CHR 0x0D} = {}"
  by code_simp+

lemma indexOf_nth: "distinct al \<Longrightarrow> i < length al \<Longrightarrow> indexOf al (al ! i) = Some i"
proof (induction al arbitrary: i)
  case (Cons x al)
  show ?case
  proof (cases i)
    case (Suc k)
    then have "al ! k \<in> set al" using Cons.prems by simp
    with Cons Suc show ?thesis by auto
  qed simp
qed simp

text \<open>The sextets an encoder writes.\<close>

fun toSextets :: "nat list \<Rightarrow> nat list" where
  "toSextets [] = []"
| "toSextets [a] = [a div 4, a mod 4 * 16]"
| "toSextets [a, b] = [a div 4, a mod 4 * 16 + b div 16, b mod 16 * 4]"
| "toSextets (a # b # c # r) =
     [a div 4, a mod 4 * 16 + b div 16, b mod 16 * 4 + c div 64, c mod 64] @ toSextets r"

lemma toSextets_range: "isBytes bs \<Longrightarrow> list_all (\<lambda>x. x < 64) (toSextets bs)"
proof (induction bs rule: toSextets.induct)
  case (4 a b c r)
  then have "a div 4 < 64" "b div 16 < 16" "c div 64 < 4" by (simp_all add: less_mult_imp_div_less)
  with 4 show ?case by (auto simp: less_mult_imp_div_less)
next
  case (3 a b)
  then have "a div 4 < 64" "b div 16 < 16" by (simp_all add: less_mult_imp_div_less)
  then show ?case by auto
qed (auto simp: less_mult_imp_div_less)

lemma fromSextets_toSextets: "isBytes bs \<Longrightarrow> fromSextets (toSextets bs) = Some bs"
proof (induction bs rule: toSextets.induct)
  case (4 a b c r)
  then have "b div 16 < 16" "c div 64 < 4" by (simp_all add: less_mult_imp_div_less)
  with 4 show ?case by (simp add: div_mult2_eq)
next
  case (3 a b)
  then have "b div 16 < 16" by (simp add: less_mult_imp_div_less)
  then show ?case by simp
qed auto

lemma b64Encode_raw: "b64Encode al False bs = map ((!) al) (toSextets bs)"
  by (induction bs rule: toSextets.induct) simp_all

lemma noNewlines_id: "(\<And>c. c \<in> set s \<Longrightarrow> c \<noteq> CHR 0x0A \<and> c \<noteq> CHR 0x0D) \<Longrightarrow> noNewlines s = s"
  by (simp add: noNewlines_def filter_id_conv)

lemma span_at:
  assumes "\<And>c. c \<in> set m \<Longrightarrow> c \<noteq> e" and "p = [] \<or> hd p = e"
  shows "takeWhile (\<lambda>c. c \<noteq> e) (m @ p) = m \<and> dropWhile (\<lambda>c. c \<noteq> e) (m @ p) = p"
  using assms by (induction m) (cases p; simp)+

lemma rawDecode_sextets:
  assumes "distinct al" "length al = 64" "set al \<inter> {CHR ''='', CHR 0x0A, CHR 0x0D} = {}"
    and "list_all (\<lambda>x. x < 64) xs"
  shows "rawDecode al (map ((!) al) xs) = fromSextets xs"
proof -
  have mem: "al ! x \<in> set al" if "x \<in> set xs" for x using that assms(2,4) by (simp add: list_all_iff)
  have "noNewlines (map ((!) al) xs) = map ((!) al) xs"
  proof (rule noNewlines_id)
    fix c
    assume "c \<in> set (map ((!) al) xs)"
    then have "c \<in> set al" using mem by auto
    then show "c \<noteq> CHR 0x0A \<and> c \<noteq> CHR 0x0D" using assms(3) by blast
  qed
  moreover have "those (map (indexOf al) (map ((!) al) xs)) = Some xs"
    using assms(4) by (induction xs) (auto simp: indexOf_nth assms(1,2))
  ultimately show ?thesis by (simp add: rawDecode_def)
qed

lemma rawDecode_encode: "isBytes bs \<Longrightarrow> rawDecode urlAlphabet (b64Encode urlAlphabet False bs) = Some bs"
  by (simp add: b64Encode_raw rawDecode_sextets alphabets toSextets_range fromSextets_toSextets)

lemma toSextets_length: "length (toSextets bs) mod 4 \<noteq> 1"
  by (induction bs rule: toSextets.induct) (simp_all add: mod_Suc)

lemma b64Encode_length: "length (b64Encode al True bs) mod 4 = 0"
  by (induction bs rule: toSextets.induct) simp_all

lemma b64Encode_padded:
  "\<exists>p. b64Encode al True bs = map ((!) al) (toSextets bs) @ p \<and> p \<in> {[], ''='', ''==''}"
  by (induction bs rule: toSextets.induct) auto

lemma stdDecode_encode:
  assumes "isBytes bs"
  shows "stdDecode (b64Encode stdAlphabet True bs) = Some bs"
proof -
  let ?m = "map ((!) stdAlphabet) (toSextets bs)"
  obtain p where "b64Encode stdAlphabet True bs = ?m @ p \<and> p \<in> {[], ''='', ''==''}"
    using b64Encode_padded by (rule exE)
  then have p: "b64Encode stdAlphabet True bs = ?m @ p" "p \<in> {[], ''='', ''==''}"
    "length (?m @ p) mod 4 = 0" using b64Encode_length [of stdAlphabet bs] by simp_all
  have r: "list_all (\<lambda>x. x < 64) (toSextets bs)" using assms by (rule toSextets_range)
  have mem: "c \<in> set stdAlphabet" if "c \<in> set ?m" for c
    using that r alphabets(1) by (auto simp: list_all_iff)
  have ne: "c \<noteq> CHR ''='' \<and> c \<noteq> CHR 0x0A \<and> c \<noteq> CHR 0x0D" if "c \<in> set ?m" for c
    using mem [OF that] alphabets(5) by blast
  have nl: "noNewlines (?m @ p) = ?m @ p"
    using ne p(2) by (intro noNewlines_id) auto
  have "takeWhile (\<lambda>c. c \<noteq> CHR ''='') (?m @ p) = ?m" "dropWhile (\<lambda>c. c \<noteq> CHR ''='') (?m @ p) = p"
    using span_at [of ?m "CHR ''=''" p] ne p(2) by auto
  moreover have "rawDecode stdAlphabet ?m = Some bs"
    by (simp only: rawDecode_sextets [OF alphabets(2,1,5) r] fromSextets_toSextets [OF assms])
  moreover have "length ?m mod 4 \<noteq> 1" using toSextets_length by simp
  ultimately show ?thesis using p(2,3) unfolding p(1) stdDecode_def nl Let_def by simp
qed

lemma xor_byte: "a < 256 \<Longrightarrow> b < 256 \<Longrightarrow> a XOR b < 256" for a b :: nat
  using take_bit_nat_less_exp [of 8 "a XOR b"] by (simp add: take_bit_nat_eq_self)

lemma isBytes_xor: "isBytes a \<Longrightarrow> isBytes b \<Longrightarrow> isBytes (xorTruncate a b)"
  by (induction a b rule: list_induct2') (simp_all add: xorTruncate_def xor_byte)

lemma xorTruncate_length [simp]: "length (xorTruncate a b) = min (length a) (length b)"
  by (simp add: xorTruncate_def)

lemma xorTruncate_again: "length b \<le> length a \<Longrightarrow> xorTruncate a (xorTruncate a b) = b"
proof (induction a b rule: list_induct2')
  case (4 x xs y ys)
  have "x XOR (x XOR y) = y" by (simp flip: xor.assoc)
  with 4 show ?case by (simp add: xorTruncate_def)
qed (simp_all add: xorTruncate_def)

lemma isBytes_bytesOf [simp]: "isBytes (bytesOf s)"
  by (induction s) (simp_all add: bytesOf_def)

lemma bytesOf_inj: "map char_of (bytesOf s) = s"
  by (induction s) (simp_all add: bytesOf_def)

lemma cfb_check: "(case stdDecode cfbBase64 of Some cfb \<Rightarrow> length cfb = 50 \<and> isBytes cfb | None \<Rightarrow> False)"
  by code_simp

lemma cfb_bytes: "\<exists>cfb. stdDecode cfbBase64 = Some cfb \<and> length cfb = 50 \<and> isBytes cfb"
  using cfb_check by (cases "stdDecode cfbBase64") simp_all

lemma setBytes_snoc: "setBytes (bs @ [b]) = setBytes bs * 256 + b"
  by (simp add: setBytes_def)

lemma setBytes_bigBytes: "setBytes (bigBytes n) = n"
proof (induction n rule: bigBytes.induct)
  case (1 n)
  then show ?case by (subst bigBytes.simps) (auto simp: setBytes_snoc setBytes_def div_mult_mod_eq)
qed

lemma bigBytes_bytes: "isBytes (bigBytes n)"
proof (induction n rule: bigBytes.induct)
  case (1 n)
  then show ?case by (subst bigBytes.simps) simp
qed

lemma bigBytes_nonempty: "n \<noteq> 0 \<Longrightarrow> bigBytes n \<noteq> []"
  by (subst bigBytes.simps) simp

lemma trimRight_last: "s = [] \<or> last s \<noteq> c \<Longrightarrow> trimRight c s = s"
  by (cases s rule: rev_cases) (auto simp: trimRight_def)

lemma trimRight_b64: "isBytes bs \<Longrightarrow> trimRight (CHR ''='') (b64Encode urlAlphabet False bs) = b64Encode urlAlphabet False bs"
proof (rule trimRight_last)
  assume "isBytes bs"
  then have r: "list_all (\<lambda>x. x < 64) (toSextets bs)" by (rule toSextets_range)
  have "c \<noteq> CHR ''=''" if "c \<in> set (map ((!) urlAlphabet) (toSextets bs))" for c
    using that r alphabets(3,6) by (auto simp: list_all_iff) (metis nth_mem)
  then show "b64Encode urlAlphabet False bs = [] \<or> last (b64Encode urlAlphabet False bs) \<noteq> CHR ''=''"
    unfolding b64Encode_raw using last_in_set by blast
qed

lemma base64URL_roundtrip: "isBytes bs \<Longrightarrow> base64URLDecode (b64Encode urlAlphabet False bs) = Inr bs"
  by (simp add: base64URLDecode_def trimRight_b64 rawDecode_encode)

section \<open>Properties\<close>

text \<open>C29: The stamp can be checked by the server: building it never fails, and decoding it and
  XOR-ing it with the key bytes gives back the application id and the Unix time of the request,
  in full, for every time up to 13 digits.\<close>

theorem stamp_roundtrip:
  assumes "length (itoa (now div 1000000000)) \<le> 13"
  shows "case (stamp now, stdDecode cfbBase64) of
      (Inr st, Some cfb) \<Rightarrow>
        (case stdDecode st of Some bs \<Rightarrow> map char_of (xorTruncate cfb bs) = stampRaw now | None \<Rightarrow> False)
    | _ \<Rightarrow> False"
proof -
  obtain cfb where cfb: "stdDecode cfbBase64 = Some cfb" "length cfb = 50" "isBytes cfb" using cfb_bytes by blast
  have "length (stampRaw now) \<le> 50" using assms by (simp add: stampRaw_def appID_def)
  then have "xorTruncate cfb (xorTruncate cfb (bytesOf (stampRaw now))) = bytesOf (stampRaw now)"
    using cfb(2) by (intro xorTruncate_again) (simp add: bytesOf_def)
  moreover have "stdDecode (b64Encode stdAlphabet True (xorTruncate cfb (bytesOf (stampRaw now)))) =
      Some (xorTruncate cfb (bytesOf (stampRaw now)))"
    using cfb(3) by (intro stdDecode_encode isBytes_xor) simp_all
  ultimately show ?thesis using cfb(1) by (simp add: stamp_def bytesOf_inj)
qed

theorem stamp_roundtrip_witness:
  "case stdDecode cfbBase64 of Some cfb \<Rightarrow>
     (case stdDecode (projr (stamp 1783665000000000000)) of
        Some bs \<Rightarrow> map char_of (xorTruncate cfb bs) = stampRaw 1783665000000000000 | None \<Rightarrow> False)
   | None \<Rightarrow> False"
proof -
  have "length (itoa (1783665000000000000 div 1000000000)) \<le> 13" by (simp add: itoa_def natDigits.simps)
  note rt = stamp_roundtrip [OF this]
  show ?thesis
  proof (cases "stdDecode cfbBase64")
    case None
    with rt show ?thesis by (cases "stamp 1783665000000000000") simp_all
  next
    case (Some cfb)
    with rt show ?thesis by (cases "stamp 1783665000000000000") simp_all
  qed
qed

text \<open>C30: The key the certificates endpoint announces is the key the client encrypts with: encoding a
  modulus and an exponent as a JWK and converting it gives them back, and an exponent of 2 ^ 31
  or more is refused.\<close>

theorem jwk_roundtrip:
  assumes "0 < n" and "0 < e"
  shows "jwkToRSAPublicKey \<lparr>jwkKid = kid, jwkN = b64Encode urlAlphabet False (bigBytes n),
      jwkE = b64Encode urlAlphabet False (bigBytes e)\<rparr> =
    (if e < 2 ^ 31 then Inr \<lparr>rsaN = n, rsaE = e\<rparr> else Inl (Err ''JWK exponent out of range''))"
  using assms by (simp add: jwkToRSAPublicKey_def base64URL_roundtrip bigBytes_bytes bigBytes_nonempty
      setBytes_bigBytes)

theorem jwk_roundtrip_witness:
  "jwkToRSAPublicKey \<lparr>jwkKid = ''mock-kid'', jwkN = b64Encode urlAlphabet False (bigBytes 3233),
      jwkE = b64Encode urlAlphabet False (bigBytes 65537)\<rparr> = Inr \<lparr>rsaN = 3233, rsaE = 65537\<rparr>"
  using jwk_roundtrip [of 3233 65537 "''mock-kid''"] by simp

end
