(* ===== verification/HomeAssistant.thy ===== *)
theory HomeAssistant
  imports Json GoFmt
begin

text \<open>
  \<open>internal/homeassistant\<close>: the entity catalogue, the topics of a vehicle and the discovery
  messages. A payload is a JSON document or a text; the members of a marshalled Go map, whose
  order \<open>encoding/json\<close> fixes by sorting, are listed here in the order the code assigns them.
\<close>

section \<open>Entities\<close>

datatype component = Sensor | BinarySensor | DeviceTracker

primrec componentName :: "component \<Rightarrow> string" where
  "componentName Sensor = ''sensor''"
| "componentName BinarySensor = ''binary_sensor''"
| "componentName DeviceTracker = ''device_tracker''"

record entity =
  eComponent :: component
  eKey :: string
  eName :: string
  eDeviceClass :: string
  eStateClass :: string
  eUnit :: string
  eCategory :: string
  eInvertBool :: bool

definition entity0 :: "component \<Rightarrow> string \<Rightarrow> string \<Rightarrow> string \<Rightarrow> entity" where
  "entity0 c k n dc = \<lparr>eComponent = c, eKey = k, eName = n, eDeviceClass = dc, eStateClass = [],
     eUnit = [], eCategory = [], eInvertBool = False\<rparr>"

definition sensorEntity :: "string \<Rightarrow> string \<Rightarrow> string \<Rightarrow> string \<Rightarrow> string \<Rightarrow> string \<Rightarrow> entity" where
  "sensorEntity k n dc sc u cat = \<lparr>eComponent = Sensor, eKey = k, eName = n, eDeviceClass = dc,
     eStateClass = sc, eUnit = u, eCategory = cat, eInvertBool = False\<rparr>"

definition celsius :: string where
  "celsius = [CHR 0xC2, CHR 0xB0, CHR ''C'']"

definition entities :: "string \<Rightarrow> entity list" where
  "entities distanceUnit' =
     (let u = (if distanceUnit' = '''' then ''km'' else distanceUnit') in
      [sensorEntity ''ev_battery_percentage'' ''Battery'' ''battery'' ''measurement'' ''%'' '''',
       sensorEntity ''ev_range'' ''Range'' ''distance'' ''measurement'' u '''',
       sensorEntity ''charging_power'' ''Charging power'' ''power'' ''measurement'' ''kW'' '''',
       sensorEntity ''battery_12v'' ''12V battery'' ''battery'' ''measurement'' ''%'' ''diagnostic'',
       sensorEntity ''odometer'' ''Odometer'' ''distance'' ''total'' u '''',
       sensorEntity ''charge_limit_ac'' ''AC charge limit'' '''' ''measurement'' ''%'' ''diagnostic'',
       sensorEntity ''charge_limit_dc'' ''DC charge limit'' '''' ''measurement'' ''%'' ''diagnostic'',
       sensorEntity ''est_charge_time'' ''Charge time remaining'' ''duration'' ''measurement'' ''min'' '''',
       sensorEntity ''outside_temp'' ''Outside temperature'' ''temperature'' ''measurement'' celsius '''',
       sensorEntity ''ev_battery_soh'' ''Battery health'' '''' ''measurement'' ''%'' ''diagnostic'',
       sensorEntity ''last_updated'' ''Last updated'' ''timestamp'' '''' '''' ''diagnostic'',
       entity0 BinarySensor ''charging'' ''Charging'' ''battery_charging'',
       entity0 BinarySensor ''plugged_in'' ''Plugged in'' ''plug'',
       (entity0 BinarySensor ''locked'' ''Doors'' ''lock'')\<lparr>eInvertBool := True\<rparr>,
       entity0 BinarySensor ''tire_warning'' ''Tire pressure'' ''problem'',
       (entity0 BinarySensor ''charge_port_door'' ''Charge port'' ''door'')\<lparr>eCategory := ''diagnostic''\<rparr>,
       entity0 DeviceTracker ''location'' ''Location'' ''''])"

section \<open>Topics\<close>

record ha_config =
  haDiscoveryPrefix :: string
  haTopicPrefix :: string
  haVIN :: string
  haModel :: string
  haName :: string
  haDistanceUnit :: string

definition baseTopic :: "ha_config \<Rightarrow> string" where
  "baseTopic c = haTopicPrefix c @ ''/'' @ haVIN c"

definition stateTopic :: "ha_config \<Rightarrow> string" where
  "stateTopic c = baseTopic c @ ''/state''"

definition availabilityTopic :: "ha_config \<Rightarrow> string" where
  "availabilityTopic c = baseTopic c @ ''/availability''"

definition trackerStateTopic :: "ha_config \<Rightarrow> string" where
  "trackerStateTopic c = baseTopic c @ ''/tracker/state''"

definition trackerAttributesTopic :: "ha_config \<Rightarrow> string" where
  "trackerAttributesTopic c = baseTopic c @ ''/tracker/attributes''"

section \<open>Templates\<close>

definition unknownGuardedTemplate :: "string \<Rightarrow> string \<Rightarrow> string" where
  "unknownGuardedTemplate key expr =
     ''{{ '' @ expr @ '' if value_json.'' @ key @ '' is defined and value_json.'' @ key @
     '' is not none else '' @ [CHR 0x27] @ ''None'' @ [CHR 0x27] @ '' }}''"

definition binarySensorTemplate :: "string \<Rightarrow> bool \<Rightarrow> string" where
  "binarySensorTemplate key invert =
     (let on = (if invert then ''OFF'' else ''ON''); off = (if invert then ''ON'' else ''OFF'')
      in unknownGuardedTemplate key
           (''('' @ [CHR 0x27] @ on @ [CHR 0x27] @ '' if value_json.'' @ key @ '' else '' @
            [CHR 0x27] @ off @ [CHR 0x27] @ '')''))"

section \<open>Discovery messages\<close>

datatype payload = Doc json | Text string

type_synonym message = "string \<times> payload"

definition modelOrDefault :: "string \<Rightarrow> string" where
  "modelOrDefault m = (if m = '''' then ''Inster'' else m)"

definition nameOrDefault :: "string \<Rightarrow> string" where
  "nameOrDefault n = (if n = '''' then ''Hyundai Inster'' else n)"

definition deviceBlock :: "ha_config \<Rightarrow> json" where
  "deviceBlock c =
     JObj [(''identifiers'', JArr [JStr (haVIN c)]), (''manufacturer'', JStr ''Hyundai''),
           (''model'', JStr (modelOrDefault (haModel c))), (''name'', JStr (nameOrDefault (haName c)))]"

definition optField :: "string \<Rightarrow> string \<Rightarrow> gomap" where
  "optField k v = (if v = '''' then [] else [(k, JStr v)])"

definition buildEntityPayload :: "ha_config \<Rightarrow> entity \<Rightarrow> json \<Rightarrow> gomap" where
  "buildEntityPayload c e device =
     (let uniq = haVIN c @ ''_'' @ eKey e in
      [(''~'', JStr (baseTopic c)), (''name'', JStr (eName e)), (''unique_id'', JStr uniq),
       (''object_id'', JStr uniq), (''availability_topic'', JStr ''~/availability''),
       (''payload_available'', JStr ''online''), (''payload_not_available'', JStr ''offline''),
       (''device'', device)] @
      optField ''device_class'' (eDeviceClass e) @ optField ''state_class'' (eStateClass e) @
      optField ''unit_of_measurement'' (eUnit e) @ optField ''entity_category'' (eCategory e) @
      (case eComponent e of
         DeviceTracker \<Rightarrow>
           [(''state_topic'', JStr ''~/tracker/state''),
            (''json_attributes_topic'', JStr ''~/tracker/attributes''), (''source_type'', JStr ''gps'')]
       | BinarySensor \<Rightarrow>
           [(''state_topic'', JStr ''~/state''), (''payload_on'', JStr ''ON''), (''payload_off'', JStr ''OFF''),
            (''value_template'', JStr (binarySensorTemplate (eKey e) (eInvertBool e)))]
       | Sensor \<Rightarrow>
           [(''state_topic'', JStr ''~/state''),
            (''value_template'', JStr (unknownGuardedTemplate (eKey e) (''value_json.'' @ eKey e)))]))"

definition discoveryTopic :: "ha_config \<Rightarrow> entity \<Rightarrow> string" where
  "discoveryTopic c e =
     haDiscoveryPrefix c @ ''/'' @ componentName (eComponent e) @ ''/'' @ haVIN c @ ''_'' @ eKey e @ ''/config''"

text \<open>Marshalling these documents (strings only) cannot fail.\<close>

definition buildDiscovery :: "ha_config \<Rightarrow> message list" where
  "buildDiscovery c =
     map (\<lambda>e. (discoveryTopic c e, Doc (JObj (buildEntityPayload c e (deviceBlock c)))))
       (entities (haDistanceUnit c))"

section \<open>Facts\<close>

lemmas topic_defs = baseTopic_def stateTopic_def availabilityTopic_def trackerStateTopic_def
  trackerAttributesTopic_def discoveryTopic_def

lemma length_entities [simp]: "length (entities u) = 17"
  by (simp add: entities_def Let_def)

definition entityKeys :: "string list" where
  "entityKeys =
     [''ev_battery_percentage'', ''ev_range'', ''charging_power'', ''battery_12v'', ''odometer'',
      ''charge_limit_ac'', ''charge_limit_dc'', ''est_charge_time'', ''outside_temp'',
      ''ev_battery_soh'', ''last_updated'', ''charging'', ''plugged_in'', ''locked'', ''tire_warning'',
      ''charge_port_door'', ''location'']"

lemma entity_keys: "map eKey (entities u) = entityKeys"
  by (simp add: entities_def Let_def sensorEntity_def entity0_def entityKeys_def)

lemma distinct_entityKeys: "distinct entityKeys"
  by code_simp

text \<open>No component name contains a slash, so the component can be read off a topic.\<close>

lemma componentName_split:
  "componentName c @ CHR ''/'' # s = componentName c' @ CHR ''/'' # s' \<Longrightarrow> c = c' \<and> s = s'"
  by (cases c; cases c') simp_all

lemma discoveryTopic_inj:
  assumes "discoveryTopic c e = discoveryTopic c e'"
  shows "eKey e = eKey e'"
proof -
  have "componentName (eComponent e) @ CHR ''/'' # (haVIN c @ ''_'' @ eKey e @ ''/config'') =
        componentName (eComponent e') @ CHR ''/'' # (haVIN c @ ''_'' @ eKey e' @ ''/config'')"
    using assms by (simp add: discoveryTopic_def)
  from componentName_split [OF this] show ?thesis by simp
qed

lemma inj_on_entities: "inj_on eKey (set (entities u))" and distinct_entities: "distinct (entities u)"
  using distinct_entityKeys unfolding entity_keys [of u, symmetric] distinct_map by blast+

section \<open>Properties\<close>

text \<open>The discovery messages of a vehicle have pairwise distinct topics, one for each of the 17
  entities, and no two entities share a unique id.\<close>

theorem buildDiscovery_distinct:
  "distinct (map fst (buildDiscovery c)) \<and> length (buildDiscovery c) = 17
   \<and> distinct (map (\<lambda>e. haVIN c @ ''_'' @ eKey e) (entities (haDistanceUnit c)))"
proof -
  have "inj_on (discoveryTopic c) (set (entities u))" for u
    by (rule inj_onI, rule inj_onD [OF inj_on_entities [of u]]) (auto dest: discoveryTopic_inj)
  moreover have "inj_on (\<lambda>e. haVIN c @ ''_'' @ eKey e) (set (entities u))" for u
    by (rule inj_onI, rule inj_onD [OF inj_on_entities [of u]]) auto
  ultimately show ?thesis by (simp add: buildDiscovery_def comp_def distinct_map distinct_entities)
qed

end
