(* ===== verification/TokenStore.thy ===== *)
theory TokenStore
  imports Model TimeText
begin

text \<open>
  \<open>internal/bluelink/tokenstore.go\<close> and \<open>tokenstore_kube.go\<close>: the in-memory store, and the
  store kept in a Kubernetes Secret over the API of its client library. What the client relies
  on is the locale \<open>token_store\<close>; both stores satisfy it, the second under what the Kubernetes
  API documents of Get and Update.
\<close>

section \<open>Tokens as JSON\<close>

text \<open>Times are kept as instants; they are written in UTC.\<close>

definition marshalTokens :: "tokens \<Rightarrow> gerr + json" where
  "marshalTokens t = (case marshalTime \<lparr>tns = validUntil t, toff = 0\<rparr> of
      None \<Rightarrow> Inl (LibErr ''json: error calling MarshalJSON for type time.Time'')
    | Some v \<Rightarrow> Inr (JObj [(''access_token'', JStr (accessToken t)), (''refresh_token'', JStr (refreshToken t)),
                      (''device_id'', JStr (deviceID t)), (''valid_until'', JStr v)]))"

definition decTime :: "json \<Rightarrow> int option" where
  "decTime v = (case v of
      JStr s \<Rightarrow> map_option tns (parseLayout layoutRFC3339 s) | JNull \<Rightarrow> Some zeroTime | _ \<Rightarrow> None)"

definition unmarshalTokens :: "json \<Rightarrow> tokens option" where
  "unmarshalTokens = decStruct (\<lambda>kvs.
     case (decField decString [] kvs ''access_token'', decField decString [] kvs ''refresh_token'',
           decField decString [] kvs ''device_id'', decField decTime zeroTime kvs ''valid_until'') of
       (Some a, Some r, Some d, Some v) \<Rightarrow>
         Some \<lparr>accessToken = a, refreshToken = r, deviceID = d, validUntil = v\<rparr>
     | _ \<Rightarrow> None)"

section \<open>In memory\<close>

record memory_store =
  memTokens :: tokens
  memSet :: bool

definition newMemoryStore :: memory_store where
  "newMemoryStore = \<lparr>memTokens = tokens0, memSet = False\<rparr>"

definition memLoad :: "(memory_store, gerr, tokens option) op" where
  "memLoad m = (Inr (if memSet m then Some (memTokens m) else None), m)"

definition memSave :: "tokens \<Rightarrow> (memory_store, gerr, unit) op" where
  "memSave t m = (Inr (), m\<lparr>memTokens := t, memSet := True\<rparr>)"

section \<open>In a Kubernetes Secret\<close>

text \<open>The bytes under a key of a Secret: none, a JSON text, or something else.\<close>

datatype raw = RawEmpty | RawJson json | RawJunk

record secret =
  secName :: string
  secVersion :: nat
  secData :: "(string \<times> raw) list option"   \<comment> \<open>a nil map is \<open>None\<close>\<close>

text \<open>An error of the API, and whether \<open>IsConflict\<close> holds of it.\<close>

datatype kube_error = KubeError bool gerr

record 'k kube_api =
  kubeGet :: "string \<Rightarrow> string \<Rightarrow> ('k, kube_error, secret) op"
  kubeUpdate :: "string \<Rightarrow> secret \<Rightarrow> ('k, kube_error, secret) op"

record kube_store =
  ksNamespace :: string
  ksName :: string

definition tokenSecretKey :: string where
  "tokenSecretKey = ''tokens.json''"

primrec kubeErr :: "kube_error \<Rightarrow> gerr" where
  "kubeErr (KubeError c e) = e"

primrec isConflict :: "kube_error \<Rightarrow> bool" where
  "isConflict (KubeError c e) = c"

text \<open>\<open>NewKubeSecretStore\<close> after the in-cluster configuration and the client are built, and
  \<open>readNamespace\<close> on the content of its file.\<close>

definition readNamespace :: "gerr + string \<Rightarrow> gerr + string" where
  "readNamespace file = (case file of
      Inl e \<Rightarrow> Inl (Wrapped ''read serviceaccount namespace'' e)
    | Inr b \<Rightarrow> if trimSpace b = '''' then Inl (Err ''serviceaccount namespace is empty'') else Inr (trimSpace b))"

definition newKubeSecretStore :: "gerr + unit \<Rightarrow> gerr + unit \<Rightarrow> gerr + string \<Rightarrow> string \<Rightarrow> gerr + kube_store" where
  "newKubeSecretStore inClusterConfig newForConfig nsFile name =
     (if name = '''' then Inl (Err ''kube token store: secret name required'')
      else case inClusterConfig of Inl e \<Rightarrow> Inl (Wrapped ''kube in-cluster config'' e)
      | Inr _ \<Rightarrow> (case newForConfig of Inl e \<Rightarrow> Inl (Wrapped ''kube client'' e)
      | Inr _ \<Rightarrow> (case readNamespace nsFile of Inl e \<Rightarrow> Inl e
      | Inr ns \<Rightarrow> Inr \<lparr>ksNamespace = ns, ksName = name\<rparr>)))"

definition tokenBytes :: "secret \<Rightarrow> raw" where
  "tokenBytes sec = (case secData sec of None \<Rightarrow> RawEmpty
     | Some d \<Rightarrow> (case assoc d tokenSecretKey of None \<Rightarrow> RawEmpty | Some r \<Rightarrow> r))"

definition kubeLoad :: "'k kube_api \<Rightarrow> kube_store \<Rightarrow> ('k, gerr, tokens option) op" where
  "kubeLoad api k =
     bindOp (wrapErr (\<lambda>e. Wrapped ''get token secret'' (kubeErr e)) (kubeGet api (ksNamespace k) (ksName k)))
       (\<lambda>sec. case tokenBytes sec of
          RawEmpty \<Rightarrow> ret None
        | RawJunk \<Rightarrow> fail (Wrapped ''decode stored tokens'' (LibErr ''invalid character''))
        | RawJson j \<Rightarrow> (case unmarshalTokens j of
              None \<Rightarrow> fail (Wrapped ''decode stored tokens'' (LibErr ''json: cannot unmarshal''))
            | Some t \<Rightarrow> ret (Some t)))"

text \<open>The assignment \<open>sec.Data[tokenSecretKey] = raw\<close>, on a map made first when it is nil.\<close>

definition setToken :: "raw \<Rightarrow> secret \<Rightarrow> secret" where
  "setToken r sec =
     (let d = (case secData sec of None \<Rightarrow> [] | Some d \<Rightarrow> d)
      in sec\<lparr>secData := Some (filter (\<lambda>(k, v). k \<noteq> tokenSecretKey) d @ [(tokenSecretKey, r)])\<rparr>)"

text \<open>The loop over the two attempts; \<open>attempt\<close> is the index.\<close>

function kubeSaveLoop :: "'k kube_api \<Rightarrow> kube_store \<Rightarrow> raw \<Rightarrow> nat \<Rightarrow> ('k, gerr, unit) op" where
  "kubeSaveLoop api k r attempt w =
     (if 2 \<le> attempt then (Inl (Err ''update token secret: exhausted retries''), w)
      else case kubeGet api (ksNamespace k) (ksName k) w of
        (Inl e, w1) \<Rightarrow> (Inl (Wrapped ''get token secret for update'' (kubeErr e)), w1)
      | (Inr sec, w1) \<Rightarrow>
          (case kubeUpdate api (ksNamespace k) (setToken r sec) w1 of
             (Inr _, w2) \<Rightarrow> (Inr (), w2)
           | (Inl e, w2) \<Rightarrow>
               if isConflict e \<and> attempt = 0 then kubeSaveLoop api k r (attempt + 1) w2
               else (Inl (Wrapped ''update token secret'' (kubeErr e)), w2)))"
  by pat_completeness auto
termination
  by (relation "measure (\<lambda>(api, k, r, attempt, w). 2 - attempt)") auto

declare kubeSaveLoop.simps [simp del]

definition kubeSave :: "'k kube_api \<Rightarrow> kube_store \<Rightarrow> tokens \<Rightarrow> ('k, gerr, unit) op" where
  "kubeSave api k t =
     (case marshalTokens t of
        Inl e \<Rightarrow> fail (Wrapped ''encode tokens'' e)
      | Inr j \<Rightarrow> kubeSaveLoop api k (RawJson j) 0)"

section \<open>What the client relies on\<close>

locale token_store =
  fixes load :: "('s, gerr, tokens option) op" and save :: "tokens \<Rightarrow> ('s, gerr, unit) op"
    and stored :: "'s \<Rightarrow> tokens option"
  assumes load_stored: "load s = (Inr x, s') \<Longrightarrow> x = stored s"
    and load_frame: "load s = (r, s') \<Longrightarrow> stored s' = stored s"
    and save_stored: "save t s = (Inr (), s') \<Longrightarrow> stored s' = Some t"
    and save_failed: "save t s = (Inl e, s') \<Longrightarrow> stored s' = stored s \<or> stored s' = Some t"
begin

text \<open>A restart sees the tokens that were saved, however often they are loaded in between.\<close>

lemma load_after_save:
  "save t s = (Inr (), s1) \<Longrightarrow> load s1 = (Inr x, s2) \<Longrightarrow> x = Some t \<and> stored s2 = Some t"
  using save_stored load_stored load_frame by metis

lemma saved_is_stored: "save t s = (r, s') \<Longrightarrow> r = Inr () \<longrightarrow> stored s' = Some t"
  using save_stored by (cases r) auto

lemma save_outcomes: "save t s = (r, s') \<Longrightarrow> stored s' \<in> {stored s, Some t}"
  using save_stored save_failed by (cases r) auto

end

interpretation mem: token_store memLoad memSave "\<lambda>m. if memSet m then Some (memTokens m) else None"
  by unfold_locales (auto simp: memLoad_def memSave_def)

text \<open>The tokens kept in a Secret, \<open>object\<close> being the Secret of a world.\<close>

definition storedTokens :: "('k \<Rightarrow> secret) \<Rightarrow> 'k \<Rightarrow> tokens option" where
  "storedTokens object w = (case tokenBytes (object w) of RawJson j \<Rightarrow> unmarshalTokens j | _ \<Rightarrow> None)"

text \<open>
  What the Kubernetes API documents: a Get returns the stored object and changes nothing; an
  Update that succeeds stores the object it was given; one that fails (a conflict, say) may, on a
  lost reply, have been stored all the same.
\<close>

locale kube_secrets =
  fixes api :: "'k kube_api" and ks :: kube_store and object :: "'k \<Rightarrow> secret"
  assumes get_ok: "kubeGet api (ksNamespace ks) (ksName ks) w = (Inr sec, w') \<Longrightarrow> sec = object w"
    and get_frame: "kubeGet api (ksNamespace ks) (ksName ks) w = (r, w') \<Longrightarrow> object w' = object w"
    and update_ok: "kubeUpdate api (ksNamespace ks) sec w = (Inr u, w') \<Longrightarrow> tokenBytes (object w') = tokenBytes sec"
    and update_failed: "kubeUpdate api (ksNamespace ks) sec w = (Inl e, w') \<Longrightarrow>
          object w' = object w \<or> tokenBytes (object w') = tokenBytes sec"

section \<open>Facts\<close>

lemma fieldOf_tokens:
  "fieldOf [(''access_token'', a), (''refresh_token'', r), (''device_id'', d), (''valid_until'', v)] ''access_token'' = Some a"
  "fieldOf [(''access_token'', a), (''refresh_token'', r), (''device_id'', d), (''valid_until'', v)] ''refresh_token'' = Some r"
  "fieldOf [(''access_token'', a), (''refresh_token'', r), (''device_id'', d), (''valid_until'', v)] ''device_id'' = Some d"
  "fieldOf [(''access_token'', a), (''refresh_token'', r), (''device_id'', d), (''valid_until'', v)] ''valid_until'' = Some v"
  by (simp_all add: equalFold_def lower_def lowerc_def)

lemma unmarshal_marshal:
  assumes "marshalTokens t = Inr j"
  shows "unmarshalTokens j = Some t"
proof -
  obtain v where v: "marshalTime \<lparr>tns = validUntil t, toff = 0\<rparr> = Some v"
    "j = JObj [(''access_token'', JStr (accessToken t)), (''refresh_token'', JStr (refreshToken t)),
               (''device_id'', JStr (deviceID t)), (''valid_until'', JStr v)]"
    using assms by (auto simp: marshalTokens_def split: option.splits)
  have "parseLayout layoutRFC3339 v = Some \<lparr>tns = validUntil t, toff = 0\<rparr>"
    using parse_marshal_utc [OF _ v(1)] by simp
  then show ?thesis
    by (simp add: v(2) unmarshalTokens_def decStruct_def decField_def fieldOf_tokens decString_def decTime_def
        del: fieldOf.simps)
qed

lemma tokenBytes_setToken [simp]: "tokenBytes (setToken r sec) = r"
  by (simp add: tokenBytes_def setToken_def Let_def)

context kube_secrets
begin

lemma get_cases:
  "kubeGet api (ksNamespace ks) (ksName ks) w = (r, w') \<Longrightarrow>
    object w' = object w \<and> (case r of Inr sec \<Rightarrow> sec = object w | Inl e \<Rightarrow> True)"
  using get_ok get_frame by (cases r) auto

lemma kubeLoad_stored: "kubeLoad api ks w = (Inr x, w') \<Longrightarrow> x = storedTokens object w"
  by (auto simp: kubeLoad_def bindOp_def wrapErr_def storedTokens_def dest!: get_cases
      split: prod.splits sum.splits raw.splits option.splits)

lemma kubeLoad_frame: "kubeLoad api ks w = (r, w') \<Longrightarrow> object w' = object w"
  by (auto simp: kubeLoad_def bindOp_def wrapErr_def dest!: get_cases
      split: prod.splits sum.splits raw.splits option.splits)

lemma kubeSaveLoop_second:
  assumes "n \<noteq> 0" and "kubeSaveLoop api ks r n w = (x, w')"
  shows "(case x of Inr u \<Rightarrow> tokenBytes (object w') = r | Inl e \<Rightarrow> object w' = object w \<or> tokenBytes (object w') = r)"
  using assms
  by (subst (asm) kubeSaveLoop.simps)
     (auto split: prod.splits sum.splits if_splits dest!: get_cases update_failed dest: update_ok)

lemma kubeSaveLoop_outcome:
  assumes "kubeSaveLoop api ks r 0 w = (x, w')"
  shows "(case x of Inr u \<Rightarrow> tokenBytes (object w') = r | Inl e \<Rightarrow> object w' = object w \<or> tokenBytes (object w') = r)"
  using assms
  by (subst (asm) kubeSaveLoop.simps)
     (auto split: prod.splits sum.splits if_splits dest!: get_cases update_failed kubeSaveLoop_second [rotated]
       dest: update_ok)

lemma kubeSaveLoop_ok: "kubeSaveLoop api ks r 0 w = (Inr (), w') \<Longrightarrow> tokenBytes (object w') = r"
  using kubeSaveLoop_outcome [of r w "Inr ()" w'] by simp

lemma kubeSaveLoop_failed:
  "kubeSaveLoop api ks r 0 w = (Inl e, w') \<Longrightarrow> object w' = object w \<or> tokenBytes (object w') = r"
  using kubeSaveLoop_outcome [of r w "Inl e" w'] by simp

lemma kubeSave_stored: "kubeSave api ks t w = (Inr (), w') \<Longrightarrow> storedTokens object w' = Some t"
  by (auto simp: kubeSave_def storedTokens_def split: sum.splits dest!: kubeSaveLoop_ok unmarshal_marshal)

lemma kubeSave_failed: "kubeSave api ks t w = (Inl e, w') \<Longrightarrow> storedTokens object w' = storedTokens object w \<or> storedTokens object w' = Some t"
  by (auto simp: kubeSave_def storedTokens_def split: sum.splits dest!: kubeSaveLoop_failed unmarshal_marshal)

end

sublocale kube_secrets \<subseteq> token_store "kubeLoad api ks" "kubeSave api ks" "storedTokens object"
proof unfold_locales
  show "x = storedTokens object s" if "kubeLoad api ks s = (Inr x, s')" for s x s' using that by (rule kubeLoad_stored)
  show "storedTokens object s' = storedTokens object s" if "kubeLoad api ks s = (r, s')" for s r s'
    using kubeLoad_frame [OF that] by (simp add: storedTokens_def)
qed (rule kubeSave_stored kubeSave_failed; assumption)+

text \<open>An API server that keeps one Secret under optimistic concurrency: it meets the contract.\<close>

definition etcdGet :: "string \<Rightarrow> string \<Rightarrow> (secret, kube_error, secret) op" where
  "etcdGet ns name obj =
     (if secName obj = name then (Inr obj, obj) else (Inl (KubeError False (LibErr ''not found'')), obj))"

definition etcdUpdate :: "string \<Rightarrow> secret \<Rightarrow> (secret, kube_error, secret) op" where
  "etcdUpdate ns sec obj =
     (if secVersion sec \<noteq> secVersion obj then (Inl (KubeError True (LibErr ''conflict'')), obj)
      else let new = sec\<lparr>secVersion := secVersion obj + 1\<rparr> in (Inr new, new))"

definition etcdApi :: "secret kube_api" where
  "etcdApi = \<lparr>kubeGet = etcdGet, kubeUpdate = etcdUpdate\<rparr>"

interpretation etcd: kube_secrets etcdApi ks "\<lambda>obj. obj" for ks
  by unfold_locales
     (auto simp: etcdApi_def etcdGet_def etcdUpdate_def tokenBytes_def Let_def split: if_splits)

section \<open>Properties\<close>

text \<open>C25: Tokens survive a restart: what was saved in the Secret is what the next successful load
  returns, field by field, and a failed save leaves the old tokens or the new ones, never anything
  else, provided the API stores what a successful Update was given and Get returns it.\<close>

theorem kube_store_roundtrip:
  assumes "kube_secrets api ks object" and "kubeSave api ks t w = (r, w1)" and "kubeLoad api ks w1 = (Inr x, w2)"
  shows "(case r of Inr u \<Rightarrow> x = Some t | Inl e \<Rightarrow> x \<in> {storedTokens object w, Some t})"
proof -
  have "x = storedTokens object w1"
    using kube_secrets.kubeLoad_stored [OF assms(1,3)] .
  with kube_secrets.kubeSave_stored [OF assms(1)] kube_secrets.kubeSave_failed [OF assms(1)] assms(2)
  show ?thesis by (cases r) auto
qed

theorem kube_store_roundtrip_witness:
  "\<exists>w1. kubeSave etcdApi \<lparr>ksNamespace = ''home'', ksName = ''tokens''\<rparr> tokens0
      \<lparr>secName = ''tokens'', secVersion = 7, secData = None\<rparr> = (Inr (), w1)
    \<and> fst (kubeLoad etcdApi \<lparr>ksNamespace = ''home'', ksName = ''tokens''\<rparr> w1) = Inr (Some tokens0)"
proof -
  define ks where "ks = \<lparr>ksNamespace = ''home'', ksName = ''tokens''\<rparr>"
  define obj where "obj = \<lparr>secName = ''tokens'', secVersion = 7, secData = None\<rparr>"
  have "marshalTime \<lparr>tns = zeroTime, toff = 0\<rparr> \<noteq> None" by code_simp
  then obtain j where j: "marshalTokens tokens0 = Inr j"
    by (auto simp: marshalTokens_def tokens0_def)
  obtain w1 where w1: "kubeSave etcdApi ks tokens0 obj = (Inr (), w1)" "secName w1 = ''tokens''"
    by (simp add: kubeSave_def j kubeSaveLoop.simps etcdApi_def etcdGet_def etcdUpdate_def obj_def ks_def
        setToken_def Let_def)
  have bytes: "tokenBytes w1 = RawJson j"
    using etcd.kubeSaveLoop_ok w1(1) by (simp add: kubeSave_def j)
  have "kubeLoad etcdApi ks w1 = (Inr (Some tokens0), w1)"
    using w1(2) unmarshal_marshal [OF j]
    by (simp add: kubeLoad_def bindOp_def wrapErr_def etcdApi_def etcdGet_def ks_def bytes)
  with kube_store_roundtrip [OF etcd.kube_secrets_axioms w1(1) this] w1(1) show ?thesis
    unfolding ks_def obj_def by auto
qed

end
