(* ===== verification/Http.thy ===== *)
theory Http
  imports Crypto HomeAssistant TokenStore
begin

text \<open>
  The vocabulary of the Bluelink client (\<open>internal/bluelink/client.go\<close>, \<open>auth.go\<close>,
  \<open>constants.go\<close>): requests and responses, what the client is given (the HTTP transport, the
  clock, randomness, RSA encryption, URL parsing and the token store) as the record \<open>net\<close> over a
  world \<open>'w\<close>, the client's configuration and its state. \<open>tnet\<close> logs the requests of any \<open>net\<close>.
  A request whose URL does not parse fails in the transport here, with the same outcome.
\<close>

section \<open>Constants\<close>

definition defaultLoginHost :: string where "defaultLoginHost = ''https://idpconnect-eu.hyundai.com''"
definition defaultSPABase :: string where "defaultSPABase = ''https://prd.eu-ccapi.hyundai.com:8080''"
definition spaAPIPath :: string where "spaAPIPath = ''/api/v1/spa/''"
definition userAPIPath :: string where "userAPIPath = ''/api/v1/user/''"
definition ccspServiceID :: string where "ccspServiceID = ''6d477c38-3ca4-4cf3-9557-2a1929a94654''"
definition clientSecret :: string where "clientSecret = ''KUy49XxPzLpLuoK0xhBC77W6VXhmtQR9iQhmIFjjoY4IpxsV''"
definition pushType :: string where "pushType = ''GCM''"
definition userAgentOkHTTP :: string where "userAgentOkHTTP = ''okhttp/3.12.0''"
definition userAgentLoginForm :: string where
  "userAgentLoginForm =
     ''Mozilla/5.0 (Linux; Android 4.1.1; Galaxy Nexus Build/JRO03C) '' @
     ''AppleWebKit/535.19 (KHTML, like Gecko) Chrome/18.0.1025.166 Mobile Safari/535.19_CCS_APP_AOS''"

definition redirectURI :: "string \<Rightarrow> string" where
  "redirectURI spaBase' = spaBase' @ userAPIPath @ ''oauth2/token''"

section \<open>Requests and responses\<close>

datatype body = NoBody | JsonBody json | FormBody "(string \<times> string) list"

record request =
  rqMethod :: string
  rqURL :: string
  rqHeaders :: "(string \<times> string) list"
  rqBody :: body

text \<open>The body as read: \<open>Inl\<close> is an error of the reader, \<open>Text\<close> is not JSON.\<close>

record response =
  rsStatus :: int
  rsLocation :: string
  rsPartial :: string   \<comment> \<open>what could be read of a body whose reading failed\<close>
  rsBody :: "gerr + payload"

section \<open>What the client is given\<close>

record 'w net =
  netDo :: "request \<Rightarrow> ('w, gerr, response) op"
  netNewJar :: "('w, gerr, unit) op"
  netLogin :: "bool \<Rightarrow> request \<Rightarrow> ('w, gerr, response) op"   \<comment> \<open>with the cookie jar; whether redirects are followed\<close>
  netNow :: "'w \<Rightarrow> int \<times> 'w"
  netRandom :: "nat \<Rightarrow> 'w \<Rightarrow> nat list \<times> 'w"   \<comment> \<open>that many random bytes\<close>
  netUUID :: "'w \<Rightarrow> string \<times> 'w"
  netEncrypt :: "rsa_key \<Rightarrow> string \<Rightarrow> ('w, gerr, nat list) op"
  netParseURL :: "string \<Rightarrow> gerr + (string \<Rightarrow> string)"       \<comment> \<open>\<open>url.Parse\<close> and \<open>Query().Get\<close>\<close>
  netRender :: "json \<Rightarrow> string"                                 \<comment> \<open>the text of a document\<close>
  netLoad :: "('w, gerr, tokens option) op"
  netSave :: "tokens \<Rightarrow> ('w, gerr, unit) op"

record client_config =
  ccLoginHost :: string
  ccSPABase :: string
  ccSPAAPI :: string
  ccUsername :: string
  ccPassword :: string
  ccVIN :: string

record 'w client =
  clTokens :: tokens
  clWorld :: 'w

type_synonym ('w, 'a) call = "('w client, gerr, 'a) op"

text \<open>\<open>New\<close>: username, password, VIN and the two host overrides.\<close>

definition newClient :: "string \<Rightarrow> string \<Rightarrow> string \<Rightarrow> string \<Rightarrow> string \<Rightarrow> gerr + client_config" where
  "newClient username password vin loginHost spaBase =
     (if username = '''' \<or> password = '''' then Inl (Err ''bluelink: username and password are required'')
      else let login = (if loginHost = '''' then defaultLoginHost else loginHost);
               spa = (if spaBase = '''' then defaultSPABase else spaBase)
           in Inr \<lparr>ccLoginHost = trimRight (CHR ''/'') login, ccSPABase = trimRight (CHR ''/'') spa,
                   ccSPAAPI = trimRight (CHR ''/'') spa @ spaAPIPath, ccUsername = username,
                   ccPassword = password, ccVIN = vin\<rparr>)"

section \<open>Calls of the client\<close>

text \<open>\<open>if x, err := m(); err == nil { f(x) } else { g(err) }\<close>.\<close>

definition tryOp :: "('s, 'e, 'a) op \<Rightarrow> ('a \<Rightarrow> ('s, 'f, 'b) op) \<Rightarrow> ('e \<Rightarrow> ('s, 'f, 'b) op) \<Rightarrow> ('s, 'f, 'b) op" where
  "tryOp m f g = (\<lambda>s. case m s of (Inl e, s') \<Rightarrow> g e s' | (Inr x, s') \<Rightarrow> f x s')"

text \<open>Lifting to the client's state.\<close>

definition liftOp :: "('w, gerr, 'a) op \<Rightarrow> ('w, 'a) call" where
  "liftOp m = (\<lambda>c. case m (clWorld c) of (x, w') \<Rightarrow> (x, c\<lparr>clWorld := w'\<rparr>))"

definition liftPure :: "('w \<Rightarrow> 'a \<times> 'w) \<Rightarrow> ('w, 'a) call" where
  "liftPure m = liftOp (\<lambda>w. case m w of (x, w') \<Rightarrow> (Inr x, w'))"

definition liftSum :: "gerr + 'a \<Rightarrow> ('w, 'a) call" where
  "liftSum x = (\<lambda>c. (x, c))"

definition getTokens :: "('w, tokens) call" where
  "getTokens = (\<lambda>c. (Inr (clTokens c), c))"

definition putTokens :: "tokens \<Rightarrow> ('w, unit) call" where
  "putTokens t = (\<lambda>c. (Inr (), c\<lparr>clTokens := t\<rparr>))"

text \<open>\<open>url.QueryEscape\<close>.\<close>

definition hexDigitUpper :: "nat \<Rightarrow> char" where
  "hexDigitUpper n = ''0123456789ABCDEF'' ! n"

definition escapeChar :: "char \<Rightarrow> string" where
  "escapeChar c =
     (let n = (of_char c :: nat) in
      if isDigit c \<or> (65 \<le> n \<and> n \<le> 90) \<or> (97 \<le> n \<and> n \<le> 122) \<or> c \<in> set ''-_.~'' then [c]
      else if c = CHR '' '' then ''+'' else [CHR ''%'', hexDigitUpper (n div 16), hexDigitUpper (n mod 16)])"

definition queryEscape :: "string \<Rightarrow> string" where
  "queryEscape s = concat (map escapeChar s)"

section \<open>Decoding a response body\<close>

text \<open>\<open>json.NewDecoder(resp.Body).Decode\<close> and \<open>json.Unmarshal\<close> into a target.\<close>

definition decodeBody :: "(json \<Rightarrow> 'a option) \<Rightarrow> gerr + payload \<Rightarrow> gerr + 'a" where
  "decodeBody dec b = (case b of
      Inl e \<Rightarrow> Inl e
    | Inr (Text s) \<Rightarrow> Inl (LibErr ''invalid character'')
    | Inr (Doc j) \<Rightarrow> (case dec j of None \<Rightarrow> Inl (LibErr ''json: cannot unmarshal'') | Some x \<Rightarrow> Inr x))"

section \<open>A log of the requests\<close>

datatype net_event =
    EReq request
  | ESave tokens
  | ELoad

definition withLog :: "net_event \<Rightarrow> ('w, gerr, 'a) op \<Rightarrow> ('w \<times> net_event list, gerr, 'a) op" where
  "withLog ev m = (\<lambda>(w, l). case m w of (x, w') \<Rightarrow> (x, w', l @ [ev]))"

definition noLog :: "('w \<Rightarrow> 'a \<times> 'w) \<Rightarrow> 'w \<times> net_event list \<Rightarrow> 'a \<times> 'w \<times> net_event list" where
  "noLog m = (\<lambda>(w, l). case m w of (x, w') \<Rightarrow> (x, w', l))"

definition tnet :: "'w net \<Rightarrow> ('w \<times> net_event list) net" where
  "tnet n = \<lparr>netDo = (\<lambda>r. withLog (EReq r) (netDo n r)), netNewJar = noLog (netNewJar n),
     netLogin = (\<lambda>b r. withLog (EReq r) (netLogin n b r)), netNow = noLog (netNow n),
     netRandom = (\<lambda>k. noLog (netRandom n k)), netUUID = noLog (netUUID n),
     netEncrypt = (\<lambda>k p. noLog (netEncrypt n k p)), netParseURL = netParseURL n, netRender = netRender n,
     netLoad = withLog ELoad (netLoad n), netSave = (\<lambda>t. withLog (ESave t) (netSave n t))\<rparr>"

definition logOf :: "('w \<times> net_event list) client \<Rightarrow> net_event list" where
  "logOf c = snd (clWorld c)"

section \<open>Facts\<close>

text \<open>
  Calls whose new log entries satisfy a predicate, and calls that add at most \<open>n\<close> entries that
  satisfy one.
\<close>

definition emits :: "(net_event \<Rightarrow> bool) \<Rightarrow> ('w \<times> net_event list, 'a) call \<Rightarrow> bool" where
  "emits P m \<longleftrightarrow> (\<forall>c. \<exists>es. logOf (snd (m c)) = logOf c @ es \<and> list_all P es)"

definition countOf :: "(net_event \<Rightarrow> bool) \<Rightarrow> ('w \<times> net_event list) client \<Rightarrow> nat" where
  "countOf P c = length (filter P (logOf c))"

definition costs :: "(net_event \<Rightarrow> bool) \<Rightarrow> nat \<Rightarrow> ('w \<times> net_event list, 'a) call \<Rightarrow> bool" where
  "costs P n m \<longleftrightarrow> (\<forall>c. countOf P (snd (m c)) \<le> countOf P c + n)"

named_theorems net_intros

lemma emits_ret [net_intros]: "emits P (ret x)" "emits P (fail e)"
  by (simp_all add: emits_def)

lemma emits_bind [net_intros]: "emits P m \<Longrightarrow> (\<And>x. emits P (f x)) \<Longrightarrow> emits P (bindOp m f)"
  unfolding emits_def
proof
  fix c
  assume m: "\<forall>c. \<exists>es. logOf (snd (m c)) = logOf c @ es \<and> list_all P es"
    and f: "\<And>x. \<forall>c. \<exists>es. logOf (snd (f x c)) = logOf c @ es \<and> list_all P es"
  obtain r c1 where r: "m c = (r, c1)" by (cases "m c")
  then obtain es where es: "logOf c1 = logOf c @ es" "list_all P es" using m [rule_format, of c] by auto
  show "\<exists>es. logOf (snd (bindOp m f c)) = logOf c @ es \<and> list_all P es"
  proof (cases r)
    case (Inl e)
    with r es show ?thesis by (simp add: bindOp_def)
  next
    case (Inr x)
    obtain es' where "logOf (snd (f x c1)) = logOf c1 @ es'" "list_all P es'" using f by blast
    with r es Inr show ?thesis by (intro exI [of _ "es @ es'"]) (simp add: bindOp_def)
  qed
qed

lemma emits_wrap [net_intros]: "emits P m \<Longrightarrow> emits P (wrapErr w m)"
  by (auto simp: emits_def wrapErr_def split: prod.split sum.split) (metis snd_conv)+

lemma emits_plain [net_intros]: "emits P getTokens" "emits P (putTokens t)" "emits P (liftSum x)"
  by (simp_all add: emits_def getTokens_def putTokens_def liftSum_def logOf_def)

lemma emits_log: "P ev \<Longrightarrow> emits P (liftOp (withLog ev m))"
  by (auto simp: emits_def liftOp_def withLog_def logOf_def split: prod.split)

lemma emits_noLog [net_intros]: "emits P (liftOp (noLog m))" "emits P (liftPure (noLog n))"
  by (auto simp: emits_def liftOp_def liftPure_def noLog_def logOf_def split: prod.split)

lemma emits_try [net_intros]:
  assumes m: "emits P m" and f: "\<And>x. emits P (f x)" and g: "\<And>e. emits P (g e)"
  shows "emits P (tryOp m f g)"
  unfolding emits_def
proof
  fix c
  obtain r c1 where r: "m c = (r, c1)" by (cases "m c")
  then obtain es where es: "logOf c1 = logOf c @ es" "list_all P es"
    using m [unfolded emits_def, rule_format, of c] by auto
  obtain es' where "logOf (snd (tryOp m f g c)) = logOf c1 @ es'" "list_all P es'"
  proof (cases r)
    case (Inl e)
    with r g [unfolded emits_def, rule_format, of e c1] that show ?thesis by (auto simp: tryOp_def)
  next
    case (Inr x)
    with r f [unfolded emits_def, rule_format, of x c1] that show ?thesis by (auto simp: tryOp_def)
  qed
  with es show "\<exists>es. logOf (snd (tryOp m f g c)) = logOf c @ es \<and> list_all P es"
    by (intro exI [of _ "es @ es'"]) simp
qed

lemma emits_mono: "emits P m \<Longrightarrow> (\<And>ev. P ev \<Longrightarrow> Q ev) \<Longrightarrow> emits Q m"
  unfolding emits_def by (metis list.pred_mono_strong)

lemma emits_run: "emits P m \<Longrightarrow> m c = (r, c') \<Longrightarrow> logOf c = [] \<Longrightarrow> list_all P (logOf c')"
  unfolding emits_def by (metis append_Nil snd_conv)

lemma emits_costs: "emits (\<lambda>ev. \<not> P ev) m \<Longrightarrow> costs P 0 m"
  unfolding costs_def
proof
  fix c
  assume "emits (\<lambda>ev. \<not> P ev) m"
  then obtain es where "logOf (snd (m c)) = logOf c @ es" "list_all (\<lambda>ev. \<not> P ev) es"
    unfolding emits_def by blast
  then show "countOf P (snd (m c)) \<le> countOf P c + 0"
    by (simp add: countOf_def list_all_iff filter_empty_conv)
qed

lemma costs_mono: "costs P n m \<Longrightarrow> n \<le> k \<Longrightarrow> costs P k m"
  unfolding costs_def by (meson add_left_mono order_trans)

lemma costs_run: "costs P n m \<Longrightarrow> m c = (r, c') \<Longrightarrow> countOf P c' \<le> countOf P c + n"
  unfolding costs_def by (metis snd_conv)

lemma costs_plain:
  "costs P 0 (ret x)" "costs P 0 (fail e)" "costs P 0 getTokens" "costs P 0 (putTokens t)" "costs P 0 (liftSum y)"
  by (simp_all add: costs_def countOf_def getTokens_def putTokens_def liftSum_def logOf_def)

lemma costs_bind:
  assumes m: "costs P n m" and f: "\<And>x. costs P k (f x)"
  shows "costs P (n + k) (bindOp m f)"
  unfolding costs_def
proof
  fix c
  obtain r c1 where r: "m c = (r, c1)" by (cases "m c")
  note 1 = costs_run [OF m r]
  show "countOf P (snd (bindOp m f c)) \<le> countOf P c + (n + k)"
  proof (cases r)
    case (Inr x)
    with costs_run [OF f, of x c1 "fst (f x c1)" "snd (f x c1)"] 1 r show ?thesis
      by (simp add: bindOp_def)
  qed (use r 1 in \<open>simp add: bindOp_def\<close>)
qed

lemma costs_try:
  assumes m: "costs P n m" and f: "\<And>x. costs P k (f x)" and g: "\<And>e. costs P k (g e)"
  shows "costs P (n + k) (tryOp m f g)"
  unfolding costs_def
proof
  fix c
  obtain r c1 where r: "m c = (r, c1)" by (cases "m c")
  note 1 = costs_run [OF m r]
  show "countOf P (snd (tryOp m f g c)) \<le> countOf P c + (n + k)"
  proof (cases r)
    case (Inl e)
    with costs_run [OF g, of e c1 "fst (g e c1)" "snd (g e c1)"] 1 r show ?thesis
      by (simp add: tryOp_def)
  next
    case (Inr x)
    with costs_run [OF f, of x c1 "fst (f x c1)" "snd (f x c1)"] 1 r show ?thesis
      by (simp add: tryOp_def)
  qed
qed

lemma costs_wrap: "costs P n m \<Longrightarrow> costs P n (wrapErr w m)"
  by (auto simp: costs_def countOf_def wrapErr_def split: prod.split sum.split) (metis snd_conv)+

lemma costs_log: "costs P (if P ev then 1 else 0) (liftOp (withLog ev m))"
  by (auto simp: costs_def countOf_def liftOp_def withLog_def logOf_def split: prod.split)

lemma costs_noLog: "costs P 0 (liftOp (noLog m))" "costs P 0 (liftPure (noLog n))"
  by (auto simp: costs_def countOf_def liftOp_def liftPure_def noLog_def logOf_def split: prod.split)

lemma emits_cases [net_intros]:
  "emits P a \<Longrightarrow> emits P b \<Longrightarrow> emits P (if q then a else b)"
  "(\<And>x y. emits P (f x y)) \<Longrightarrow> emits P (case p of (x, y) \<Rightarrow> f x y)"
  "emits P g \<Longrightarrow> (\<And>x. emits P (h x)) \<Longrightarrow> emits P (case o' of None \<Rightarrow> g | Some x \<Rightarrow> h x)"
  by (auto split: prod.split option.split)

lemma costs_max: "costs P n m \<Longrightarrow> costs P (max n k) m" "costs P k m \<Longrightarrow> costs P (max n k) m"
  by (rule costs_mono, assumption, simp)+

lemma costs_cases:
  "costs P n a \<Longrightarrow> costs P k b \<Longrightarrow> costs P (max n k) (if q then a else b)"
  "(\<And>x y. costs P n (f x y)) \<Longrightarrow> costs P n (case p of (x, y) \<Rightarrow> f x y)"
  "costs P n g \<Longrightarrow> (\<And>x. costs P k (h x)) \<Longrightarrow> costs P (max n k) (case o' of None \<Rightarrow> g | Some x \<Rightarrow> h x)"
  by (auto split: prod.split option.split intro: costs_max)

lemma costs_log1: "costs P 1 (liftOp (withLog ev m))"
  by (rule costs_mono [OF costs_log]) simp

lemma costs_log0: "\<not> P ev \<Longrightarrow> costs P 0 (liftOp (withLog ev m))"
  using costs_log [of P ev m] by simp

lemma costs_try2:
  "costs P n m \<Longrightarrow> (\<And>x. costs P k (f x)) \<Longrightarrow> (\<And>e. costs P l (g e)) \<Longrightarrow> costs P (n + max k l) (tryOp m f g)"
  by (rule costs_try) (blast intro: costs_max)+

lemmas costs_intros = costs_bind costs_wrap costs_plain costs_noLog costs_cases costs_try2

text \<open>How a URL ends.\<close>

lemma suffix_lit: "suffix p (x @ y) \<longleftrightarrow> prefix (rev p) (rev y @ rev x)"
  by (simp add: suffix_to_prefix)

lemma tnet_sel [simp]:
  "netDo (tnet n) r = withLog (EReq r) (netDo n r)" "netNewJar (tnet n) = noLog (netNewJar n)"
  "netLogin (tnet n) b r = withLog (EReq r) (netLogin n b r)" "netNow (tnet n) = noLog (netNow n)"
  "netRandom (tnet n) k = noLog (netRandom n k)" "netUUID (tnet n) = noLog (netUUID n)"
  "netEncrypt (tnet n) k' p = noLog (netEncrypt n k' p)" "netParseURL (tnet n) = netParseURL n"
  "netRender (tnet n) = netRender n"
  "netLoad (tnet n) = withLog ELoad (netLoad n)" "netSave (tnet n) t = withLog (ESave t) (netSave n t)"
  by (simp_all add: tnet_def)

end
