(* ===== verification/Auth.thy ===== *)
theory Auth
  imports Http
begin

text \<open>
  \<open>internal/bluelink/auth.go\<close>: the headless login and the token refresh. Every call runs on the
  client's state; form bodies are the \<open>url.Values\<close>, in the order the code writes them.
\<close>

section \<open>Token responses\<close>

record token_response =
  trTokenType :: string
  trAccessToken :: string
  trRefreshToken :: string
  trExpiresIn :: int

definition decTokenResponse :: "json \<Rightarrow> token_response option" where
  "decTokenResponse = decStruct (\<lambda>kvs.
     case (decField decString [] kvs ''token_type'', decField decString [] kvs ''access_token'',
           decField decString [] kvs ''refresh_token'', decField decInt 0 kvs ''expires_in'') of
       (Some ty, Some a, Some r, Some e) \<Rightarrow>
         Some \<lparr>trTokenType = ty, trAccessToken = a, trRefreshToken = r, trExpiresIn = e\<rparr>
     | _ \<Rightarrow> None)"

text \<open>\<open>time.Duration(expires) * time.Second\<close> wraps around.\<close>

definition expiryOf :: "int \<Rightarrow> int" where
  "expiryOf expires = (if expires = 0 then 86400 else expires)"

definition tokensFrom :: "token_response \<Rightarrow> int \<Rightarrow> tokens" where
  "tokensFrom tr now =
     \<lparr>accessToken = trimSpace (trTokenType tr @ '' '' @ trAccessToken tr), refreshToken = trRefreshToken tr,
      deviceID = [], validUntil = now + wrap64 (expiryOf (trExpiresIn tr) * nsPerSec)\<rparr>"

section \<open>Requests of the flow\<close>

definition encryptPassword :: "'w net \<Rightarrow> rsa_key \<Rightarrow> string \<Rightarrow> ('w, string) call" where
  "encryptPassword n pub password =
     bindOp (wrapErr (Wrapped ''rsa encrypt password'') (liftOp (netEncrypt n pub password)))
       (\<lambda>ct. ret (hexEncode ct))"

definition bodyText :: "'w net \<Rightarrow> response \<Rightarrow> string" where
  "bodyText n resp = (case rsBody resp of Inl e \<Rightarrow> rsPartial resp | Inr (Text s) \<Rightarrow> s | Inr (Doc j) \<Rightarrow> netRender n j)"

definition loginGet :: "'w net \<Rightarrow> string \<Rightarrow> ('w, unit) call" where
  "loginGet n u =
     bindOp (liftOp (netLogin n True \<lparr>rqMethod = ''GET'', rqURL = u,
               rqHeaders = [(''User-Agent'', userAgentLoginForm)], rqBody = NoBody\<rparr>))
       (\<lambda>resp. if rsStatus resp \<ge> 400
               then fail (Annotated ErrAuthFailed (''authorize returned HTTP '' @ itoa (rsStatus resp)))
               else ret ())"

definition decCerts :: "json \<Rightarrow> rsa_jwk option" where
  "decCerts = decStruct (\<lambda>top. decField (decStruct (\<lambda>kvs.
     case (decField decString [] kvs ''kid'', decField decString [] kvs ''n'', decField decString [] kvs ''e'') of
       (Some k, Some n, Some e) \<Rightarrow> Some \<lparr>jwkKid = k, jwkN = n, jwkE = e\<rparr>
     | _ \<Rightarrow> None)) \<lparr>jwkKid = [], jwkN = [], jwkE = []\<rparr> top ''retValue'')"

definition fetchCerts :: "'w net \<Rightarrow> client_config \<Rightarrow> ('w, rsa_jwk) call" where
  "fetchCerts n cfg =
     bindOp (liftOp (netLogin n True \<lparr>rqMethod = ''GET'', rqURL = ccLoginHost cfg @ ''/auth/api/v1/accounts/certs'',
               rqHeaders = [(''User-Agent'', userAgentLoginForm)], rqBody = NoBody\<rparr>))
       (\<lambda>resp. if rsStatus resp \<noteq> 200
               then fail (Annotated ErrAuthFailed (''certs returned HTTP '' @ itoa (rsStatus resp)))
               else wrapErr (Wrapped ''decode certs'') (liftSum (decodeBody decCerts (rsBody resp))))"

text \<open>\<open>codeFromLocation\<close>, with \<open>url.Parse\<close> and \<open>Query().Get\<close> as a parameter.\<close>

definition codeFromLocation :: "(string \<Rightarrow> gerr + (string \<Rightarrow> string)) \<Rightarrow> string \<Rightarrow> gerr + string" where
  "codeFromLocation parseURL loc =
     (case parseURL loc of
        Inl e \<Rightarrow> Inl (Annotated ErrAuthFailed (''unparseable redirect '' @ quoteGo loc))
      | Inr query \<Rightarrow>
          if query ''code'' \<noteq> '''' then Inr (query ''code'')
          else if containsStr loc ''/web/v1/user/authorization'' then Inl ErrConsentRequired
          else if query ''error'' \<noteq> '''' \<or> containsStr (lower loc) ''error''
          then Inl (Annotated ErrAuthFailed (query ''error_description''))
          else if containsStr (lower loc) ''authorize'' then Inl (Annotated ErrAuthFailed ''returned to login page'')
          else Inl (Annotated ErrAuthFailed ''unexpected redirect''))"

definition signinRequest :: "client_config \<Rightarrow> string \<Rightarrow> string \<Rightarrow> string \<Rightarrow> request" where
  "signinRequest cfg redirect kid encPW =
     \<lparr>rqMethod = ''POST'', rqURL = ccLoginHost cfg @ ''/auth/account/signin'',
      rqHeaders = [(''User-Agent'', userAgentLoginForm), (''Content-Type'', ''application/x-www-form-urlencoded'')],
      rqBody = FormBody [(''client_id'', ccspServiceID), (''encryptedPassword'', ''true''), (''password'', encPW),
        (''redirect_uri'', redirect), (''scope'', ''''), (''nonce'', ''''), (''state'', ''ccsp''),
        (''username'', ccUsername cfg), (''connector_session_key'', ''''), (''kid'', kid), (''_csrf'', '''')]\<rparr>"

definition signin :: "'w net \<Rightarrow> client_config \<Rightarrow> string \<Rightarrow> string \<Rightarrow> string \<Rightarrow> ('w, string) call" where
  "signin n cfg redirect kid encPW =
     bindOp (liftOp (netLogin n False (signinRequest cfg redirect kid encPW)))
       (\<lambda>resp. if rsStatus resp \<noteq> 302
               then fail (Annotated ErrAuthFailed
                      (''signin returned HTTP '' @ itoa (rsStatus resp) @ '' (check username/password)''))
               else liftSum (codeFromLocation (netParseURL n) (rsLocation resp)))"

text \<open>\<open>postToken\<close>; \<open>hc\<close> is the HTTP client it is given.\<close>

definition postToken ::
  "'w net \<Rightarrow> client_config \<Rightarrow> (request \<Rightarrow> ('w, gerr, response) op) \<Rightarrow> (string \<times> string) list \<Rightarrow> ('w, token_response) call" where
  "postToken n cfg hc form =
     bindOp (liftOp (hc \<lparr>rqMethod = ''POST'', rqURL = ccLoginHost cfg @ ''/auth/api/v2/user/oauth2/token'',
               rqHeaders = [(''User-Agent'', userAgentOkHTTP), (''Content-Type'', ''application/x-www-form-urlencoded'')],
               rqBody = FormBody form\<rparr>))
       (\<lambda>resp. if rsStatus resp \<noteq> 200
               then fail (Err (''token endpoint HTTP '' @ itoa (rsStatus resp) @ '': '' @
                      trimSpace (take 512 (bodyText n resp))))
               else bindOp (wrapErr (Wrapped ''decode token response'') (liftSum (decodeBody decTokenResponse (rsBody resp))))
                 (\<lambda>tr. if trAccessToken tr = '''' then fail (Err ''token response missing access_token'') else ret tr))"

section \<open>The two ways to obtain tokens\<close>

definition authorizeURL :: "client_config \<Rightarrow> string" where
  "authorizeURL cfg = ccLoginHost cfg @ ''/auth/api/v2/user/oauth2/authorize'' @
     ''?response_type=code&client_id='' @ ccspServiceID @ ''&redirect_uri='' @
     queryEscape (redirectURI (ccSPABase cfg)) @ ''&lang=en&state=ccsp&country=de''"

definition loginWithPassword :: "'w net \<Rightarrow> client_config \<Rightarrow> ('w, tokens) call" where
  "loginWithPassword n cfg =
     bindOp (wrapErr (Wrapped ''cookie jar'') (liftOp (netNewJar n))) (\<lambda>_.
     bindOp (wrapErr (Wrapped ''authorize'') (loginGet n (authorizeURL cfg))) (\<lambda>_.
     bindOp (fetchCerts n cfg) (\<lambda>jwk.
     bindOp (liftSum (jwkToRSAPublicKey jwk)) (\<lambda>pub.
     bindOp (encryptPassword n pub (ccPassword cfg)) (\<lambda>encPW.
     bindOp (signin n cfg (redirectURI (ccSPABase cfg)) (jwkKid jwk) encPW) (\<lambda>code.
     bindOp (wrapErr (Wrapped ''token exchange'') (postToken n cfg (netLogin n True)
               [(''grant_type'', ''authorization_code''), (''code'', code),
                (''redirect_uri'', redirectURI (ccSPABase cfg)), (''client_id'', ccspServiceID),
                (''client_secret'', clientSecret)])) (\<lambda>tr.
     bindOp (liftPure (netNow n)) (\<lambda>now. ret (tokensFrom tr now)))))))))"

definition refreshTokens :: "'w net \<Rightarrow> client_config \<Rightarrow> string \<Rightarrow> ('w, tokens) call" where
  "refreshTokens n cfg refresh =
     bindOp (wrapErr (Wrapped ''refresh'') (postToken n cfg (netDo n)
               [(''grant_type'', ''refresh_token''), (''refresh_token'', refresh),
                (''client_id'', ccspServiceID), (''client_secret'', clientSecret)])) (\<lambda>tr.
     bindOp (liftPure (netNow n)) (\<lambda>now.
       let tok = tokensFrom tr now
       in ret (if refreshToken tok = '''' then tok\<lparr>refreshToken := refresh\<rparr> else tok)))"

section \<open>Facts\<close>

text \<open>The request that submits a password.\<close>

fun submitsPassword :: "net_event \<Rightarrow> bool" where
  "submitsPassword (EReq r) = suffix ''/auth/account/signin'' (rqURL r)"
| "submitsPassword ev = False"

text \<open>The requests after which the service wakes the car: the two forced status reads.\<close>

fun wakes :: "net_event \<Rightarrow> bool" where
  "wakes (EReq r) \<longleftrightarrow> suffix ''/ccs2/carstatus'' (rqURL r) \<or> suffix ''/status'' (rqURL r)"
| "wakes ev = False"

lemma token_form_quiet:
  "emits (\<lambda>ev. \<not> wakes ev) (postToken (tnet n) cfg (netDo (tnet n)) form)"
  "emits (\<lambda>ev. \<not> wakes ev) (postToken (tnet n) cfg (netLogin (tnet n) b) form)"
  "emits (\<lambda>ev. \<not> submitsPassword ev) (postToken (tnet n) cfg (netDo (tnet n)) form)"
  "emits (\<lambda>ev. \<not> submitsPassword ev) (postToken (tnet n) cfg (netLogin (tnet n) b) form)"
  unfolding postToken_def by (intro net_intros emits_log; simp add: suffix_lit emits_log)+

lemma encrypt_quiet: "emits P (encryptPassword (tnet n) pub p)"
  unfolding encryptPassword_def by (simp, intro net_intros)

lemma login_wakes: "emits (\<lambda>ev. \<not> wakes ev) (loginWithPassword (tnet n) cfg)"
  unfolding loginWithPassword_def loginGet_def fetchCerts_def signin_def
  by (intro net_intros token_form_quiet encrypt_quiet; simp;
      intro net_intros emits_log; simp add: suffix_lit signinRequest_def authorizeURL_def)

lemma refresh_wakes: "emits (\<lambda>ev. \<not> wakes ev) (refreshTokens (tnet n) cfg r)"
  unfolding refreshTokens_def Let_def by (intro net_intros token_form_quiet; simp; intro net_intros)

lemma refresh_no_password: "emits (\<lambda>ev. \<not> submitsPassword ev) (refreshTokens (tnet n) cfg r)"
  unfolding refreshTokens_def Let_def by (intro net_intros token_form_quiet; simp; intro net_intros)

end
