(* ===== verification/Client.thy ===== *)
theory Client
  imports Auth
begin

text \<open>
  \<open>internal/bluelink/client.go\<close>: the token life cycle, device registration, authenticated GETs with
  one refresh on a 401, the vehicle list and the choice of the vehicle. The mutex is not modelled:
  a call runs as one step, as the scheduler's own lock makes the calls of this program run.
\<close>

section \<open>Registration and tokens\<close>

definition registerRequest :: "client_config \<Rightarrow> string \<Rightarrow> string \<Rightarrow> string \<Rightarrow> request" where
  "registerRequest cfg st pushRegId uuid =
     \<lparr>rqMethod = ''POST'', rqURL = ccSPAAPI cfg @ ''notifications/register'',
      rqHeaders = [(''ccsp-service-id'', ccspServiceID), (''ccsp-application-id'', appID), (''Stamp'', st),
        (''Content-Type'', ''application/json;charset=UTF-8''), (''User-Agent'', userAgentOkHTTP)],
      rqBody = JsonBody (JObj [(''pushRegId'', JStr pushRegId), (''pushType'', JStr pushType), (''uuid'', JStr uuid)])\<rparr>"

definition decRegister :: "json \<Rightarrow> string option" where
  "decRegister = decStruct (\<lambda>top. decField (decStruct (\<lambda>m. decField decString [] m ''deviceId'')) [] top ''resMsg'')"

definition randomHex :: "'w net \<Rightarrow> nat \<Rightarrow> ('w, string) call" where
  "randomHex n k = bindOp (liftPure (netRandom n k)) (\<lambda>b. ret (hexEncode b))"

definition registerDevice :: "'w net \<Rightarrow> client_config \<Rightarrow> ('w, string) call" where
  "registerDevice n cfg =
     bindOp (liftPure (netNow n)) (\<lambda>now.
     bindOp (liftSum (stamp now)) (\<lambda>st.
     bindOp (randomHex n 32) (\<lambda>pushRegId.
     bindOp (liftPure (netUUID n)) (\<lambda>uuid.
     bindOp (liftOp (netDo n (registerRequest cfg st pushRegId uuid))) (\<lambda>resp.
       if rsStatus resp \<noteq> 200 then fail (Err (''notifications/register HTTP '' @ itoa (rsStatus resp)))
       else bindOp (wrapErr (Wrapped ''decode register response'') (liftSum (decodeBody decRegister (rsBody resp))))
         (\<lambda>dev. if dev = '''' then fail (Err ''register response missing deviceId'') else ret dev))))))"

definition fullLogin :: "'w net \<Rightarrow> client_config \<Rightarrow> ('w, unit) call" where
  "fullLogin n cfg =
     bindOp (wrapErr (Wrapped ''register device'') (registerDevice n cfg)) (\<lambda>dev.
     bindOp (loginWithPassword n cfg) (\<lambda>tok0.
     let tok = tok0\<lparr>deviceID := dev\<rparr>
     in bindOp (putTokens tok) (\<lambda>_. wrapErr (Wrapped ''save tokens'') (liftOp (netSave n tok)))))"

definition ensureToken :: "'w net \<Rightarrow> client_config \<Rightarrow> ('w, unit) call" where
  "ensureToken n cfg =
     bindOp getTokens (\<lambda>t.
     bindOp (liftPure (netNow n)) (\<lambda>now.
       if tokensValid t now \<and> deviceID t \<noteq> '''' then ret ()
       else if refreshToken t \<noteq> '''' \<and> deviceID t \<noteq> ''''
       then tryOp (refreshTokens n cfg (refreshToken t))
              (\<lambda>tok0. let tok = tok0\<lparr>deviceID := deviceID t\<rparr>
                      in bindOp (putTokens tok) (\<lambda>_. liftOp (netSave n tok)))
              (\<lambda>e. fullLogin n cfg)
       else fullLogin n cfg))"

definition connect :: "'w net \<Rightarrow> client_config \<Rightarrow> ('w, unit) call" where
  "connect n cfg =
     bindOp (wrapErr (Wrapped ''load tokens'') (liftOp (netLoad n))) (\<lambda>stored.
     bindOp (case stored of Some t \<Rightarrow> putTokens t | None \<Rightarrow> ret ()) (\<lambda>_. ensureToken n cfg))"

section \<open>Authenticated requests\<close>

definition apiRequest :: "client_config \<Rightarrow> string \<Rightarrow> int \<Rightarrow> tokens \<Rightarrow> string \<Rightarrow> request" where
  "apiRequest cfg path ccs2 tok st =
     \<lparr>rqMethod = ''GET'', rqURL = ccSPAAPI cfg @ path,
      rqHeaders = [(''Authorization'', accessToken tok), (''ccsp-service-id'', ccspServiceID),
        (''ccsp-application-id'', appID), (''Stamp'', st), (''ccsp-device-id'', deviceID tok),
        (''Ccuccs2protocolsupport'', itoa ccs2), (''User-Agent'', userAgentOkHTTP)],
      rqBody = NoBody\<rparr>"

definition rawGet :: "'w net \<Rightarrow> client_config \<Rightarrow> string \<Rightarrow> int \<Rightarrow> tokens \<Rightarrow> ('w, payload \<times> int) call" where
  "rawGet n cfg path ccs2 tok =
     bindOp (liftPure (netNow n)) (\<lambda>now.
     bindOp (liftSum (stamp now)) (\<lambda>st.
     bindOp (liftOp (netDo n (apiRequest cfg path ccs2 tok st))) (\<lambda>resp.
     bindOp (liftSum (rsBody resp)) (\<lambda>body. ret (body, rsStatus resp)))))"

definition invalidate :: "('w, unit) call" where
  "invalidate = bindOp getTokens (\<lambda>t. putTokens (t\<lparr>validUntil := zeroTime\<rparr>))"

definition doAuthedGet :: "'w net \<Rightarrow> client_config \<Rightarrow> string \<Rightarrow> int \<Rightarrow> ('w, payload) call" where
  "doAuthedGet n cfg path ccs2 =
     bindOp (ensureToken n cfg) (\<lambda>_.
     bindOp getTokens (\<lambda>tok.
     bindOp (rawGet n cfg path ccs2 tok) (\<lambda>(body, status).
     bindOp (if status = 401
             then bindOp invalidate (\<lambda>_. bindOp (ensureToken n cfg) (\<lambda>_.
                  bindOp getTokens (\<lambda>tok'. rawGet n cfg path ccs2 tok')))
             else ret (body, status)) (\<lambda>(body, status).
       if status \<noteq> 200 then fail (Err (''GET '' @ path @ '': HTTP '' @ itoa status)) else ret body))))"

text \<open>
  A string member decoded with type errors ignored: the last string of that name, if any. A body
  that is not JSON leaves the fields empty.
\<close>

fun lenientString :: "gomap \<Rightarrow> string \<Rightarrow> string \<Rightarrow> string" where
  "lenientString [] k acc = acc"
| "lenientString ((k', v) # kvs) k acc =
     lenientString kvs k (case v of JStr s \<Rightarrow> if equalFold k' k then s else acc | _ \<Rightarrow> acc)"

definition checkEnvelope :: "payload \<Rightarrow> gerr + unit" where
  "checkEnvelope body =
     (let kvs = (case body of Doc (JObj kvs) \<Rightarrow> kvs | _ \<Rightarrow> []);
          retCode = lenientString kvs ''retCode'' []; resCode = lenientString kvs ''resCode'' []
      in if retCode \<noteq> '''' \<and> retCode \<noteq> ''S''
         then Inl (Err (''bluelink API error: retCode='' @ retCode @ '' resCode='' @ resCode)) else Inr ())"

definition authedGet :: "'w net \<Rightarrow> client_config \<Rightarrow> string \<Rightarrow> int \<Rightarrow> (json \<Rightarrow> 'a option) \<Rightarrow> ('w, 'a) call" where
  "authedGet n cfg path ccs2 out =
     bindOp (doAuthedGet n cfg path ccs2) (\<lambda>body.
     bindOp (liftSum (checkEnvelope body)) (\<lambda>_.
       wrapErr (Wrapped (''decode '' @ path)) (liftSum (decodeBody out (Inr body)))))"

definition debugGet :: "'w net \<Rightarrow> client_config \<Rightarrow> vehicle \<Rightarrow> string \<Rightarrow> ('w, payload) call" where
  "debugGet n cfg v relPath = doAuthedGet n cfg relPath (vCCS2ProtocolSupport v)"

section \<open>Vehicles\<close>

definition decVehicle :: "json \<Rightarrow> vehicle option" where
  "decVehicle = decStruct (\<lambda>m.
     case (decField decString [] m ''vehicleId'', decField decString [] m ''vin'', decField decString [] m ''nickname'',
           decField decString [] m ''vehicleName'', decField decString [] m ''regDate'', decField decString [] m ''type'',
           decField decInt 0 m ''ccuCCS2ProtocolSupport'') of
       (Some i, Some vin, Some nick, Some name, Some reg, Some ty, Some ccs2) \<Rightarrow>
         Some \<lparr>vID = i, vVIN = vin, vName = nick, vModel = name, vRegDate = reg, vType = ty,
               vCCS2ProtocolSupport = ccs2\<rparr>
     | _ \<Rightarrow> None)"

definition decVehicles :: "json \<Rightarrow> vehicle list option" where
  "decVehicles = decStruct (\<lambda>top. decField (decStruct (\<lambda>m.
     decField (decList decVehicle) [] m ''vehicles'')) [] top ''resMsg'')"

definition vehicles :: "'w net \<Rightarrow> client_config \<Rightarrow> ('w, vehicle list) call" where
  "vehicles n cfg = wrapErr (Wrapped ''list vehicles'') (authedGet n cfg ''vehicles'' 0 decVehicles)"

fun findVIN :: "vehicle list \<Rightarrow> string \<Rightarrow> vehicle option" where
  "findVIN [] vin = None"
| "findVIN (v # vs) vin = (if equalFold (vVIN v) vin then Some v else findVIN vs vin)"

definition selectVehicle :: "'w net \<Rightarrow> client_config \<Rightarrow> ('w, vehicle) call" where
  "selectVehicle n cfg =
     bindOp (vehicles n cfg) (\<lambda>vs.
       case vs of [] \<Rightarrow> fail (Err ''bluelink: no vehicles on account'')
       | v # _ \<Rightarrow> if ccVIN cfg = '''' then ret v
                  else (case findVIN vs (ccVIN cfg) of Some w \<Rightarrow> ret w
                        | None \<Rightarrow> fail (Err (''bluelink: no vehicle with VIN '' @ ccVIN cfg))))"

section \<open>Facts\<close>

lemma register_quiet:
  "emits (\<lambda>ev. \<not> wakes ev) (registerDevice (tnet n) cfg)"
  "emits (\<lambda>ev. \<not> submitsPassword ev) (registerDevice (tnet n) cfg)"
  unfolding registerDevice_def randomHex_def
  by (intro net_intros; simp; intro net_intros emits_log; simp add: suffix_lit registerRequest_def)+

lemma ensure_wakes: "emits (\<lambda>ev. \<not> wakes ev) (ensureToken (tnet n) cfg)"
  unfolding ensureToken_def fullLogin_def Let_def
  by (intro net_intros register_quiet login_wakes refresh_wakes; simp; intro net_intros emits_log; simp)

lemma signin_once: "costs submitsPassword 1 (signin (tnet n) cfg r k e)"
proof -
  have "costs submitsPassword (1 + max 0 0) (signin (tnet n) cfg r k e)"
    unfolding signin_def tnet_sel by (intro costs_intros costs_log1)
  then show ?thesis by simp
qed

lemma login_once: "costs submitsPassword 1 (loginWithPassword (tnet n) cfg)"
proof -
  have get: "costs submitsPassword 0 (loginGet (tnet n) (authorizeURL cfg))"
    unfolding loginGet_def
    by (rule emits_costs, intro net_intros, simp, intro emits_log) (simp_all add: suffix_lit authorizeURL_def)
  have certs: "costs submitsPassword 0 (fetchCerts (tnet n) cfg)"
    unfolding fetchCerts_def
    by (rule emits_costs, intro net_intros, simp, intro emits_log) (simp_all add: suffix_lit)
  have tok: "costs submitsPassword 0 (postToken (tnet n) cfg (netLogin (tnet n) True) f)" for f
    by (rule emits_costs) (rule token_form_quiet)
  have "costs submitsPassword (0 + (0 + (0 + (0 + (0 + (1 + (0 + (0 + 0)))))))) (loginWithPassword (tnet n) cfg)"
    unfolding loginWithPassword_def
    by (intro costs_bind costs_wrap get certs tok signin_once emits_costs [OF encrypt_quiet])
       (simp_all add: costs_intros)
  then show ?thesis by simp
qed

lemma fullLogin_once: "costs submitsPassword 1 (fullLogin (tnet n) cfg)"
proof -
  have "costs submitsPassword (0 + (1 + (0 + 0))) (fullLogin (tnet n) cfg)"
    unfolding fullLogin_def Let_def tnet_sel
    by (intro costs_intros login_once emits_costs [OF register_quiet(2)] costs_log0) simp
  then show ?thesis by simp
qed

lemma ensure_once: "costs submitsPassword 1 (ensureToken (tnet n) cfg)"
proof -
  have "costs submitsPassword (0 + (0 + max 0 (max (0 + max (0 + 0) 1) 1))) (ensureToken (tnet n) cfg)"
    unfolding ensureToken_def Let_def tnet_sel
    by (intro costs_intros fullLogin_once emits_costs [OF refresh_no_password] costs_log0) simp
  then show ?thesis by simp
qed

lemma rawGet_wakes: "\<not> wakes (EReq (apiRequest cfg path ccs2 tok [])) \<Longrightarrow>
    emits (\<lambda>ev. \<not> wakes ev) (rawGet (tnet n) cfg path ccs2 tok)"
  unfolding rawGet_def by (intro net_intros; simp; intro net_intros emits_log; simp add: apiRequest_def)

lemma doAuthedGet_quiet:
  assumes "\<And>tok. \<not> wakes (EReq (apiRequest cfg path ccs2 tok []))"
  shows "emits (\<lambda>ev. \<not> wakes ev) (doAuthedGet (tnet n) cfg path ccs2)"
  unfolding doAuthedGet_def invalidate_def by (intro net_intros ensure_wakes rawGet_wakes assms)

lemma rawGet_once: "costs P 1 (rawGet (tnet n) cfg path ccs2 tok)"
proof -
  have "costs P (0 + (0 + (1 + (0 + 0)))) (rawGet (tnet n) cfg path ccs2 tok)"
    unfolding rawGet_def tnet_sel by (intro costs_intros costs_log1)
  then show ?thesis by simp
qed

lemma doAuthedGet_wakes: "costs wakes 2 (doAuthedGet (tnet n) cfg path ccs2)"
proof -
  have "costs wakes (0 + (0 + (1 + (max ((0 + 0) + (0 + (0 + 1))) 0 + max 0 0)))) (doAuthedGet (tnet n) cfg path ccs2)"
    unfolding doAuthedGet_def invalidate_def
    by (intro costs_intros rawGet_once emits_costs [OF ensure_wakes])
  then show ?thesis by (simp add: numeral_2_eq_2)
qed

lemma rawGet_no_password: "\<not> submitsPassword (EReq (apiRequest cfg path ccs2 tok [])) \<Longrightarrow>
    emits (\<lambda>ev. \<not> submitsPassword ev) (rawGet (tnet n) cfg path ccs2 tok)"
  unfolding rawGet_def by (intro net_intros; simp; intro net_intros emits_log; simp add: apiRequest_def)

lemma doAuthedGet_logins:
  assumes "\<And>tok. \<not> submitsPassword (EReq (apiRequest cfg path ccs2 tok []))"
  shows "costs submitsPassword 2 (doAuthedGet (tnet n) cfg path ccs2)"
proof -
  have "costs submitsPassword (1 + (0 + (0 + (max ((0 + 0) + (1 + (0 + 0))) 0 + max 0 0))))
      (doAuthedGet (tnet n) cfg path ccs2)"
    unfolding doAuthedGet_def invalidate_def
    by (intro costs_intros ensure_once emits_costs [OF rawGet_no_password] assms)
  then show ?thesis by (simp add: numeral_2_eq_2)
qed

section \<open>Outcomes of the token life cycle\<close>

lemma putTokens_run [simp]: "putTokens t c = (Inr (), c\<lparr>clTokens := t\<rparr>)"
  by (simp add: putTokens_def)

lemma getTokens_run [simp]: "getTokens c = (Inr (clTokens c), c)"
  by (simp add: getTokens_def)

lemma liftOp_tokens: "liftOp m c = (r, c') \<Longrightarrow> clTokens c' = clTokens c"
  by (auto simp: liftOp_def split: prod.splits)

lemma liftPure_InrD: "liftPure m c = (r, c') \<Longrightarrow> \<exists>x. r = Inr x \<and> clTokens c' = clTokens c"
  by (auto simp: liftPure_def liftOp_def split: prod.splits)

lemma liftSum_run [simp]: "liftSum x c = (x, c)"
  by (simp add: liftSum_def)

lemma refresh_result:
  assumes "refreshTokens n cfg r c = (Inr tok, c')" and "r \<noteq> ''''"
  shows "refreshToken tok \<noteq> ''''"
  using assms by (auto simp: refreshTokens_def Let_def elim!: bindOp_InrE split: if_splits)

lemma register_result: "registerDevice n cfg c = (Inr dev, c') \<Longrightarrow> dev \<noteq> ''''"
  by (auto simp: registerDevice_def elim!: bindOp_InrE split: if_splits)

lemma bind_plain [simp]:
  "bindOp (putTokens t) f c = f () (c\<lparr>clTokens := t\<rparr>)" "bindOp getTokens g c = g (clTokens c) c"
  by (simp_all add: bindOp_def putTokens_def getTokens_def)

lemma fullLogin_result:
  assumes "fullLogin n cfg c = (Inr (), c')"
  obtains tok d where "deviceID tok \<noteq> ''''" and "liftOp (netSave n tok) (d\<lparr>clTokens := tok\<rparr>) = (Inr (), c')"
proof -
  obtain dev c1 tok d where 1: "registerDevice n cfg c = (Inr dev, c1)"
    and 2: "liftOp (netSave n (tok\<lparr>deviceID := dev\<rparr>)) (d\<lparr>clTokens := tok\<lparr>deviceID := dev\<rparr>\<rparr>) = (Inr (), c')"
    using assms by (auto simp: fullLogin_def Let_def wrapErr_Inr_iff elim!: bindOp_InrE)
  show thesis
    by (rule that [OF _ 2]) (use register_result [OF 1] in simp)
qed

text \<open>
  What a successful \<open>ensureToken\<close> did: read the clock and found the tokens valid, or ended with a
  save of the tokens it put in place.
\<close>

lemma ensure_outcome:
  assumes "ensureToken n cfg c = (Inr (), c')"
  obtains (valid) now where "liftPure (netNow n) c = (Inr now, c')" and "tokensValid (clTokens c) now"
      and "deviceID (clTokens c) \<noteq> ''''"
  | (saved) tok d where "deviceID tok \<noteq> ''''" and "liftOp (netSave n tok) (d\<lparr>clTokens := tok\<rparr>) = (Inr (), c')"
proof -
  let ?t = "clTokens c"
  obtain now c1 where now: "liftPure (netNow n) c = (Inr now, c1)"
    using liftPure_InrD [of "netNow n" c] by (metis surj_pair)
  consider (ok) "tokensValid ?t now" "deviceID ?t \<noteq> ''''" "c' = c1"
    | (login) d where "fullLogin n cfg d = (Inr (), c')"
    | (refresh) tok d where "deviceID ?t \<noteq> ''''"
        "liftOp (netSave n (tok\<lparr>deviceID := deviceID ?t\<rparr>)) (d\<lparr>clTokens := tok\<lparr>deviceID := deviceID ?t\<rparr>\<rparr>) = (Inr (), c')"
    using assms
    by (auto simp: ensureToken_def bindOp_Inr [where m = "liftPure (netNow n)" and s = c, OF now] Let_def tryOp_def
        split: if_splits prod.splits sum.splits)
  then show thesis
  proof cases
    case ok
    with now show ?thesis by (intro valid) auto
  next
    case login
    then show ?thesis by (rule fullLogin_result) (rule saved)
  next
    case refresh
    then show ?thesis by (intro saved [of "tok\<lparr>deviceID := deviceID ?t\<rparr>" d]) auto
  qed
qed

lemma noLog_run: "liftPure (noLog m) c = (r, c') \<Longrightarrow> logOf c' = logOf c"
  by (auto simp: liftPure_def liftOp_def noLog_def logOf_def split: prod.splits)

section \<open>With a token store\<close>

text \<open>The field \<open>Store\<close> of \<open>Config\<close>: the client's net built from a store and the rest.\<close>

definition onFst :: "('s, 'e, 'a) op \<Rightarrow> ('s \<times> 'w, 'e, 'a) op" where
  "onFst m = (\<lambda>(s, w). case m s of (x, s') \<Rightarrow> (x, s', w))"

definition onSnd :: "('w \<Rightarrow> 'a \<times> 'w) \<Rightarrow> 's \<times> 'w \<Rightarrow> 'a \<times> 's \<times> 'w" where
  "onSnd m = (\<lambda>(s, w). case m w of (x, w') \<Rightarrow> (x, s, w'))"

definition withStore ::
  "('s, gerr, tokens option) op \<Rightarrow> (tokens \<Rightarrow> ('s, gerr, unit) op) \<Rightarrow> 'w net \<Rightarrow> ('s \<times> 'w) net" where
  "withStore ld sv n = \<lparr>netDo = (\<lambda>r. onSnd (netDo n r)), netNewJar = onSnd (netNewJar n),
     netLogin = (\<lambda>b r. onSnd (netLogin n b r)), netNow = onSnd (netNow n),
     netRandom = (\<lambda>k. onSnd (netRandom n k)), netUUID = onSnd (netUUID n),
     netEncrypt = (\<lambda>k p. onSnd (netEncrypt n k p)), netParseURL = netParseURL n, netRender = netRender n,
     netLoad = onFst ld, netSave = (\<lambda>t. onFst (sv t))\<rparr>"

context token_store
begin

lemma session_saved:
  assumes "ensureToken (withStore load save n) cfg c = (Inr (), c')" and "clTokens c' \<noteq> clTokens c"
  shows "deviceID (clTokens c') \<noteq> '''' \<and> stored (fst (clWorld c')) = Some (clTokens c')"
  using assms(1)
proof (cases rule: ensure_outcome)
  case valid
  with liftPure_InrD [OF valid(1)] assms(2) show ?thesis by simp
next
  case (saved tok d)
  then show ?thesis
    by (auto simp: withStore_def liftOp_def onFst_def split: prod.splits dest!: save_stored)
qed

lemma session_resumes:
  assumes "ensureToken (withStore load save n) cfg c = (Inr (), c1)" and "clTokens c1 \<noteq> clTokens c"
    and "load (fst (clWorld c1)) = (Inr x, s2)" and "netNow n w2 = (now, w3)" and "tokensValid (clTokens c1) now"
  shows "connect (withStore load save n) cfg \<lparr>clTokens = tokens0, clWorld = (fst (clWorld c1), w2)\<rparr> =
    (Inr (), \<lparr>clTokens = clTokens c1, clWorld = (s2, w3)\<rparr>)"
proof -
  note s = session_saved [OF assms(1,2)]
  with load_stored [OF assms(3)] have "x = Some (clTokens c1)" by simp
  with s assms(3-5) show ?thesis
    by (simp add: connect_def ensureToken_def bindOp_def wrapErr_def liftOp_def liftPure_def getTokens_def
        putTokens_def withStore_def onFst_def onSnd_def)
qed

end

section \<open>Properties\<close>

text \<open>A service that answers every request with the same token response.\<close>

definition refreshingNet :: "unit net" where
  "refreshingNet =
     (let reply = \<lparr>rsStatus = 200, rsLocation = [], rsPartial = [], rsBody = Inr (Doc (JObj [(''token_type'', JStr ''Bearer''),
             (''access_token'', JStr ''A1''), (''expires_in'', JInt 3600)]))\<rparr>
      in \<lparr>netDo = (\<lambda>r w. (Inr reply, w)), netNewJar = (\<lambda>w. (Inr (), w)), netLogin = (\<lambda>b r w. (Inr reply, w)),
          netNow = (\<lambda>w. (0, w)), netRandom = (\<lambda>k w. ([], w)), netUUID = (\<lambda>w. ([], w)),
          netEncrypt = (\<lambda>k p w. (Inr [], w)), netParseURL = (\<lambda>s. Inr (\<lambda>k. [])), netRender = (\<lambda>j. []),
          netLoad = (\<lambda>w. (Inr None, w)), netSave = (\<lambda>t w. (Inr (), w))\<rparr>)"

definition demoClient :: client_config where
  "demoClient = \<lparr>ccLoginHost = ''http://idp'', ccSPABase = ''http://spa'', ccSPAAPI = ''http://spa/api/v1/spa/'',
     ccUsername = ''u'', ccPassword = ''p'', ccVIN = []\<rparr>"

definition staleTokens :: tokens where
  "staleTokens = \<lparr>accessToken = ''Bearer A0'', refreshToken = ''R0'', deviceID = ''D0'', validUntil = zeroTime\<rparr>"

text \<open>C4: Making sure of a token submits the password at most once; when it succeeds the client holds a
  device ID, and either the tokens are the ones it had and no request was sent, or the last thing
  done was to save exactly the tokens it now holds.\<close>

theorem token_lifecycle:
  assumes "ensureToken (tnet n) cfg c = (r, c')" and "logOf c = []"
  shows "countOf submitsPassword c' \<le> 1 \<and>
    (r = Inr () \<longrightarrow> deviceID (clTokens c') \<noteq> '''' \<and>
       (clTokens c' = clTokens c \<and> logOf c' = [] \<or> (\<exists>es. logOf c' = es @ [ESave (clTokens c')])))"
proof (intro conjI impI)
  show "countOf submitsPassword c' \<le> 1"
    using costs_run [OF ensure_once assms(1)] assms(2) by (simp add: countOf_def)
next
  assume "r = Inr ()"
  with assms(1) have run: "ensureToken (tnet n) cfg c = (Inr (), c')" by simp
  then show "deviceID (clTokens c') \<noteq> ''''"
    by (cases rule: ensure_outcome)
       (auto dest!: liftPure_InrD simp: liftOp_def split: prod.splits)
  from run show "clTokens c' = clTokens c \<and> logOf c' = [] \<or> (\<exists>es. logOf c' = es @ [ESave (clTokens c')])"
  proof (cases rule: ensure_outcome)
    case valid
    with noLog_run [of "netNow n" c _ c'] liftPure_InrD [OF valid(1)] assms(2) show ?thesis by simp
  next
    case (saved tok d)
    then show ?thesis by (auto simp: liftOp_def withLog_def logOf_def split: prod.splits)
  qed
qed

theorem token_lifecycle_witness:
  "\<exists>r c'. ensureToken (tnet refreshingNet) demoClient \<lparr>clTokens = staleTokens, clWorld = ((), [])\<rparr> = (r, c') \<and>
    countOf submitsPassword c' \<le> 1 \<and> (r = Inr () \<longrightarrow> deviceID (clTokens c') \<noteq> '''')"
proof -
  let ?c = "\<lparr>clTokens = staleTokens, clWorld = ((), [])\<rparr>"
  obtain r c' where run: "ensureToken (tnet refreshingNet) demoClient ?c = (r, c')" by (cases "ensureToken (tnet refreshingNet) demoClient ?c")
  moreover have "logOf ?c = []" by (simp add: logOf_def)
  ultimately show ?thesis using token_lifecycle [OF run] by blast
qed

text \<open>C21: A restart resumes the session: after a token was obtained and saved, a new process connects
  with the same tokens from the store, sending no request, while the tokens are still valid.\<close>

theorem restart_resumes:
  assumes "token_store ld sv stored"
    and "ensureToken (withStore ld sv n) cfg c = (Inr (), c1)" and "clTokens c1 \<noteq> clTokens c"
    and "ld (fst (clWorld c1)) = (Inr x, s2)" and "netNow n w2 = (now, w3)" and "tokensValid (clTokens c1) now"
  shows "connect (withStore ld sv n) cfg \<lparr>clTokens = tokens0, clWorld = (fst (clWorld c1), w2)\<rparr> =
    (Inr (), \<lparr>clTokens = clTokens c1, clWorld = (s2, w3)\<rparr>)"
  using token_store.session_resumes [OF assms] .

theorem restart_resumes_witness:
  "connect (withStore memLoad memSave refreshingNet) demoClient
     \<lparr>clTokens = tokens0,
      clWorld = (fst (clWorld (snd (ensureToken (withStore memLoad memSave refreshingNet) demoClient
        \<lparr>clTokens = staleTokens, clWorld = (newMemoryStore, ())\<rparr>))), ())\<rparr> =
   (Inr (), \<lparr>clTokens = \<lparr>accessToken = ''Bearer A1'', refreshToken = ''R0'', deviceID = ''D0'', validUntil = 3600 * nsPerSec\<rparr>,
      clWorld = (\<lparr>memTokens = \<lparr>accessToken = ''Bearer A1'', refreshToken = ''R0'', deviceID = ''D0'',
         validUntil = 3600 * nsPerSec\<rparr>, memSet = True\<rparr>, ())\<rparr>)"
proof -
  let ?t = "\<lparr>accessToken = ''Bearer A1'', refreshToken = ''R0'', deviceID = ''D0'', validUntil = 3600 * nsPerSec\<rparr>"
  let ?c = "\<lparr>clTokens = staleTokens, clWorld = (newMemoryStore, ())\<rparr>"
  let ?c1 = "\<lparr>clTokens = ?t, clWorld = (\<lparr>memTokens = ?t, memSet = True\<rparr>, ())\<rparr>"
  have run: "ensureToken (withStore memLoad memSave refreshingNet) demoClient ?c = (Inr (), ?c1)" by code_simp
  have new: "clTokens ?c1 \<noteq> clTokens ?c" by (simp add: staleTokens_def)
  have ld: "memLoad (fst (clWorld ?c1)) = (Inr (Some ?t), \<lparr>memTokens = ?t, memSet = True\<rparr>)" by (simp add: memLoad_def)
  have now: "netNow refreshingNet () = (0, ())" by (simp add: refreshingNet_def Let_def)
  have ok: "tokensValid (clTokens ?c1) 0" by (simp add: tokensValid_def)
  show ?thesis using restart_resumes [OF mem.token_store_axioms run new ld now ok] by (simp add: run)
qed

text \<open>A token that expires in \<open>e\<close> seconds is valid exactly until two minutes before that, for every
  \<open>e\<close> the duration can hold, and for 24 hours less two minutes when the service names no time.\<close>

theorem tokensFrom_validity:
  assumes "trimSpace (trTokenType tr @ '' '' @ trAccessToken tr) \<noteq> ''''"
    and "\<bar>trExpiresIn tr\<bar> \<le> 9223372036"
  shows "tokensValid (tokensFrom tr now) t \<longleftrightarrow>
    t < now + ((if trExpiresIn tr = 0 then 86400 else trExpiresIn tr) - 120) * nsPerSec"
proof -
  have "wrap64 (expiryOf (trExpiresIn tr) * nsPerSec) = expiryOf (trExpiresIn tr) * nsPerSec"
    by (rule wrap64_id) (use assms(2) in \<open>auto simp: expiryOf_def\<close>)
  with assms(1) show ?thesis
    by (auto simp: tokensValid_def tokensFrom_def expiryOf_def algebra_simps)
qed

theorem tokensFrom_validity_witness:
  "\<forall>t. tokensValid (tokensFrom \<lparr>trTokenType = ''Bearer'', trAccessToken = ''A'', trRefreshToken = [], trExpiresIn = 3600\<rparr> 0) t
     \<longleftrightarrow> t < 3480 * nsPerSec"
proof -
  have "trimSpace (''Bearer'' @ '' '' @ ''A'') \<noteq> ''''" by code_simp
  then show ?thesis
    using tokensFrom_validity [of "\<lparr>trTokenType = ''Bearer'', trAccessToken = ''A'', trRefreshToken = [], trExpiresIn = 3600\<rparr>" 0]
    by simp
qed

text \<open>Reading the code off the sign-in redirect never yields an empty code, and every failure is
  either the consent error or one that \<open>errors.Is\<close> an authentication failure, never both.\<close>

theorem codeFromLocation_total:
  "case codeFromLocation parseURL loc of
     Inr code \<Rightarrow> code \<noteq> '''' \<and> (\<exists>q. parseURL loc = Inr q \<and> q ''code'' = code)
   | Inl e \<Rightarrow> errIs e ErrConsentRequired \<noteq> errIs e ErrAuthFailed"
  by (auto simp: codeFromLocation_def split: sum.splits)

text \<open>The vehicle chosen is one of the account's: the first when no VIN is configured, otherwise the
  first whose VIN is the configured one up to case; with no such vehicle the choice fails.\<close>

theorem selectVehicle_spec:
  assumes "vehicles n cfg c = (Inr vs, c')"
  shows "selectVehicle n cfg c =
    (case filter (\<lambda>v. ccVIN cfg = '''' \<or> equalFold (vVIN v) (ccVIN cfg)) vs of
       v # _ \<Rightarrow> (Inr v, c')
     | [] \<Rightarrow> (Inl (Err (if vs = [] then ''bluelink: no vehicles on account''
                      else ''bluelink: no vehicle with VIN '' @ ccVIN cfg)), c'))"
proof -
  have find: "findVIN vs vin = (case filter (\<lambda>v. equalFold (vVIN v) vin) vs of [] \<Rightarrow> None | v # _ \<Rightarrow> Some v)" for vs vin
    by (induction vs) auto
  show ?thesis
    by (cases vs; cases "filter (\<lambda>v. equalFold (vVIN v) (ccVIN cfg)) vs")
       (auto simp: selectVehicle_def bindOp_def assms find split: list.splits if_splits)
qed

theorem selectVehicle_spec_witness:
  "fst (selectVehicle (refreshingNet\<lparr>netDo := (\<lambda>r w. (Inr \<lparr>rsStatus = 200, rsLocation = [], rsPartial = [], rsBody = Inr (Doc (JObj
      [(''resMsg'', JObj [(''vehicles'', JArr [JObj [(''vehicleId'', JStr ''one''), (''vin'', JStr ''AAA'')],
         JObj [(''vehicleId'', JStr ''two''), (''vin'', JStr ''BbB'')]])])]))\<rparr>, w))\<rparr>)
     (demoClient\<lparr>ccVIN := ''bbb''\<rparr>)
     \<lparr>clTokens = \<lparr>accessToken = ''A'', refreshToken = [], deviceID = ''D'', validUntil = 3600 * nsPerSec\<rparr>, clWorld = ()\<rparr>)
   = Inr \<lparr>vID = ''two'', vVIN = ''BbB'', vName = [], vModel = [], vRegDate = [], vType = [], vCCS2ProtocolSupport = 0\<rparr>"
  (is "fst (selectVehicle ?n ?cfg ?c) = _")
proof -
  let ?vs = "[\<lparr>vID = ''one'', vVIN = ''AAA'', vName = [], vModel = [], vRegDate = [], vType = [], vCCS2ProtocolSupport = 0\<rparr>,
    \<lparr>vID = ''two'', vVIN = ''BbB'', vName = [], vModel = [], vRegDate = [], vType = [], vCCS2ProtocolSupport = 0\<rparr>]"
  have run: "vehicles ?n ?cfg ?c = (Inr ?vs, ?c)" by code_simp
  have "equalFold ''BbB'' ''bbb''" "\<not> equalFold ''AAA'' ''bbb''" by code_simp+
  then show ?thesis unfolding selectVehicle_spec [OF run] by (simp add: demoClient_def)
qed

end
