(* ===== verification/Status.thy ===== *)
theory Status
  imports Client ParseCCS1
begin

text \<open>
  \<open>internal/bluelink/status.go\<close>: the cached and the forced status read over both protocols, with
  the park location that replaces the position of a CCS2 status. \<open>a\<close> is the processor, which
  decides what the parsers' conversions to \<open>int\<close> do out of range.
\<close>

section \<open>Targets of the responses\<close>

definition decPath1 :: "string \<Rightarrow> json \<Rightarrow> gomap option option" where
  "decPath1 k = decStruct (\<lambda>m. decField decMap None m k)"

definition decStatusCCS2 :: "json \<Rightarrow> gomap option option" where
  "decStatusCCS2 = decStruct (\<lambda>top. decField (decStruct (\<lambda>m. decField (decPath1 ''Vehicle'') None m ''state''))
     None top ''resMsg'')"

definition decStatusCCS1 :: "json \<Rightarrow> gomap option option" where
  "decStatusCCS1 = decStruct (\<lambda>top. decField (decPath1 ''vehicleStatusInfo'') None top ''resMsg'')"

definition decForceCCS1 :: "json \<Rightarrow> gomap option option" where
  "decForceCCS1 = decPath1 ''resMsg''"

definition decParkCCS1 :: "json \<Rightarrow> gomap option option" where
  "decParkCCS1 = decStruct (\<lambda>top. decField (decPath1 ''gpsDetail'') None top ''resMsg'')"

definition decPark :: "json \<Rightarrow> (f64 option \<times> f64 option \<times> string) option" where
  "decPark = decStruct (\<lambda>top. decField (decStruct (\<lambda>m.
     case (decField (decStruct (\<lambda>co. case (decField decFloatPtr None co ''lat'', decField decFloatPtr None co ''lon'') of
              (Some la, Some lo) \<Rightarrow> Some (la, lo) | _ \<Rightarrow> None)) (None, None) m ''coord'',
           decField decString [] m ''time'') of
       (Some (la, lo), Some t) \<Rightarrow> Some (la, lo, t) | _ \<Rightarrow> None)) (None, None, []) top ''resMsg'')"

section \<open>Location\<close>

definition vehiclePath :: "vehicle \<Rightarrow> string \<Rightarrow> string" where
  "vehiclePath v p = ''vehicles/'' @ vID v @ p"

definition parkLocation ::
  "'w net \<Rightarrow> client_config \<Rightarrow> vehicle \<Rightarrow> ('w, f64 option \<times> f64 option \<times> gotime option) call" where
  "parkLocation n cfg v =
     bindOp (authedGet n cfg (vehiclePath v ''/location/park'') (vCCS2ProtocolSupport v) decPark)
       (\<lambda>(la, lo, t). ret (la, lo, parseBluelinkTime t))"

definition parkLocationCCS1 :: "'w net \<Rightarrow> client_config \<Rightarrow> vehicle \<Rightarrow> ('w, gomap option) call" where
  "parkLocationCCS1 n cfg v =
     authedGet n cfg (vehiclePath v ''/location/park'') (vCCS2ProtocolSupport v) decParkCCS1"

section \<open>Status\<close>

definition cachedStatusCCS1 :: "goarch \<Rightarrow> 'w net \<Rightarrow> client_config \<Rightarrow> vehicle \<Rightarrow> ('w, vehicle_state) call" where
  "cachedStatusCCS1 a n cfg v =
     bindOp (wrapErr (Wrapped ''fetch CCS1 status'')
               (authedGet n cfg (vehiclePath v ''/status/latest'') (vCCS2ProtocolSupport v) decStatusCCS1))
       (\<lambda>info. case info of
          None \<Rightarrow> fail (Err ''CCS1 status response missing resMsg.vehicleStatusInfo'')
        | Some m \<Rightarrow> liftSum (parseCCS1 a m))"

definition forceStatusCCS1 :: "goarch \<Rightarrow> 'w net \<Rightarrow> client_config \<Rightarrow> vehicle \<Rightarrow> ('w, vehicle_state) call" where
  "forceStatusCCS1 a n cfg v =
     bindOp (wrapErr (Wrapped ''fetch CCS1 status'')
               (authedGet n cfg (vehiclePath v ''/status'') (vCCS2ProtocolSupport v) decForceCCS1))
       (\<lambda>msg. case msg of
          None \<Rightarrow> fail (Err ''CCS1 force status response missing resMsg'')
        | Some m \<Rightarrow>
            tryOp (parkLocationCCS1 n cfg v)
              (\<lambda>loc. liftSum (parseCCS1 a ((''vehicleStatus'', JObj m) #
                  (case loc of None \<Rightarrow> [] | Some l \<Rightarrow> [(''vehicleLocation'', JObj l)]))))
              (\<lambda>e. liftSum (parseCCS1 a [(''vehicleStatus'', JObj m)])))"

definition fetchStatusCCS1 :: "goarch \<Rightarrow> 'w net \<Rightarrow> client_config \<Rightarrow> vehicle \<Rightarrow> bool \<Rightarrow> ('w, vehicle_state) call" where
  "fetchStatusCCS1 a n cfg v force = (if force then forceStatusCCS1 a n cfg v else cachedStatusCCS1 a n cfg v)"

text \<open>The rest of \<open>fetchStatus\<close>, from its request on.\<close>

definition statusCCS2 :: "goarch \<Rightarrow> 'w net \<Rightarrow> client_config \<Rightarrow> vehicle \<Rightarrow> string \<Rightarrow> ('w, vehicle_state) call" where
  "statusCCS2 a n cfg v path =
     bindOp (wrapErr (Wrapped ''fetch status'') (authedGet n cfg path (vCCS2ProtocolSupport v) decStatusCCS2))
       (\<lambda>veh. case veh of
          None \<Rightarrow> fail (Err ''status response missing resMsg.state.Vehicle'')
        | Some m \<Rightarrow>
            let state = parseCCS2 a m
            in tryOp (parkLocation n cfg v)
                 (\<lambda>(la, lo, t). ret (state\<lparr>latitude := la, longitude := lo, locationUpdatedAt := t\<rparr>))
                 (\<lambda>e. ret state))"

definition fetchStatus :: "goarch \<Rightarrow> 'w net \<Rightarrow> client_config \<Rightarrow> vehicle \<Rightarrow> bool \<Rightarrow> ('w, vehicle_state) call" where
  "fetchStatus a n cfg v force =
     (if \<not> isCCS2 v then fetchStatusCCS1 a n cfg v force
      else statusCCS2 a n cfg v (vehiclePath v (if force then ''/ccs2/carstatus'' else ''/ccs2/carstatus/latest'')))"

definition cachedStatus :: "goarch \<Rightarrow> 'w net \<Rightarrow> client_config \<Rightarrow> vehicle \<Rightarrow> ('w, vehicle_state) call" where
  "cachedStatus a n cfg v = fetchStatus a n cfg v False"

definition forceStatus :: "goarch \<Rightarrow> 'w net \<Rightarrow> client_config \<Rightarrow> vehicle \<Rightarrow> ('w, vehicle_state) call" where
  "forceStatus a n cfg v = fetchStatus a n cfg v True"

section \<open>Facts\<close>

lemma authedGet_quiet:
  assumes "\<And>tok. \<not> wakes (EReq (apiRequest cfg path ccs2 tok []))"
  shows "emits (\<lambda>ev. \<not> wakes ev) (authedGet (tnet n) cfg path ccs2 out)"
  unfolding authedGet_def by (intro net_intros doAuthedGet_quiet assms)

lemma authedGet_wakes: "costs wakes 2 (authedGet (tnet n) cfg path ccs2 out)"
proof -
  have "costs wakes (2 + (0 + 0)) (authedGet (tnet n) cfg path ccs2 out)"
    unfolding authedGet_def by (intro costs_intros doAuthedGet_wakes)
  then show ?thesis by simp
qed

lemma authedGet_logins:
  assumes "\<And>tok. \<not> submitsPassword (EReq (apiRequest cfg path ccs2 tok []))"
  shows "costs submitsPassword 2 (authedGet (tnet n) cfg path ccs2 out)"
proof -
  have "costs submitsPassword (2 + (0 + 0)) (authedGet (tnet n) cfg path ccs2 out)"
    unfolding authedGet_def by (intro costs_intros doAuthedGet_logins assms)
  then show ?thesis by simp
qed

lemma url_ends [simp]:
  "suffix p (rqURL (apiRequest cfg (vehiclePath v q) ccs2 tok st)) \<longleftrightarrow>
     prefix (rev p) (rev q @ rev (vID v) @ rev ''vehicles/'' @ rev (ccSPAAPI cfg))"
  by (simp add: apiRequest_def vehiclePath_def suffix_lit)

lemma park_quiet:
  "emits (\<lambda>ev. \<not> wakes ev) (parkLocation (tnet n) cfg v)"
  "emits (\<lambda>ev. \<not> wakes ev) (parkLocationCCS1 (tnet n) cfg v)"
  unfolding parkLocation_def parkLocationCCS1_def by (intro net_intros authedGet_quiet; simp)+

lemma status_logins:
  assumes "\<And>tok. \<not> submitsPassword (EReq (apiRequest cfg (vehiclePath v q) ccs2 tok []))"
  shows "costs submitsPassword 2 (authedGet (tnet n) cfg (vehiclePath v q) ccs2 out)"
  by (rule authedGet_logins) (rule assms)

lemma park_logins:
  "costs submitsPassword 2 (parkLocation (tnet n) cfg v)" "costs submitsPassword 2 (parkLocationCCS1 (tnet n) cfg v)"
proof -
  have "costs submitsPassword (2 + 0) (parkLocation (tnet n) cfg v)"
    unfolding parkLocation_def by (intro costs_intros authedGet_logins) simp
  then show "costs submitsPassword 2 (parkLocation (tnet n) cfg v)" by simp
qed (simp add: parkLocationCCS1_def authedGet_logins)

lemma statusCCS2_logins:
  assumes "\<And>tok. \<not> submitsPassword (EReq (apiRequest cfg path (vCCS2ProtocolSupport v) tok []))"
  shows "costs submitsPassword 4 (statusCCS2 a (tnet n) cfg v path)"
proof -
  have "costs submitsPassword (2 + max 0 (2 + max 0 0)) (statusCCS2 a (tnet n) cfg v path)"
    unfolding statusCCS2_def Let_def by (intro costs_intros park_logins authedGet_logins assms)
  then show ?thesis by simp
qed

lemma CCS1_logins:
  "costs submitsPassword 4 (forceStatusCCS1 a (tnet n) cfg v)" "costs submitsPassword 4 (cachedStatusCCS1 a (tnet n) cfg v)"
proof -
  have "costs submitsPassword (2 + max 0 (2 + max 0 0)) (forceStatusCCS1 a (tnet n) cfg v)"
    unfolding forceStatusCCS1_def by (intro costs_intros park_logins authedGet_logins) simp
  then show "costs submitsPassword 4 (forceStatusCCS1 a (tnet n) cfg v)" by simp
  have "costs submitsPassword (2 + max 0 0) (cachedStatusCCS1 a (tnet n) cfg v)"
    unfolding cachedStatusCCS1_def by (intro costs_intros authedGet_logins) simp
  then show "costs submitsPassword 4 (cachedStatusCCS1 a (tnet n) cfg v)" by (rule costs_mono) simp
qed

lemma fetchStatus_logins: "costs submitsPassword 4 (fetchStatus a (tnet n) cfg v force)"
proof (cases "isCCS2 v")
  case True
  have "costs submitsPassword 4 (statusCCS2 a (tnet n) cfg v (vehiclePath v q))"
    if "q = ''/ccs2/carstatus'' \<or> q = ''/ccs2/carstatus/latest''" for q
    using that by (intro statusCCS2_logins) auto
  with True show ?thesis by (auto simp: fetchStatus_def)
qed (simp add: fetchStatus_def fetchStatusCCS1_def CCS1_logins)

lemma cached_quiet: "emits (\<lambda>ev. \<not> wakes ev) (cachedStatus a (tnet n) cfg v)"
proof (cases "isCCS2 v")
  case True
  have "emits (\<lambda>ev. \<not> wakes ev) (statusCCS2 a (tnet n) cfg v (vehiclePath v ''/ccs2/carstatus/latest''))"
    unfolding statusCCS2_def Let_def by (intro net_intros park_quiet authedGet_quiet) simp
  with True show ?thesis by (simp add: cachedStatus_def fetchStatus_def)
next
  case False
  have "emits (\<lambda>ev. \<not> wakes ev) (cachedStatusCCS1 a (tnet n) cfg v)"
    unfolding cachedStatusCCS1_def by (intro net_intros authedGet_quiet) simp
  with False show ?thesis by (simp add: cachedStatus_def fetchStatus_def fetchStatusCCS1_def)
qed

lemma forced_wakes: "costs wakes 2 (forceStatus a (tnet n) cfg v)"
proof -
  have "costs wakes (2 + max 0 (0 + max 0 0)) (statusCCS2 a (tnet n) cfg v path)" for path
    unfolding statusCCS2_def Let_def by (intro costs_intros authedGet_wakes emits_costs [OF park_quiet(1)])
  moreover have "costs wakes (2 + max 0 (0 + max 0 0)) (forceStatusCCS1 a (tnet n) cfg v)"
    unfolding forceStatusCCS1_def by (intro costs_intros authedGet_wakes emits_costs [OF park_quiet(2)])
  ultimately show ?thesis
    by (simp add: forceStatus_def fetchStatus_def fetchStatusCCS1_def)
qed

section \<open>Properties\<close>

text \<open>C3: A cached status read never sends a request that wakes the car, on either protocol, whatever
  the service answers, with every token refresh, login and retry counted.\<close>

theorem cachedStatus_never_wakes: "emits (\<lambda>ev. \<not> wakes ev) (cachedStatus a (tnet n) cfg v)"
  by (rule cached_quiet)

text \<open>C20: A forced status read sends at most two requests that wake the car (the second only after a
  401), and neither kind of read submits the password more than four times.\<close>

theorem status_budget:
  "costs wakes 2 (forceStatus a (tnet n) cfg v) \<and> costs submitsPassword 4 (forceStatus a (tnet n) cfg v)
   \<and> costs submitsPassword 4 (cachedStatus a (tnet n) cfg v)"
  by (simp add: forced_wakes) (simp add: forceStatus_def cachedStatus_def fetchStatus_logins)

section \<open>The password\<close>

text \<open>Two configurations that differ only in passwords with the same ciphertexts.\<close>

definition samePassword :: "'w net \<Rightarrow> client_config \<Rightarrow> client_config \<Rightarrow> bool" where
  "samePassword n cfg cfg' \<longleftrightarrow>
     cfg' = cfg\<lparr>ccPassword := ccPassword cfg'\<rparr> \<and> (\<forall>k. netEncrypt n k (ccPassword cfg') = netEncrypt n k (ccPassword cfg))"

lemma samePasswordE:
  assumes "samePassword n cfg cfg'"
  obtains p where "cfg' = cfg\<lparr>ccPassword := p\<rparr>" and "\<And>k. netEncrypt n k p = netEncrypt n k (ccPassword cfg)"
  using assms unfolding samePassword_def by blast

lemma login_password:
  assumes "samePassword n cfg cfg'"
  shows "loginWithPassword n cfg' = loginWithPassword n cfg"
  using assms
  by (rule samePasswordE)
     (simp add: loginWithPassword_def authorizeURL_def fetchCerts_def signin_def signinRequest_def postToken_def
       encryptPassword_def)

lemma calls_password:
  assumes "samePassword n cfg cfg'"
  shows "registerDevice n cfg' = registerDevice n cfg" and "refreshTokens n cfg' = refreshTokens n cfg"
    and "rawGet n cfg' = rawGet n cfg"
  using assms
  by (rule samePasswordE,
      simp add: registerDevice_def registerRequest_def refreshTokens_def postToken_def rawGet_def apiRequest_def fun_eq_iff)+

lemma ensure_password: "samePassword n cfg cfg' \<Longrightarrow> ensureToken n cfg' = ensureToken n cfg"
  unfolding ensureToken_def fullLogin_def by (simp only: calls_password login_password)

lemma authedGet_password:
  assumes "samePassword n cfg cfg'"
  shows "doAuthedGet n cfg' path ccs2 = doAuthedGet n cfg path ccs2"
    and "authedGet n cfg' path ccs2 out = authedGet n cfg path ccs2 out"
  unfolding authedGet_def doAuthedGet_def calls_password [OF assms] ensure_password [OF assms] by simp_all

text \<open>C12: The password leaves the client only encrypted: everything each of the client's exported methods
  does, requests, saves and results alike, depends on it through the ciphertexts of the encryption alone.\<close>

theorem password_only_encrypted:
  assumes "samePassword n cfg cfg'"
  shows "connect n cfg' = connect n cfg \<and> vehicles n cfg' = vehicles n cfg \<and> selectVehicle n cfg' = selectVehicle n cfg
    \<and> debugGet n cfg' v path = debugGet n cfg v path
    \<and> cachedStatus a n cfg' v = cachedStatus a n cfg v \<and> forceStatus a n cfg' v = forceStatus a n cfg v"
proof -
  have vin: "ccVIN cfg' = ccVIN cfg" using assms by (rule samePasswordE) simp
  show ?thesis
    unfolding connect_def selectVehicle_def vehicles_def cachedStatus_def forceStatus_def fetchStatus_def
      fetchStatusCCS1_def cachedStatusCCS1_def forceStatusCCS1_def statusCCS2_def parkLocation_def parkLocationCCS1_def
      debugGet_def authedGet_password [OF assms] ensure_password [OF assms] vin
    by (intro conjI refl)
qed

theorem password_only_encrypted_witness:
  "connect refreshingNet (demoClient\<lparr>ccPassword := ''other''\<rparr>) = connect refreshingNet demoClient"
proof -
  have "samePassword refreshingNet demoClient (demoClient\<lparr>ccPassword := ''other''\<rparr>)"
    by (simp add: samePassword_def refreshingNet_def Let_def)
  from password_only_encrypted [OF this] show ?thesis by blast
qed

end
