(* ===== verification/Server.thy ===== *)
theory Server
  imports GoTime Float64
begin

text \<open>
  \<open>internal/server/server.go\<close> and \<open>routes.go\<close>: the readiness machine, the snapshot of the
  selected vehicle and of the last published metrics, the probes and the route table. Every
  operation holds \<open>mu\<close> throughout, so it is an atomic step on the record \<open>server\<close>.
  The HTML page of \<open>page.go\<close> is in \<open>Page\<close>.
\<close>

section \<open>Data\<close>

record server_config =
  readyFailureThreshold :: int
  scPollInterval :: int
  scForceEnabled :: bool
  scForceHour :: int
  scForceMinute :: int
  scForceLocation :: "location option"

record metrics =
  mSet :: bool
  mEVBatteryPercentage :: "f64 option"
  mEVBatterySoH :: "f64 option"
  mEVRange :: "f64 option"
  mEVRangeUnit :: string
  mCharging :: "bool option"
  mPluggedIn :: "bool option"
  mChargePortDoorOpen :: "bool option"
  mChargeLimitAC :: "f64 option"
  mChargeLimitDC :: "f64 option"
  mChargingPowerKW :: "f64 option"
  mEstChargeDurationMin :: "int option"
  mEstFastChargeDurationMin :: "int option"
  mBattery12VPercentage :: "int option"
  mOutsideTemperatureC :: "f64 option"
  mInsideTemperatureC :: "f64 option"
  mTirePressureWarning :: "bool option"
  mLastUpdatedAt :: "gotime option"

definition metrics0 :: metrics where
  "metrics0 = \<lparr>mSet = False, mEVBatteryPercentage = None, mEVBatterySoH = None, mEVRange = None,
     mEVRangeUnit = [], mCharging = None, mPluggedIn = None, mChargePortDoorOpen = None,
     mChargeLimitAC = None, mChargeLimitDC = None, mChargingPowerKW = None,
     mEstChargeDurationMin = None, mEstFastChargeDurationMin = None, mBattery12VPercentage = None,
     mOutsideTemperatureC = None, mInsideTemperatureC = None, mTirePressureWarning = None,
     mLastUpdatedAt = None\<rparr>"

record server =
  sReady :: bool
  sConsecutiveFailures :: int
  sThreshold :: int
  sVehicleSet :: bool
  sVehicleModel :: string
  sVehicleName :: string
  sVehicleVIN :: string
  sVehicleCCS2 :: bool
  sMetrics :: metrics
  sCfg :: server_config
  sStartedAt :: int

section \<open>Operations\<close>

definition newServer :: "server_config \<Rightarrow> int \<Rightarrow> server" where
  "newServer cfg now =
     (let cfg' = (if readyFailureThreshold cfg < 1 then cfg\<lparr>readyFailureThreshold := 1\<rparr> else cfg)
      in \<lparr>sReady = False, sConsecutiveFailures = 0, sThreshold = readyFailureThreshold cfg',
          sVehicleSet = False, sVehicleModel = [], sVehicleName = [], sVehicleVIN = [],
          sVehicleCCS2 = False, sMetrics = metrics0, sCfg = cfg', sStartedAt = now\<rparr>)"

definition markSuccess :: "server \<Rightarrow> server" where
  "markSuccess s = s\<lparr>sReady := True, sConsecutiveFailures := 0\<rparr>"

definition markFailure :: "server \<Rightarrow> server" where
  "markFailure s =
     (let s' = s\<lparr>sConsecutiveFailures := sConsecutiveFailures s + 1\<rparr>
      in if sConsecutiveFailures s' \<ge> sThreshold s' then s'\<lparr>sReady := False\<rparr> else s')"

definition isReady :: "server \<Rightarrow> bool" where
  "isReady s = sReady s"

definition setVehicle :: "string \<Rightarrow> string \<Rightarrow> string \<Rightarrow> bool \<Rightarrow> server \<Rightarrow> server" where
  "setVehicle model name vin ccs2 s =
     s\<lparr>sVehicleSet := True, sVehicleModel := model, sVehicleName := name, sVehicleVIN := vin,
       sVehicleCCS2 := ccs2\<rparr>"

definition setMetrics :: "metrics \<Rightarrow> server \<Rightarrow> server" where
  "setMetrics m s = s\<lparr>sMetrics := m\<lparr>mSet := True\<rparr>\<rparr>"

section \<open>Probes and routes\<close>

type_synonym http_answer = "int \<times> string \<times> string"   \<comment> \<open>status, content type, body\<close>

definition handleLivez :: http_answer where
  "handleLivez = (200, '''', ''ok'')"

definition handleReadyz :: "server \<Rightarrow> http_answer" where
  "handleReadyz s = (if isReady s then (200, '''', ''ready'') else (503, '''', ''not ready''))"

text \<open>
  The route table on Go's \<open>ServeMux\<close>: a GET pattern also serves HEAD, another method on a known
  path is refused with 405, another path with 404. \<open>rootH\<close> is the page handler. The bodies of
  the two refusals are the library's.
\<close>

definition serveHTTP :: "(server \<Rightarrow> http_answer) \<Rightarrow> server \<Rightarrow> string \<Rightarrow> string \<Rightarrow> http_answer" where
  "serveHTTP rootH s meth path =
     (if path \<notin> {''/'', ''/healthz'', ''/readyz''} then (404, ''text/plain; charset=utf-8'', ''404 page not found'')
      else if meth \<noteq> ''GET'' \<and> meth \<noteq> ''HEAD'' then (405, ''text/plain; charset=utf-8'', ''Method Not Allowed'')
      else if path = ''/'' then rootH s
      else if path = ''/healthz'' then handleLivez
      else handleReadyz s)"

section \<open>Readiness as a machine\<close>

text \<open>What the scheduler, the publisher and the start-up code do to the server.\<close>

datatype server_event =
    Success
  | Failure
  | Vehicle string string string bool
  | Snapshot metrics

fun serverStep :: "server_event \<Rightarrow> server \<Rightarrow> server" where
  "serverStep Success s = markSuccess s"
| "serverStep Failure s = markFailure s"
| "serverStep (Vehicle m n v c) s = setVehicle m n v c s"
| "serverStep (Snapshot ms) s = setMetrics ms s"

definition serverRun :: "server_event list \<Rightarrow> server \<Rightarrow> server" where
  "serverRun es s = fold serverStep es s"

text \<open>The abstract contract: an outcome log, most recent first, decides readiness.\<close>

fun outcomes :: "server_event list \<Rightarrow> bool list" where
  "outcomes [] = []"
| "outcomes (Success # es) = True # outcomes es"
| "outcomes (Failure # es) = False # outcomes es"
| "outcomes (_ # es) = outcomes es"

definition trailingFailures :: "bool list \<Rightarrow> nat" where
  "trailingFailures os = length (takeWhile Not (rev os))"

definition readySpec :: "int \<Rightarrow> bool list \<Rightarrow> bool" where
  "readySpec threshold os \<longleftrightarrow> True \<in> set os \<and> int (trailingFailures os) < threshold"

text \<open>A component that reports outcomes relies on this contract only.\<close>

locale health_reporter =
  fixes succ failed :: "'s \<Rightarrow> 's" and ready :: "'s \<Rightarrow> bool"
    and log :: "'s \<Rightarrow> bool list \<Rightarrow> bool" and threshold :: int
  assumes threshold_pos: "0 < threshold"
    and log_succ: "log s os \<Longrightarrow> log (succ s) (os @ [True])"
    and log_fail: "log s os \<Longrightarrow> log (failed s) (os @ [False])"
    and log_ready: "log s os \<Longrightarrow> ready s = readySpec threshold os"
begin

definition report :: "bool \<Rightarrow> 's \<Rightarrow> 's" where
  "report ok s = (if ok then succ s else failed s)"

lemma log_report: "log s os \<Longrightarrow> log (report ok s) (os @ [ok])"
  by (simp add: report_def log_succ log_fail)

lemma log_reports: "log s os \<Longrightarrow> log (fold report new s) (os @ new)"
proof (induction new arbitrary: s os)
  case (Cons ok new)
  then have "log (fold report new (report ok s)) ((os @ [ok]) @ new)"
    by (intro Cons.IH log_report)
  then show ?case by simp
qed simp

text \<open>One success makes it ready whatever came before, and it stays so for fewer failures than
  the threshold.\<close>

lemma ready_after_success:
  "log s os \<Longrightarrow> int n < threshold \<Longrightarrow> ready (fold report (True # replicate n False) s)"
proof -
  assume "log s os" and n: "int n < threshold"
  then have "log (fold report (True # replicate n False) s) (os @ True # replicate n False)"
    by (intro log_reports)
  then show ?thesis
    using n by (simp add: log_ready readySpec_def trailingFailures_def takeWhile_append)
qed

lemma not_ready_after_failures:
  "log s os \<Longrightarrow> threshold \<le> int n \<Longrightarrow> \<not> ready (fold report (replicate n False) s)"
proof -
  assume "log s os" and n: "threshold \<le> int n"
  then have "log (fold report (replicate n False) s) (os @ replicate n False)"
    by (intro log_reports)
  then show ?thesis
    using n by (simp add: log_ready readySpec_def trailingFailures_def takeWhile_append)
qed

end

section \<open>Facts\<close>

lemmas server_defs = markSuccess_def markFailure_def isReady_def setVehicle_def setMetrics_def newServer_def

text \<open>What the server remembers of its outcome log.\<close>

definition healthLog :: "server \<Rightarrow> bool list \<Rightarrow> bool" where
  "healthLog s os \<longleftrightarrow> sConsecutiveFailures s = int (trailingFailures os)
     \<and> sReady s = readySpec (sThreshold s) os \<and> 0 < sThreshold s"

lemma trailingFailures_simps [simp]:
  "trailingFailures [] = 0" "trailingFailures (os @ [True]) = 0"
  "trailingFailures (os @ [False]) = Suc (trailingFailures os)"
  by (simp_all add: trailingFailures_def)

lemma readySpec_simps [simp]:
  "\<not> readySpec k []" "readySpec k (os @ [True]) \<longleftrightarrow> 0 < k"
  "readySpec k (os @ [False]) \<longleftrightarrow> readySpec k os \<and> int (Suc (trailingFailures os)) < k"
  by (auto simp: readySpec_def)

lemma healthLog_new: "healthLog (newServer cfg now) []"
  by (simp add: healthLog_def newServer_def Let_def)

lemma healthLog_markSuccess: "healthLog s os \<Longrightarrow> healthLog (markSuccess s) (os @ [True])"
  by (simp add: healthLog_def markSuccess_def)

lemma healthLog_markFailure: "healthLog s os \<Longrightarrow> healthLog (markFailure s) (os @ [False])"
  by (auto simp: healthLog_def markFailure_def Let_def)

lemma healthLog_setVehicle [simp]: "healthLog (setVehicle m n v c s) os = healthLog s os"
  by (simp add: healthLog_def setVehicle_def)

lemma healthLog_setMetrics [simp]: "healthLog (setMetrics m s) os = healthLog s os"
  by (simp add: healthLog_def setMetrics_def)

lemma sThreshold_step [simp]: "sThreshold (serverStep e s) = sThreshold s"
  by (cases e) (simp_all add: server_defs Let_def)

lemma sCfg_step [simp]: "sCfg (serverStep e s) = sCfg s"
  by (cases e) (simp_all add: server_defs Let_def)

lemma serverRun_Nil [simp]: "serverRun [] s = s"
  by (simp add: serverRun_def)

lemma serverRun_Cons [simp]: "serverRun (e # es) s = serverRun es (serverStep e s)"
  by (simp add: serverRun_def)

lemma sThreshold_run [simp]: "sThreshold (serverRun es s) = sThreshold s"
  by (induction es arbitrary: s) simp_all

lemma healthLog_run: "healthLog s os \<Longrightarrow> healthLog (serverRun es s) (os @ outcomes es)"
proof (induction es arbitrary: s os)
  case (Cons e es)
  show ?case
  proof (cases e)
    case Success
    then show ?thesis using Cons.IH [OF healthLog_markSuccess [OF Cons.prems]] by simp
  next
    case Failure
    then show ?thesis using Cons.IH [OF healthLog_markFailure [OF Cons.prems]] by simp
  qed (use Cons in simp_all)
qed simp

text \<open>The server keeps the contract of the outcome reports, at any positive threshold.\<close>

definition serverLog :: "int \<Rightarrow> server \<Rightarrow> bool list \<Rightarrow> bool" where
  "serverLog k s os \<longleftrightarrow> 0 < k \<and> sThreshold s = k \<and> healthLog s os"

interpretation hr: health_reporter markSuccess markFailure isReady "serverLog (max 1 k)" "max 1 k"
  for k :: int
proof unfold_locales
  show "serverLog (max 1 k) (markSuccess s) (os @ [True])" if "serverLog (max 1 k) s os" for s os
    using that healthLog_markSuccess [of s os] by (simp add: serverLog_def markSuccess_def)
  show "serverLog (max 1 k) (markFailure s) (os @ [False])" if "serverLog (max 1 k) s os" for s os
    using that healthLog_markFailure [of s os] by (simp add: serverLog_def markFailure_def Let_def)
  show "isReady s = readySpec (max 1 k) os" if "serverLog (max 1 k) s os" for s os
    using that by (simp add: serverLog_def healthLog_def isReady_def)
qed simp

lemma serverLog_new: "serverLog (max 1 (readyFailureThreshold cfg)) (newServer cfg now) []"
  using healthLog_new [of cfg now] by (auto simp: serverLog_def newServer_def Let_def)

lemma report_steps: "hr.report True = markSuccess" "hr.report False = markFailure" "serverStep Failure = markFailure"
  by (auto simp: hr.report_def fun_eq_iff)

lemma serverRun_reports:
  "serverRun (es @ Success # replicate n Failure) s =
     fold hr.report (replicate n False) (hr.report True (serverRun es s))"
  by (simp add: serverRun_def report_steps)

section \<open>Properties\<close>

text \<open>C11: Readiness refines its specification: after any sequence of poll outcomes, vehicle
  selections and metric snapshots the server answers ready exactly when some poll has succeeded and
  fewer polls have failed since than the threshold (at least one); the readiness probe answers 200
  or 503 accordingly, and liveness is always 200.\<close>

theorem readiness_spec:
  "isReady (serverRun es (newServer cfg now)) =
     readySpec (max 1 (readyFailureThreshold cfg)) (outcomes es)
   \<and> fst (serveHTTP rootH (serverRun es (newServer cfg now)) ''GET'' ''/readyz'') =
     (if readySpec (max 1 (readyFailureThreshold cfg)) (outcomes es) then 200 else 503)
   \<and> fst (serveHTTP rootH (serverRun es (newServer cfg now)) ''GET'' ''/healthz'') = 200"
proof -
  have "healthLog (serverRun es (newServer cfg now)) (outcomes es)"
    using healthLog_run [OF healthLog_new] by simp
  moreover have "sThreshold (newServer cfg now) = max 1 (readyFailureThreshold cfg)"
    by (auto simp: newServer_def Let_def)
  ultimately have "isReady (serverRun es (newServer cfg now)) =
      readySpec (max 1 (readyFailureThreshold cfg)) (outcomes es)"
    by (simp add: healthLog_def isReady_def)
  then show ?thesis by (simp add: serveHTTP_def handleReadyz_def handleLivez_def)
qed

text \<open>Graceful degradation: one success makes a server ready, fewer consecutive failures than
  the threshold keep it ready, and as many as the threshold make it not ready.\<close>

theorem readiness_degrades:
  "isReady (serverRun (es @ Success # replicate n Failure) (newServer cfg now)) =
     (int n < max 1 (readyFailureThreshold cfg))"
proof -
  let ?k = "max 1 (readyFailureThreshold cfg)" and ?s = "serverRun es (newServer cfg now)"
  have log: "serverLog ?k ?s (outcomes es)"
    using healthLog_run [OF healthLog_new] serverLog_new [of cfg now] by (simp add: serverLog_def)
  show ?thesis
  proof (cases "int n < ?k")
    case True
    then show ?thesis using hr.ready_after_success [OF log, of n] by (simp add: serverRun_reports report_steps)
  next
    case False
    have "serverLog ?k (markSuccess ?s) (outcomes es @ [True])" by (rule hr.log_succ [OF log])
    moreover have "?k \<le> int n" using False by linarith
    ultimately have "\<not> isReady (fold hr.report (replicate n False) (markSuccess ?s))"
      by (rule hr.not_ready_after_failures)
    with False show ?thesis by (simp add: serverRun_reports report_steps)
  qed
qed

text \<open>The probes leave no other way in: every path but the three of the route table is 404 and
  every method but GET and HEAD on those is 405, whatever the state of the server.\<close>

theorem serveHTTP_routes:
  "fst (serveHTTP rootH s meth path) =
     (if path \<notin> {''/'', ''/healthz'', ''/readyz''} then 404
      else if meth \<notin> {''GET'', ''HEAD''} then 405
      else if path = ''/'' then fst (rootH s)
      else if path = ''/healthz'' \<or> isReady s then 200 else 503)"
  by (auto simp: serveHTTP_def handleReadyz_def handleLivez_def)

end
