(* ===== verification/Page.thy ===== *)
theory Page
  imports Server GoFmt
begin

text \<open>
  \<open>internal/server/page.go\<close>: the view taken from the server under its lock, the metric rows,
  the VIN mask and the HTML page, down to its text. The uptime clock and the runtime version are
  arguments. What is proved: the page shows no more of the VIN than its last byte, and values
  from the car or the account cannot add markup to it.
\<close>

section \<open>Values as text\<close>

definition unknownText :: string where
  "unknownText = ''unknown''"

definition floatUnitVal :: "f64 option \<Rightarrow> string \<Rightarrow> string" where
  "floatUnitVal v u = (case v of None \<Rightarrow> unknownText | Some x \<Rightarrow> trimFloat x @ '' '' @ u)"

definition pctVal :: "f64 option \<Rightarrow> string" where
  "pctVal v = floatUnitVal v ''%''"

definition rangeVal :: "f64 option \<Rightarrow> string \<Rightarrow> string" where
  "rangeVal v u = (case v of None \<Rightarrow> unknownText
     | Some x \<Rightarrow> if u = '''' then trimFloat x else trimFloat x @ '' '' @ u)"

definition intUnitVal :: "int option \<Rightarrow> string \<Rightarrow> string" where
  "intUnitVal v u = (case v of None \<Rightarrow> unknownText | Some i \<Rightarrow> itoa i @ '' '' @ u)"

definition minVal :: "int option \<Rightarrow> string" where
  "minVal v = (case v of None \<Rightarrow> unknownText | Some i \<Rightarrow> itoa i @ '' min'')"

definition boolVal :: "bool option \<Rightarrow> string" where
  "boolVal v = (case v of None \<Rightarrow> unknownText | Some b \<Rightarrow> if b then ''yes'' else ''no'')"

definition timeVal :: "gotime option \<Rightarrow> string" where
  "timeVal v = (case v of None \<Rightarrow> unknownText | Some t \<Rightarrow> formatRFC3339 False t)"

definition maskVIN :: "string \<Rightarrow> string" where
  "maskVIN vin =
     (if length vin \<le> 1 then vin
      else replicate (length vin - 1) (CHR ''*'') @ drop (length vin - 1) vin)"

definition forceTime :: "server_config \<Rightarrow> string" where
  "forceTime cfg =
     padNum 2 (scForceHour cfg) @ '':'' @ padNum 2 (scForceMinute cfg) @ '' '' @
     (case scForceLocation cfg of None \<Rightarrow> ''UTC'' | Some loc \<Rightarrow> locName loc)"

definition degC :: string where
  "degC = [CHR 0xC2, CHR 0xB0, CHR ''C'']"

definition metricRows :: "metrics \<Rightarrow> (string \<times> string) list" where
  "metricRows m =
     [(''Battery'', pctVal (mEVBatteryPercentage m)),
      (''State of health'', pctVal (mEVBatterySoH m)),
      (''Range'', rangeVal (mEVRange m) (mEVRangeUnit m)),
      (''Charging'', boolVal (mCharging m)),
      (''Plugged in'', boolVal (mPluggedIn m)),
      (''Charge port door'', boolVal (mChargePortDoorOpen m)),
      (''Charge limit (AC)'', pctVal (mChargeLimitAC m)),
      (''Charge limit (DC)'', pctVal (mChargeLimitDC m)),
      (''Charging power'', floatUnitVal (mChargingPowerKW m) ''kW''),
      (''Est. charge time'', minVal (mEstChargeDurationMin m)),
      (''Est. fast-charge time'', minVal (mEstFastChargeDurationMin m)),
      (''12V battery'', intUnitVal (mBattery12VPercentage m) ''%''),
      (''Outside temperature'', floatUnitVal (mOutsideTemperatureC m) degC),
      (''Inside temperature'', floatUnitVal (mInsideTemperatureC m) degC),
      (''Tyre pressure warning'', boolVal (mTirePressureWarning m)),
      (''Last updated'', timeVal (mLastUpdatedAt m))]"

section \<open>The view and the page\<close>

record status_view =
  svService :: string
  svReady :: bool
  svUptime :: string
  svGoVersion :: string
  svVehicleReady :: bool
  svModel :: string
  svName :: string
  svMaskedVIN :: string
  svCCS2 :: bool
  svMetricsReady :: bool
  svMetrics :: "(string \<times> string) list"
  svPollInterval :: string
  svForceEnabled :: bool
  svForceTime :: string

definition statusView :: "string \<Rightarrow> int \<Rightarrow> server \<Rightarrow> status_view" where
  "statusView goVersion now s =
     \<lparr>svService = ''hyundai-bluelink-mqtt'', svReady = sReady s,
      svUptime = durationString (durationRound (now - sStartedAt s) nsPerSec),
      svGoVersion = goVersion, svVehicleReady = sVehicleSet s, svModel = sVehicleModel s,
      svName = sVehicleName s, svMaskedVIN = maskVIN (sVehicleVIN s), svCCS2 = sVehicleCCS2 s,
      svMetricsReady = mSet (sMetrics s), svMetrics = metricRows (sMetrics s),
      svPollInterval = durationString (scPollInterval (sCfg s)),
      svForceEnabled = scForceEnabled (sCfg s), svForceTime = forceTime (sCfg s)\<rparr>"

definition line :: "string \<Rightarrow> string" where
  "line s = s @ [CHR 0x0A]"

definition metricLine :: "string \<times> string \<Rightarrow> string" where
  "metricLine r = line (''<li>'' @ htmlEscape (fst r) @ '': '' @ htmlEscape (snd r) @ ''</li>'')"

definition vehiclePart :: "status_view \<Rightarrow> string" where
  "vehiclePart v =
     (if svVehicleReady v
      then line '''' @ line ''<ul>'' @
        line (''<li>Model: '' @ htmlEscape (svModel v) @ ''</li>'') @
        line (''<li>Name: '' @ htmlEscape (svName v) @ ''</li>'') @
        line (''<li>VIN: '' @ htmlEscape (svMaskedVIN v) @ ''</li>'') @
        line (''<li>CCS2: '' @ (if svCCS2 v then ''yes'' else ''no'') @ ''</li>'') @ line ''</ul>''
      else line '''' @ line ''<p>initialising</p>'')"

definition metricsPart :: "status_view \<Rightarrow> string" where
  "metricsPart v =
     (if svMetricsReady v
      then line '''' @ line ''<h2>Metrics</h2>'' @ line ''<ul>'' @
        concat (map metricLine (svMetrics v)) @ line ''</ul>''
      else [])"

definition statusPage :: "status_view \<Rightarrow> string" where
  "statusPage v =
     line ''<!DOCTYPE html>'' @ line ''<html lang=\"en\">'' @ line ''<head>'' @
     line ''<meta charset=\"utf-8\">'' @
     line ''<meta name=\"viewport\" content=\"width=device-width, initial-scale=1\">'' @
     line (''<title>'' @ htmlEscape (svService v) @ '' status</title>'') @
     line ''</head>'' @ line ''<body>'' @
     line (''<h1>'' @ htmlEscape (svService v) @ ''</h1>'') @
     line (''<p>Status: '' @ (if svReady v then ''ready'' else ''not ready'') @ ''</p>'') @
     line (''<p>Uptime: '' @ htmlEscape (svUptime v) @ ''</p>'') @
     line ''<h2>Vehicle</h2>'' @ vehiclePart v @ line '''' @ metricsPart v @ line '''' @
     line ''<h2>Schedule</h2>'' @ line ''<ul>'' @
     line (''<li>Poll interval: '' @ htmlEscape (svPollInterval v) @ ''</li>'') @
     line (''<li>Force refresh: '' @
       (if svForceEnabled v then htmlEscape (svForceTime v) else ''disabled'') @ ''</li>'') @
     line ''</ul>'' @ line (''<p>Go: '' @ htmlEscape (svGoVersion v) @ ''</p>'') @
     line ''</body>'' @ line ''</html>''"

definition handleRoot :: "string \<Rightarrow> int \<Rightarrow> server \<Rightarrow> http_answer" where
  "handleRoot goVersion now s =
     (200, ''text/html; charset=utf-8'', statusPage (statusView goVersion now s))"

section \<open>Facts\<close>

lemma count_line [simp]:
  "count_list (line s) (CHR ''<'') = count_list s (CHR ''<'')"
  "count_list (line s) (CHR ''>'') = count_list s (CHR ''>'')"
  by (simp_all add: line_def)

lemma count_metricLine:
  "count_list (metricLine r) (CHR ''<'') = 2" "count_list (metricLine r) (CHR ''>'') = 2"
  by (simp_all add: metricLine_def)

lemma count_concat: "(\<And>x. count_list (f x) c = k) \<Longrightarrow> count_list (concat (map f xs)) c = k * length xs"
  by (induction xs) simp_all

lemma length_metricRows [simp]: "length (metricRows m) = 16"
  by (simp add: metricRows_def)

lemma maskVIN_length [simp]: "length (maskVIN vin) = length vin"
  by (auto simp add: maskVIN_def)

lemma maskVIN_eq:
  "vin \<noteq> [] \<Longrightarrow> maskVIN vin = replicate (length vin - 1) (CHR ''*'') @ [last vin]"
  by (cases vin rule: rev_cases) (auto simp: maskVIN_def)

text \<open>Every tag of the page is the template's.\<close>

definition tagsOf :: "bool \<Rightarrow> bool \<Rightarrow> nat" where
  "tagsOf vehicleSet metricsSet = 29 + (if vehicleSet then 10 else 2) + (if metricsSet then 36 else 0)"

section \<open>Properties\<close>

text \<open>C36: No markup injection: whatever the model, the nickname, the VIN, the metrics, the zone name
  and the runtime version hold, the page has the same number of \<open><\<close> and of \<open>>\<close>, those of the template
  for whether a vehicle and metrics are present.\<close>

theorem statusPage_no_injection:
  "count_list (snd (snd (handleRoot goVersion now s))) (CHR ''<'') = tagsOf (sVehicleSet s) (mSet (sMetrics s))
   \<and> count_list (snd (snd (handleRoot goVersion now s))) (CHR ''>'') = tagsOf (sVehicleSet s) (mSet (sMetrics s))"
  by (simp add: handleRoot_def statusPage_def vehiclePart_def metricsPart_def statusView_def tagsOf_def
      count_concat [OF count_metricLine(1)] count_concat [OF count_metricLine(2)])

text \<open>C38: The page gives away nothing of the VIN but its length and last byte: servers that agree on
  everything but the VIN, with VINs of one length and one last byte, render the same page; the
  mask itself replaces every byte but the last by an asterisk.\<close>

theorem handleRoot_hides_vin:
  assumes "length vin = length vin'" and "vin \<noteq> []" and "last vin = last vin'"
  shows "handleRoot goVersion now (setVehicle model name vin ccs2 s) =
         handleRoot goVersion now (setVehicle model name vin' ccs2 s)
       \<and> maskVIN vin = replicate (length vin - 1) (CHR ''*'') @ [last vin]"
proof -
  have "vin' \<noteq> []" using assms by auto
  with assms show ?thesis by (simp add: handleRoot_def statusView_def setVehicle_def maskVIN_eq)
qed

theorem handleRoot_hides_vin_witness:
  "handleRoot [] 0 (setVehicle [] [] ''KMHK5815'' True (newServer \<lparr>readyFailureThreshold = 3,
     scPollInterval = 0, scForceEnabled = False, scForceHour = 0, scForceMinute = 0, scForceLocation = None\<rparr> 0)) =
   handleRoot [] 0 (setVehicle [] [] ''XXXXXXX5'' True (newServer \<lparr>readyFailureThreshold = 3,
     scPollInterval = 0, scForceEnabled = False, scForceHour = 0, scForceMinute = 0, scForceLocation = None\<rparr> 0))"
  using handleRoot_hides_vin [of "''KMHK5815''" "''XXXXXXX5''"] by simp

end
