(* ===== verification/Publisher.thy ===== *)
theory Publisher
  imports Model HomeAssistant
begin

text \<open>
  \<open>internal/publisher\<close>: the JSON state document (\<open>json.Marshal\<close> of the state, with its tags
  and \<open>omitempty\<close>), the publishing service over an MQTT transport, and the recording transport;
  and \<open>Client.Publish\<close> of \<open>internal/mqtt\<close> over the connection of its library. The transport
  is the \<open>locale transport\<close>: what the service relies on, kept by the recording transport.
\<close>

section \<open>The state document\<close>

type_synonym field = "string \<times> (gerr + json) option"

definition encFloat :: "f64 \<Rightarrow> gerr + json" where
  "encFloat f = (if f64_finite f then Inr (JNum f) else Inl (LibErr ''json: unsupported value''))"

definition encTime :: "gotime \<Rightarrow> gerr + json" where
  "encTime t = (case marshalTime t of
      Some s \<Rightarrow> Inr (JStr s) | None \<Rightarrow> Inl (LibErr ''json: error calling MarshalJSON for type time.Time''))"

definition encString :: "string \<Rightarrow> (gerr + json) option" where
  "encString s = (if s = '''' then None else Some (Inr (JStr s)))"

definition encBool :: "bool option \<Rightarrow> (gerr + json) option" where
  "encBool = map_option (\<lambda>b. Inr (JBool b))"

definition encInt :: "int option \<Rightarrow> (gerr + json) option" where
  "encInt = map_option (\<lambda>i. Inr (JInt i))"

text \<open>The fields of \<open>VehicleState\<close> in order, under their JSON tags.\<close>

definition stateFields :: "vehicle_state \<Rightarrow> field list" where
  "stateFields s =
     [(''ev_battery_percentage'', map_option encFloat (evBatteryPercentage s)),
      (''ev_battery_soh'', map_option encFloat (evBatterySoH s)),
      (''ev_range'', map_option encFloat (evRange s)),
      (''ev_range_unit'', encString (evRangeUnit s)),
      (''charging'', encBool (charging s)),
      (''plugged_in'', encBool (pluggedIn s)),
      (''charge_port_door'', encBool (chargePortDoorOpen s)),
      (''charge_limit_ac'', map_option encFloat (chargeLimitAC s)),
      (''charge_limit_dc'', map_option encFloat (chargeLimitDC s)),
      (''charging_power'', map_option encFloat (chargingPowerKW s)),
      (''est_charge_time'', encInt (estChargeDurationMin s)),
      (''est_fast_charge_time'', encInt (estFastChargeDurationMin s)),
      (''battery_12v'', encInt (battery12VPercentage s)),
      (''odometer'', map_option encFloat (odometer s)),
      (''odometer_unit'', encString (odometerUnit s)),
      (''outside_temp'', map_option encFloat (outsideTemperatureC s)),
      (''inside_temp'', map_option encFloat (insideTemperatureC s)),
      (''locked'', encBool (locked s)),
      (''tire_warning'', encBool (tirePressureWarning s)),
      (''latitude'', map_option encFloat (latitude s)),
      (''longitude'', map_option encFloat (longitude s)),
      (''location_updated_at'', map_option encTime (locationUpdatedAt s)),
      (''last_updated'', map_option encTime (lastUpdatedAt s))]"

text \<open>The encoder: absent fields are left out, the first field that cannot be encoded ends it.\<close>

fun encodeFields :: "field list \<Rightarrow> gerr + gomap" where
  "encodeFields [] = Inr []"
| "encodeFields ((k, None) # fs) = encodeFields fs"
| "encodeFields ((k, Some (Inl e)) # fs) = Inl e"
| "encodeFields ((k, Some (Inr v)) # fs) =
     (case encodeFields fs of Inl e \<Rightarrow> Inl e | Inr m \<Rightarrow> Inr ((k, v) # m))"

definition marshalState :: "vehicle_state \<Rightarrow> gerr + json" where
  "marshalState s = map_sum id JObj (encodeFields (stateFields s))"

section \<open>The service\<close>

type_synonym 'w publish = "string \<Rightarrow> payload \<Rightarrow> bool \<Rightarrow> ('w, gerr, unit) op"

text \<open>The loop over the discovery messages: the first failure ends it.\<close>

fun publishAll :: "'w publish \<Rightarrow> message list \<Rightarrow> ('w, gerr, unit) op" where
  "publishAll pub [] = ret ()"
| "publishAll pub ((t, p) # ms) =
     bindOp (wrapErr (Wrapped (''publish discovery '' @ t)) (pub t p True)) (\<lambda>_. publishAll pub ms)"

definition publishDiscovery :: "'w publish \<Rightarrow> ha_config \<Rightarrow> ('w, gerr, unit) op" where
  "publishDiscovery pub cfg = publishAll pub (buildDiscovery cfg)"

definition publishAvailability :: "'w publish \<Rightarrow> ha_config \<Rightarrow> bool \<Rightarrow> ('w, gerr, unit) op" where
  "publishAvailability pub cfg online =
     pub (availabilityTopic cfg) (Text (if online then ''online'' else ''offline'')) True"

definition trackerAttributes :: "f64 \<Rightarrow> f64 \<Rightarrow> gerr + gomap" where
  "trackerAttributes lat lon =
     encodeFields [(''latitude'', Some (encFloat lat)), (''longitude'', Some (encFloat lon)),
       (''gps_accuracy'', Some (Inr (JInt 1))), (''source_type'', Some (Inr (JStr ''gps'')))]"

definition publishTracker :: "'w publish \<Rightarrow> ha_config \<Rightarrow> vehicle_state \<Rightarrow> ('w, gerr, unit) op" where
  "publishTracker pub cfg st =
     bindOp
       (case (latitude st, longitude st) of
          (Some lat, Some lon) \<Rightarrow>
            (case trackerAttributes lat lon of
               Inl e \<Rightarrow> fail (Wrapped ''marshal tracker attributes'' e)
             | Inr body \<Rightarrow> wrapErr (Wrapped ''publish tracker attributes'')
                             (pub (trackerAttributesTopic cfg) (Doc (JObj body)) True))
        | _ \<Rightarrow> ret ())
       (\<lambda>_. pub (trackerStateTopic cfg) (Text ''None'') True)"

definition publishState :: "'w publish \<Rightarrow> ha_config \<Rightarrow> vehicle_state \<Rightarrow> ('w, gerr, unit) op" where
  "publishState pub cfg st0 =
     (let st = inDistanceUnit st0 (haDistanceUnit cfg) in
      case marshalState st of
        Inl e \<Rightarrow> fail (Wrapped ''marshal state'' e)
      | Inr body \<Rightarrow>
          bindOp (wrapErr (Wrapped ''publish state'') (pub (stateTopic cfg) (Doc body) True))
            (\<lambda>_. publishTracker pub cfg st))"

section \<open>Transports\<close>

text \<open>\<open>mqtt.Client.Publish\<close> over the connection manager's \<open>Publish\<close> (topic, payload, QoS, retain).\<close>

definition mqttPublish ::
  "(string \<Rightarrow> payload \<Rightarrow> nat \<Rightarrow> bool \<Rightarrow> ('w, gerr, unit) op) \<Rightarrow> 'w publish" where
  "mqttPublish cmPublish topic p retain =
     wrapErr (Wrapped (''mqtt publish '' @ topic)) (cmPublish topic p 1 retain)"

record recorder =
  recRecords :: "string \<Rightarrow> (payload \<times> bool) option"
  recOrder :: "string list"

definition newRecorder :: recorder where
  "newRecorder = \<lparr>recRecords = Map.empty, recOrder = []\<rparr>"

definition recPublish :: "recorder publish" where
  "recPublish topic p retain r =
     (Inr (),
      (let r' = (if recRecords r topic = None then r\<lparr>recOrder := recOrder r @ [topic]\<rparr> else r)
       in r'\<lparr>recRecords := (recRecords r')(topic \<mapsto> (p, retain))\<rparr>))"

definition recGet :: "recorder \<Rightarrow> string \<Rightarrow> (payload \<times> bool) option" where
  "recGet r topic = recRecords r topic"

definition recTopics :: "recorder \<Rightarrow> string list" where
  "recTopics r = recOrder r"

text \<open>
  What the service relies on: a successful publish is what the topic holds next and other
  topics are untouched; a failed one may or may not have reached the broker.
\<close>

locale transport =
  fixes pub :: "'w publish" and view :: "'w \<Rightarrow> string \<Rightarrow> (payload \<times> bool) option"
  assumes pub_ok: "pub t p r w = (Inr (), w') \<Longrightarrow> view w' = (view w)(t \<mapsto> (p, r))"
    and pub_fail: "pub t p r w = (Inl e, w') \<Longrightarrow> view w' = view w \<or> view w' = (view w)(t \<mapsto> (p, r))"
begin

lemma pub_frame: "pub t p r w = (x, w') \<Longrightarrow> t' \<noteq> t \<Longrightarrow> view w' t' = view w t'"
  using pub_ok [of t p r w w'] pub_fail [of t p r w _ w'] by (cases x) auto

lemma pub_cases: "pub t p r w = (x, w') \<Longrightarrow> view w' t = view w t \<or> view w' t = Some (p, r)"
  using pub_ok [of t p r w w'] pub_fail [of t p r w _ w'] by (cases x) auto

text \<open>An invariant of topics and messages is kept by every publish that satisfies it.\<close>

definition holds :: "(string \<Rightarrow> payload \<Rightarrow> bool \<Rightarrow> bool) \<Rightarrow> 'w \<Rightarrow> bool" where
  "holds P w \<longleftrightarrow> (\<forall>t p r. view w t = Some (p, r) \<longrightarrow> P t p r)"

lemma holds_pub: "holds P w \<Longrightarrow> P t p r \<Longrightarrow> pub t p r w = (x, w') \<Longrightarrow> holds P w'"
  using pub_ok [of t p r w w'] pub_fail [of t p r w _ w'] by (cases x) (auto simp: holds_def split: if_splits)

end

section \<open>Facts\<close>

lemma encodeFields_assoc:
  "encodeFields fs = Inr m \<Longrightarrow> distinct (map fst fs) \<Longrightarrow>
    assoc m k = (case map_of fs k of Some (Some (Inr v)) \<Rightarrow> Some v | _ \<Rightarrow> None)"
proof (induction fs arbitrary: m rule: encodeFields.induct)
  case (4 k' v fs)
  from "4.prems"(1) obtain m' where m': "encodeFields fs = Inr m'" "m = (k', v) # m'"
    by (auto split: sum.splits)
  have "k' \<notin> fst ` set fs" using "4.prems"(2) by simp
  then have "map_of fs k' = None" by (simp add: map_of_eq_None_iff)
  with "4.IH" [OF m'(1)] "4.prems"(2) m'(2) show ?case by (auto split: option.splits sum.splits)
next
  case (2 k' fs)
  have "map_of fs k' = None" using "2.prems"(2) by (simp add: map_of_eq_None_iff)
  with 2 show ?case by auto
qed auto

lemma encodeFields_total: "list_all (\<lambda>(k, v). case v of Some (Inl e) \<Rightarrow> False | _ \<Rightarrow> True) fs \<Longrightarrow>
  \<exists>m. encodeFields fs = Inr m"
  by (induction fs rule: encodeFields.induct) auto

definition stateKeys :: "string list" where
  "stateKeys =
     [''ev_battery_percentage'', ''ev_battery_soh'', ''ev_range'', ''ev_range_unit'', ''charging'',
      ''plugged_in'', ''charge_port_door'', ''charge_limit_ac'', ''charge_limit_dc'', ''charging_power'',
      ''est_charge_time'', ''est_fast_charge_time'', ''battery_12v'', ''odometer'', ''odometer_unit'',
      ''outside_temp'', ''inside_temp'', ''locked'', ''tire_warning'', ''latitude'', ''longitude'',
      ''location_updated_at'', ''last_updated'']"

lemma stateFields_keys: "map fst (stateFields s) = stateKeys"
  by (simp add: stateFields_def stateKeys_def)

lemma distinct_stateKeys: "distinct stateKeys"
  by code_simp

text \<open>What a marshalled document shows of each kind of field.\<close>

lemma encodeFields_noInl: "encodeFields fs = Inr m \<Longrightarrow> (k, Some (Inl e)) \<notin> set fs"
  by (induction fs arbitrary: m rule: encodeFields.induct) (auto split: sum.splits)

lemma encodeFields_float:
  assumes "encodeFields fs = Inr m" "distinct (map fst fs)" "map_of fs k = Some (map_option encFloat x)"
  shows "assoc m k = map_option JNum x"
proof (cases x)
  case None
  then show ?thesis using encodeFields_assoc [OF assms(1,2), of k] assms(3) by simp
next
  case (Some y)
  have "(k, Some (encFloat y)) \<in> set fs" using map_of_SomeD [OF assms(3)] Some by simp
  then have "encFloat y = Inr (JNum y)"
    using encodeFields_noInl [OF assms(1)] by (auto simp: encFloat_def split: if_splits)
  with Some show ?thesis using encodeFields_assoc [OF assms(1,2), of k] assms(3) by simp
qed

lemma encodeFields_plain:
  assumes "encodeFields fs = Inr m" "distinct (map fst fs)" "map_of fs k = Some (map_option Inr x)"
  shows "assoc m k = x"
  using encodeFields_assoc [OF assms(1,2), of k] assms(3) by (cases x) auto

lemma enc_plain:
  "encBool b = map_option Inr (map_option JBool b)" "encInt i = map_option Inr (map_option JInt i)"
  "encString t = map_option Inr (if t = '''' then None else Some (JStr t))"
  by (simp_all add: encBool_def encInt_def encString_def option.map_comp comp_def)

lemma stateFields_at:
  "map_of (stateFields s) ''ev_battery_percentage'' = Some (map_option encFloat (evBatteryPercentage s))"
  "map_of (stateFields s) ''ev_battery_soh'' = Some (map_option encFloat (evBatterySoH s))"
  "map_of (stateFields s) ''ev_range'' = Some (map_option encFloat (evRange s))"
  "map_of (stateFields s) ''ev_range_unit'' = Some (encString (evRangeUnit s))"
  "map_of (stateFields s) ''charging'' = Some (encBool (charging s))"
  "map_of (stateFields s) ''plugged_in'' = Some (encBool (pluggedIn s))"
  "map_of (stateFields s) ''charge_port_door'' = Some (encBool (chargePortDoorOpen s))"
  "map_of (stateFields s) ''charge_limit_ac'' = Some (map_option encFloat (chargeLimitAC s))"
  "map_of (stateFields s) ''charge_limit_dc'' = Some (map_option encFloat (chargeLimitDC s))"
  "map_of (stateFields s) ''charging_power'' = Some (map_option encFloat (chargingPowerKW s))"
  "map_of (stateFields s) ''est_charge_time'' = Some (encInt (estChargeDurationMin s))"
  "map_of (stateFields s) ''battery_12v'' = Some (encInt (battery12VPercentage s))"
  "map_of (stateFields s) ''odometer'' = Some (map_option encFloat (odometer s))"
  "map_of (stateFields s) ''odometer_unit'' = Some (encString (odometerUnit s))"
  "map_of (stateFields s) ''outside_temp'' = Some (map_option encFloat (outsideTemperatureC s))"
  "map_of (stateFields s) ''locked'' = Some (encBool (locked s))"
  "map_of (stateFields s) ''tire_warning'' = Some (encBool (tirePressureWarning s))"
  "map_of (stateFields s) ''est_fast_charge_time'' = Some (encInt (estFastChargeDurationMin s))"
  "map_of (stateFields s) ''inside_temp'' = Some (map_option encFloat (insideTemperatureC s))"
  "map_of (stateFields s) ''latitude'' = Some (map_option encFloat (latitude s))"
  "map_of (stateFields s) ''longitude'' = Some (map_option encFloat (longitude s))"
  "map_of (stateFields s) ''location_updated_at'' = Some (map_option encTime (locationUpdatedAt s))"
  "map_of (stateFields s) ''last_updated'' = Some (map_option encTime (lastUpdatedAt s))"
  by (simp_all add: stateFields_def)

lemma marshalState_InrD:
  "marshalState s = Inr d \<Longrightarrow> \<exists>m. d = JObj m \<and> encodeFields (stateFields s) = Inr m"
  by (cases "encodeFields (stateFields s)") (auto simp: marshalState_def)

lemma marshalState_fields:
  assumes "marshalState s = Inr (JObj m)"
  shows "map_of (stateFields s) k = Some (map_option encFloat f) \<Longrightarrow> assoc m k = map_option JNum f"
    and "map_of (stateFields s) k = Some (map_option Inr p) \<Longrightarrow> assoc m k = p"
    and "assoc m k \<noteq> None \<Longrightarrow> k \<in> set stateKeys"
proof -
  have enc: "encodeFields (stateFields s) = Inr m" using marshalState_InrD [OF assms] by simp
  have d: "distinct (map fst (stateFields s))" by (simp add: stateFields_keys distinct_stateKeys)
  show "map_of (stateFields s) k = Some (map_option encFloat f) \<Longrightarrow> assoc m k = map_option JNum f"
    by (rule encodeFields_float [OF enc d])
  show "map_of (stateFields s) k = Some (map_option Inr p) \<Longrightarrow> assoc m k = p"
    by (rule encodeFields_plain [OF enc d])
  show "k \<in> set stateKeys" if "assoc m k \<noteq> None"
  proof -
    have "map_of (stateFields s) k \<noteq> None" using encodeFields_assoc [OF enc d, of k] that
      by (cases "map_of (stateFields s) k") simp_all
    then show ?thesis unfolding stateFields_keys [symmetric, of s] by (simp add: map_of_eq_None_iff)
  qed
qed

lemma encodeFields_time:
  assumes "encodeFields fs = Inr m" "distinct (map fst fs)" "map_of fs k = Some (map_option encTime x)"
  shows "assoc m k = Option.bind x (\<lambda>t. map_option JStr (marshalTime t))"
proof (cases x)
  case None
  then show ?thesis using encodeFields_assoc [OF assms(1,2), of k] assms(3) by simp
next
  case (Some t)
  have "(k, Some (encTime t)) \<in> set fs" using map_of_SomeD [OF assms(3)] Some by simp
  then obtain z where "marshalTime t = Some z"
    using encodeFields_noInl [OF assms(1)] by (cases "marshalTime t") (auto simp: encTime_def)
  with Some show ?thesis using encodeFields_assoc [OF assms(1,2), of k] assms(3) by (simp add: encTime_def)
qed

lemma marshalState_times:
  assumes "marshalState s = Inr (JObj m)" and "map_of (stateFields s) k = Some (map_option encTime x)"
  shows "assoc m k = Option.bind x (\<lambda>t. map_option JStr (marshalTime t))"
proof (rule encodeFields_time [OF _ _ assms(2)])
  show "encodeFields (stateFields s) = Inr m" using marshalState_InrD [OF assms(1)] by simp
  show "distinct (map fst (stateFields s))" by (simp add: stateFields_keys distinct_stateKeys)
qed

text \<open>The topics of a vehicle are pairwise distinct, also from its discovery topics.\<close>

lemma vehicle_topics_distinct:
  "distinct [stateTopic c, availabilityTopic c, trackerStateTopic c, trackerAttributesTopic c]"
  by (simp add: topic_defs)

lemma discovery_topic_other:
  "discoveryTopic c e \<notin> {stateTopic c, availabilityTopic c, trackerStateTopic c, trackerAttributesTopic c}"
proof -
  have "last (discoveryTopic c e) = CHR ''g''" by (simp add: discoveryTopic_def)
  moreover have "last t \<noteq> CHR ''g''"
    if "t \<in> {stateTopic c, availabilityTopic c, trackerStateTopic c, trackerAttributesTopic c}" for t
    using that by (auto simp: topic_defs)
  ultimately show ?thesis by blast
qed

interpretation rp: transport recPublish recGet
  by unfold_locales (auto simp: recPublish_def recGet_def fun_eq_iff Let_def)

definition encodable :: "vehicle_state \<Rightarrow> bool" where
  "encodable s \<longleftrightarrow> list_all (\<lambda>(k, v). case v of Some (Inl e) \<Rightarrow> False | _ \<Rightarrow> True) (stateFields s)"

lemma encodable_marshal: "encodable s \<longleftrightarrow> (\<exists>m. marshalState s = Inr (JObj m))"
proof
  show "encodable s \<Longrightarrow> \<exists>m. marshalState s = Inr (JObj m)"
    unfolding encodable_def by (drule encodeFields_total) (auto simp: marshalState_def)
  assume "\<exists>m. marshalState s = Inr (JObj m)"
  then obtain m where "encodeFields (stateFields s) = Inr m" using marshalState_InrD by blast
  from encodeFields_noInl [OF this] show "encodable s"
    by (auto simp: encodable_def list_all_iff split: option.splits sum.splits)
qed

lemma encodable_latlon:
  "encodable s \<Longrightarrow> latitude s = Some lat \<Longrightarrow> f64_finite lat"
  "encodable s \<Longrightarrow> longitude s = Some lon \<Longrightarrow> f64_finite lon"
  by (auto simp: encodable_def stateFields_def encFloat_def split: if_splits)

section \<open>Properties\<close>

text \<open>C28: The state document is faithful: marshalling fails exactly when a field has no JSON form
  (a number that is not finite, a time out of range); otherwise each of the 23 fields is under its own
  key (a time as its RFC 3339 text), a field that is unknown is absent, and no other key occurs.\<close>

theorem marshalState_document:
  "case marshalState s of
     Inl e \<Rightarrow> \<not> encodable s
   | Inr d \<Rightarrow> encodable s \<and> (case d of
       JObj m \<Rightarrow>
         assoc m ''ev_battery_percentage'' = map_option JNum (evBatteryPercentage s)
         \<and> assoc m ''ev_battery_soh'' = map_option JNum (evBatterySoH s)
         \<and> assoc m ''ev_range'' = map_option JNum (evRange s)
         \<and> assoc m ''ev_range_unit'' = (if evRangeUnit s = '''' then None else Some (JStr (evRangeUnit s)))
         \<and> assoc m ''odometer'' = map_option JNum (odometer s)
         \<and> assoc m ''odometer_unit'' = (if odometerUnit s = '''' then None else Some (JStr (odometerUnit s)))
         \<and> assoc m ''charging_power'' = map_option JNum (chargingPowerKW s)
         \<and> assoc m ''charge_limit_ac'' = map_option JNum (chargeLimitAC s)
         \<and> assoc m ''charge_limit_dc'' = map_option JNum (chargeLimitDC s)
         \<and> assoc m ''outside_temp'' = map_option JNum (outsideTemperatureC s)
         \<and> assoc m ''inside_temp'' = map_option JNum (insideTemperatureC s)
         \<and> assoc m ''latitude'' = map_option JNum (latitude s)
         \<and> assoc m ''longitude'' = map_option JNum (longitude s)
         \<and> assoc m ''est_charge_time'' = map_option JInt (estChargeDurationMin s)
         \<and> assoc m ''est_fast_charge_time'' = map_option JInt (estFastChargeDurationMin s)
         \<and> assoc m ''battery_12v'' = map_option JInt (battery12VPercentage s)
         \<and> assoc m ''charging'' = map_option JBool (charging s)
         \<and> assoc m ''plugged_in'' = map_option JBool (pluggedIn s)
         \<and> assoc m ''locked'' = map_option JBool (locked s)
         \<and> assoc m ''tire_warning'' = map_option JBool (tirePressureWarning s)
         \<and> assoc m ''charge_port_door'' = map_option JBool (chargePortDoorOpen s)
         \<and> assoc m ''location_updated_at'' = Option.bind (locationUpdatedAt s) (\<lambda>t. map_option JStr (marshalTime t))
         \<and> assoc m ''last_updated'' = Option.bind (lastUpdatedAt s) (\<lambda>t. map_option JStr (marshalTime t))
         \<and> (assoc m k = None \<or> k \<in> set stateKeys)
     | _ \<Rightarrow> False)"
proof (cases "encodable s")
  case True
  then obtain m where m: "marshalState s = Inr (JObj m)" using encodable_marshal by blast
  note num = marshalState_fields(1) [OF m] and plain = marshalState_fields(2) [OF m] and time = marshalState_times [OF m]
  have "assoc m k = None \<or> k \<in> set stateKeys" using marshalState_fields(3) [OF m] by blast
  moreover note num [OF stateFields_at(1)] num [OF stateFields_at(2)] num [OF stateFields_at(3)]
    num [OF stateFields_at(8)] num [OF stateFields_at(9)] num [OF stateFields_at(10)] num [OF stateFields_at(13)]
    num [OF stateFields_at(15)] num [OF stateFields_at(19)] num [OF stateFields_at(20)] num [OF stateFields_at(21)]
    plain [OF stateFields_at(4) [unfolded enc_plain]] plain [OF stateFields_at(5) [unfolded enc_plain]]
    plain [OF stateFields_at(6) [unfolded enc_plain]] plain [OF stateFields_at(7) [unfolded enc_plain]]
    plain [OF stateFields_at(11) [unfolded enc_plain]] plain [OF stateFields_at(12) [unfolded enc_plain]]
    plain [OF stateFields_at(14) [unfolded enc_plain]] plain [OF stateFields_at(16) [unfolded enc_plain]]
    plain [OF stateFields_at(17) [unfolded enc_plain]] plain [OF stateFields_at(18) [unfolded enc_plain]]
    time [OF stateFields_at(22)] time [OF stateFields_at(23)]
  ultimately show ?thesis using m True by simp
next
  case False
  then have "\<nexists>m. marshalState s = Inr (JObj m)" using encodable_marshal by blast
  then obtain e where "marshalState s = Inl e" using marshalState_InrD [of s] by (cases "marshalState s") auto
  with False show ?thesis by simp
qed

text \<open>What one call of \<open>PublishState\<close> does over the recording transport.\<close>

lemma trackerAttributes_ok:
  "f64_finite lat \<Longrightarrow> f64_finite lon \<Longrightarrow> trackerAttributes lat lon =
    Inr [(''latitude'', JNum lat), (''longitude'', JNum lon), (''gps_accuracy'', JInt 1), (''source_type'', JStr ''gps'')]"
  by (simp add: trackerAttributes_def encFloat_def)

lemma recPublish_run: "recPublish t p r w = (Inr (), snd (recPublish t p r w))"
  by (simp add: recPublish_def)

lemma fst_recPublish: "fst (recPublish t p r w) = Inr ()"
  by (simp add: recPublish_def)

lemma recGet_recPublish: "recGet (snd (recPublish t p r w)) = (recGet w)(t \<mapsto> (p, r))"
  by (rule rp.pub_ok [OF recPublish_run])

definition withAttributes :: "ha_config \<Rightarrow> vehicle_state \<Rightarrow> (string \<Rightarrow> (payload \<times> bool) option) \<Rightarrow>
    string \<Rightarrow> (payload \<times> bool) option" where
  "withAttributes cfg st view =
     (case (latitude st, longitude st) of
        (Some lat, Some lon) \<Rightarrow> view(trackerAttributesTopic cfg \<mapsto>
          (Doc (JObj [(''latitude'', JNum lat), (''longitude'', JNum lon),
             (''gps_accuracy'', JInt 1), (''source_type'', JStr ''gps'')]), True))
      | _ \<Rightarrow> view)"

lemma publishTracker_recorder:
  assumes "encodable st"
  shows "fst (publishTracker recPublish cfg st r) = Inr ()
    \<and> recGet (snd (publishTracker recPublish cfg st r)) =
        (withAttributes cfg st (recGet r))(trackerStateTopic cfg \<mapsto> (Text ''None'', True))"
proof (cases "latitude st = None \<or> longitude st = None")
  case True
  then show ?thesis
    by (auto simp: publishTracker_def bindOp_def withAttributes_def recGet_recPublish fst_recPublish
        split: option.splits)
next
  case False
  then obtain lat lon where ll: "latitude st = Some lat" "longitude st = Some lon" by auto
  then have fin: "f64_finite lat" "f64_finite lon" using encodable_latlon assms by blast+
  let ?p = "recPublish (trackerAttributesTopic cfg) (Doc (JObj [(''latitude'', JNum lat),
      (''longitude'', JNum lon), (''gps_accuracy'', JInt 1), (''source_type'', JStr ''gps'')])) True r"
  have "wrapErr (Wrapped ''publish tracker attributes'') (recPublish (trackerAttributesTopic cfg)
      (Doc (JObj [(''latitude'', JNum lat), (''longitude'', JNum lon), (''gps_accuracy'', JInt 1),
        (''source_type'', JStr ''gps'')])) True) r = (Inr (), snd ?p)"
    by (rule wrapErr_Inr [OF recPublish_run])
  then have "publishTracker recPublish cfg st r =
      recPublish (trackerStateTopic cfg) (Text ''None'') True (snd ?p)"
    by (simp add: publishTracker_def ll trackerAttributes_ok [OF fin] bindOp_def)
  then show ?thesis by (simp add: withAttributes_def ll recGet_recPublish fst_recPublish)
qed

lemma publishState_recorded:
  assumes "marshalState (inDistanceUnit st (haDistanceUnit cfg)) = Inr d"
  shows "\<exists>r'. publishState recPublish cfg st r = (Inr (), r') \<and> recGet r' =
    (withAttributes cfg (inDistanceUnit st (haDistanceUnit cfg)) ((recGet r)(stateTopic cfg \<mapsto> (Doc d, True))))
      (trackerStateTopic cfg \<mapsto> (Text ''None'', True))"
proof -
  let ?st = "inDistanceUnit st (haDistanceUnit cfg)"
  have enc: "encodable ?st" using encodable_marshal marshalState_InrD assms by blast
  let ?r = "snd (recPublish (stateTopic cfg) (Doc d) True r)"
  have "wrapErr (Wrapped ''publish state'') (recPublish (stateTopic cfg) (Doc d) True) r = (Inr (), ?r)"
    by (rule wrapErr_Inr [OF recPublish_run])
  then have "publishState recPublish cfg st r = publishTracker recPublish cfg ?st ?r"
    by (simp add: publishState_def assms bindOp_def)
  then show ?thesis using publishTracker_recorder [OF enc, of cfg ?r]
    by (cases "publishTracker recPublish cfg ?st ?r") (simp add: recGet_recPublish)
qed

text \<open>A recording transport that refuses some topics.\<close>

definition faultyPublish :: "(string \<Rightarrow> gerr option) \<Rightarrow> recorder publish" where
  "faultyPublish bad t p retain r = (case bad t of Some e \<Rightarrow> (Inl e, r) | None \<Rightarrow> recPublish t p retain r)"

text \<open>The messages of one \<open>PublishState\<close>, in order, and what the refusal of one is returned as.\<close>

definition stateMessages :: "ha_config \<Rightarrow> vehicle_state \<Rightarrow> json \<Rightarrow> (string \<times> payload) list" where
  "stateMessages cfg st d =
     [(stateTopic cfg, Doc d)]
     @ (case (latitude st, longitude st) of
          (Some lat, Some lon) \<Rightarrow> [(trackerAttributesTopic cfg,
            Doc (JObj [(''latitude'', JNum lat), (''longitude'', JNum lon), (''gps_accuracy'', JInt 1), (''source_type'', JStr ''gps'')]))]
        | _ \<Rightarrow> [])
     @ [(trackerStateTopic cfg, Text ''None'')]"

definition refusal :: "ha_config \<Rightarrow> string \<Rightarrow> gerr \<Rightarrow> gerr" where
  "refusal cfg t e = (if t = stateTopic cfg then Wrapped ''publish state'' e
     else if t = trackerAttributesTopic cfg then Wrapped ''publish tracker attributes'' e else e)"

definition retained :: "(string \<times> payload) list \<Rightarrow> (string \<Rightarrow> (payload \<times> bool) option) \<Rightarrow> string \<Rightarrow> (payload \<times> bool) option" where
  "retained ms view = fold (\<lambda>(t, p) v. v(t \<mapsto> (p, True))) ms view"

lemma faulty_run:
  "bad t = Some e \<Longrightarrow> faultyPublish bad t p True r = (Inl e, r)"
  "bad t = None \<Longrightarrow> faultyPublish bad t p True r = (Inr (), snd (recPublish t p True r))"
  using recPublish_run by (simp_all add: faultyPublish_def)

text \<open>C16: One \<open>PublishState\<close> call, on every branch: over a transport that refuses any set of topics, it fails
  and publishes nothing when the state, in the display unit, cannot be marshalled; otherwise its
  messages (the document on the state topic, the coordinates on the attributes topic when both are
  known, \<open>None\<close> on the tracker topic, all retained) go out in order up to the first one refused and no
  further, every other topic stays as it was, and the call succeeds if none was refused and returns
  the error of the first refusal, with its context, if one was.\<close>

theorem publishState_recorder:
  "let st' = inDistanceUnit st (haDistanceUnit cfg); (x, r') = publishState (faultyPublish bad) cfg st r in
     case marshalState st' of
       Inl e \<Rightarrow> x = Inl (Wrapped ''marshal state'' e) \<and> r' = r
     | Inr d \<Rightarrow>
         recGet r' = retained (takeWhile (\<lambda>(t, p). bad t = None) (stateMessages cfg st' d)) (recGet r)
         \<and> x = (case dropWhile (\<lambda>(t, p). bad t = None) (stateMessages cfg st' d) of
                  [] \<Rightarrow> Inr ()
                | (t, p) # ms \<Rightarrow> Inl (refusal cfg t (the (bad t))))"
proof (cases "marshalState (inDistanceUnit st (haDistanceUnit cfg))")
  case (Inl e)
  then show ?thesis by (simp add: publishState_def)
next
  case (Inr d)
  define st' where "st' = inDistanceUnit st (haDistanceUnit cfg)"
  have d: "marshalState st' = Inr d" using Inr by (simp add: st'_def)
  then have enc: "encodable st'" using encodable_marshal marshalState_InrD by blast
  have fin: "f64_finite lat" "f64_finite lon" if "latitude st' = Some lat" "longitude st' = Some lon" for lat lon
    using that enc encodable_latlon by blast+
  note topics = vehicle_topics_distinct [of cfg]
  show ?thesis
    unfolding Let_def st'_def [symmetric] d publishState_def
    using topics fin
    by (cases "latitude st'"; cases "longitude st'"; cases "bad (stateTopic cfg)"; cases "bad (trackerAttributesTopic cfg)";
        cases "bad (trackerStateTopic cfg)")
       (auto simp: publishTracker_def trackerAttributes_ok bindOp_def wrapErr_def faulty_run stateMessages_def retained_def
          refusal_def recGet_recPublish)
qed

section \<open>Label and value agree; the retained topics\<close>

lemma entities_distance:
  "entities u ! 1 = sensorEntity ''ev_range'' ''Range'' ''distance'' ''measurement'' (if u = '''' then ''km'' else u) ''''"
  "entities u ! 4 = sensorEntity ''odometer'' ''Odometer'' ''distance'' ''total'' (if u = '''' then ''km'' else u) ''''"
  by (simp_all add: entities_def Let_def)

lemma payload_unit:
  "eComponent e = Sensor \<Longrightarrow> eUnit e = u \<Longrightarrow> u \<noteq> '''' \<Longrightarrow>
    assoc (buildEntityPayload c e d) ''unit_of_measurement'' = Some (JStr u)"
  by (simp add: buildEntityPayload_def optField_def assoc_append Let_def)

text \<open>C27: Label and value always agree: when the range and the odometer are known with their units, each
  in kilometres or miles, the published document carries both as the same lengths in the display unit
  (to one decimal), labelled with that unit, the very unit the discovery payloads of the Range and
  Odometer sensors announce.\<close>

theorem published_unit_matches_label:
  assumes "haDistanceUnit cfg = u" and "u \<in> {''km'', ''mi''}"
    and "evRange st = Some (Fin x)" and "evRangeUnit st \<in> {''km'', ''mi''}" and "\<bar>x\<bar> \<le> 2 ^ 24"
    and "odometer st = Some (Fin y)" and "odometerUnit st \<in> {''km'', ''mi''}" and "\<bar>y\<bar> \<le> 2 ^ 24"
    and "marshalState (inDistanceUnit st u) = Inr (JObj m)"
  shows "\<exists>x' y'. assoc m ''ev_range'' = Some (JNum (Fin x')) \<and> assoc m ''odometer'' = Some (JNum (Fin y'))
    \<and> \<bar>x' - x * unitLength (evRangeUnit st) / unitLength u\<bar> \<le> 1 / 20 + 1 / 10 ^ 6
    \<and> \<bar>y' - y * unitLength (odometerUnit st) / unitLength u\<bar> \<le> 1 / 20 + 1 / 10 ^ 6
    \<and> assoc m ''ev_range_unit'' = Some (JStr u) \<and> assoc m ''odometer_unit'' = Some (JStr u)
    \<and> assoc (buildEntityPayload cfg (entities (haDistanceUnit cfg) ! 1) d) ''unit_of_measurement'' = Some (JStr u)
    \<and> assoc (buildEntityPayload cfg (entities (haDistanceUnit cfg) ! 4) d) ''unit_of_measurement'' = Some (JStr u)"
proof -
  have u: "u \<noteq> ''''" using assms(2) by auto
  let ?s = "inDistanceUnit st u"
  obtain x' where x': "convertDistanceField (Some (Fin x)) (evRangeUnit st) u = (Some (Fin x'), u)"
      "\<bar>x' - x * unitLength (evRangeUnit st) / unitLength u\<bar> \<le> 1 / 20 + 1 / 10 ^ 6"
    using convertDistanceField_close [OF assms(5,4,2)] by blast
  obtain y' where y': "convertDistanceField (Some (Fin y)) (odometerUnit st) u = (Some (Fin y'), u)"
      "\<bar>y' - y * unitLength (odometerUnit st) / unitLength u\<bar> \<le> 1 / 20 + 1 / 10 ^ 6"
    using convertDistanceField_close [OF assms(8,7,2)] by blast
  have s: "evRange ?s = Some (Fin x')" "evRangeUnit ?s = u" "odometer ?s = Some (Fin y')" "odometerUnit ?s = u"
    using u x'(1) y'(1) assms(3,6) by (simp_all add: inDistanceUnit_def)
  note num = marshalState_fields(1) [OF assms(9)] and plain = marshalState_fields(2) [OF assms(9)]
  have "assoc m ''ev_range_unit'' = Some (JStr u)" "assoc m ''odometer_unit'' = Some (JStr u)"
    using plain [OF stateFields_at(4) [unfolded enc_plain]] plain [OF stateFields_at(14) [unfolded enc_plain]] s u
    by simp_all
  moreover have "assoc m ''ev_range'' = Some (JNum (Fin x'))" "assoc m ''odometer'' = Some (JNum (Fin y'))"
    using num [OF stateFields_at(3)] num [OF stateFields_at(13)] s by simp_all
  ultimately show ?thesis
    using u x'(2) y'(2) assms(1) by (auto simp: payload_unit entities_distance sensorEntity_def simp del: One_nat_def)
qed

text \<open>The car of the example: 268 miles of range, 14213 kilometres driven.\<close>

theorem published_unit_matches_label_witness:
  "\<exists>m x' y'. marshalState (inDistanceUnit (emptyState\<lparr>evRange := Some (Fin 268), evRangeUnit := ''mi'',
       odometer := Some (Fin 14213), odometerUnit := ''km''\<rparr>) ''mi'') = Inr (JObj m)
     \<and> assoc m ''ev_range'' = Some (JNum (Fin x')) \<and> \<bar>x' - 268\<bar> \<le> 1 / 20 + 1 / 10 ^ 6
     \<and> assoc m ''odometer'' = Some (JNum (Fin y')) \<and> \<bar>y' - 14213 / (1609344 / 1000000)\<bar> \<le> 1 / 20 + 1 / 10 ^ 6
     \<and> assoc m ''odometer_unit'' = Some (JStr ''mi'')"
proof -
  define st where "st = emptyState\<lparr>evRange := Some (Fin 268), evRangeUnit := ''mi'', odometer := Some (Fin 14213), odometerUnit := ''km''\<rparr>"
  obtain y where "convertDistanceField (Some (Fin 14213)) ''km'' ''mi'' = (Some (Fin y), ''mi'')"
    using convertDistanceField_close [of 14213 "''km''" "''mi''"] by auto
  then have "inDistanceUnit st ''mi'' = st\<lparr>odometer := Some (Fin y), odometerUnit := ''mi''\<rparr>"
    by (simp add: inDistanceUnit_def st_def emptyState_def convertDistanceField_unchanged)
  then obtain m where m: "marshalState (inDistanceUnit st ''mi'') = Inr (JObj m)"
    by (simp add: marshalState_def stateFields_def st_def emptyState_def encFloat_def encBool_def
        encInt_def encString_def f64_finite_def)
  have "evRange st = Some (Fin 268)" "evRangeUnit st = ''mi''" "odometer st = Some (Fin 14213)" "odometerUnit st = ''km''"
    by (simp_all add: st_def emptyState_def)
  with published_unit_matches_label [where st = st and u = "''mi''" and x = 268 and y = 14213 and m = m and d = JNull
      and cfg = "\<lparr>haDiscoveryPrefix = [], haTopicPrefix = [], haVIN = [], haModel = [], haName = [], haDistanceUnit = ''mi''\<rparr>"]
    m show ?thesis unfolding st_def [symmetric] by (auto simp: unitLength_def)
qed

text \<open>The calls of the service, and an invariant of the world kept by each of its publishes.\<close>

datatype pub_op = PDiscovery | PAvailability bool | PState vehicle_state

fun pubStep :: "'w publish \<Rightarrow> ha_config \<Rightarrow> pub_op \<Rightarrow> 'w \<Rightarrow> 'w" where
  "pubStep pub cfg PDiscovery w = snd (publishDiscovery pub cfg w)"
| "pubStep pub cfg (PAvailability b) w = snd (publishAvailability pub cfg b w)"
| "pubStep pub cfg (PState st) w = snd (publishState pub cfg st w)"

text \<open>The messages the service may publish for a vehicle.\<close>

definition allowedMsg :: "ha_config \<Rightarrow> string \<Rightarrow> payload \<Rightarrow> bool" where
  "allowedMsg cfg t p \<longleftrightarrow>
     (t, p) \<in> set (buildDiscovery cfg)
     \<or> (t = availabilityTopic cfg \<and> p \<in> {Text ''online'', Text ''offline''})
     \<or> (t = trackerStateTopic cfg \<and> p = Text ''None'')
     \<or> (t \<in> {stateTopic cfg, trackerAttributesTopic cfg} \<and> (case p of Doc (JObj m) \<Rightarrow> True | _ \<Rightarrow> False))"

lemma publishAll_keeps:
  "(\<And>t p. (t, p) \<in> set ms \<Longrightarrow> keeps I (pub t p True)) \<Longrightarrow> keeps I (publishAll pub ms)"
  by (induction ms) (auto intro!: keeps_intros)

text \<open>Publishing a state says nothing about availability.\<close>

lemma publishTracker_keeps:
  assumes "\<And>t p. allowedMsg cfg t p \<Longrightarrow> t \<noteq> availabilityTopic cfg \<Longrightarrow> keeps I (pub t p True)"
  shows "keeps I (publishTracker pub cfg st)"
  using vehicle_topics_distinct [of cfg]
  by (auto simp: publishTracker_def allowedMsg_def intro!: keeps_intros assms split: option.split sum.split)

lemma publishState_keeps:
  assumes keep: "\<And>t p. allowedMsg cfg t p \<Longrightarrow> t \<noteq> availabilityTopic cfg \<Longrightarrow> keeps I (pub t p True)"
  shows "keeps I (publishState pub cfg st)"
proof (cases "marshalState (inDistanceUnit st (haDistanceUnit cfg))")
  case (Inl e)
  then show ?thesis by (simp add: publishState_def keeps_fail)
next
  case (Inr d)
  then obtain m where "d = JObj m" using marshalState_InrD by blast
  then have "allowedMsg cfg (stateTopic cfg) (Doc d)" by (simp add: allowedMsg_def)
  then show ?thesis using Inr vehicle_topics_distinct [of cfg]
    by (auto simp: publishState_def intro!: keeps_intros keep publishTracker_keeps)
qed

lemma pubStep_invariant:
  assumes keep: "\<And>t p. allowedMsg cfg t p \<Longrightarrow> keeps I (pub t p True)" and "I w"
  shows "I (pubStep pub cfg op' w)"
proof (cases op')
  case PDiscovery
  have "keeps I (publishAll pub (buildDiscovery cfg))"
    by (rule publishAll_keeps, rule keep) (simp add: allowedMsg_def)
  then show ?thesis using PDiscovery assms(2) by (simp add: publishDiscovery_def keepsD)
next
  case (PAvailability b)
  then show ?thesis using assms(2)
    by (auto simp: publishAvailability_def allowedMsg_def intro!: keepsD [OF keep])
next
  case (PState st)
  have "keeps I (publishState pub cfg st)" by (rule publishState_keeps, rule keep)
  then show ?thesis using PState assms(2) by (simp add: keepsD)
qed

lemma pubRun_invariant:
  assumes "\<And>t p. allowedMsg cfg t p \<Longrightarrow> keeps I (pub t p True)" and "I w"
  shows "I (fold (pubStep pub cfg) ops w)"
  using assms(2)
proof (induction ops arbitrary: w)
  case (Cons op' ops)
  have "I (pubStep pub cfg op' w)" using Cons.prems assms(1) by (simp add: pubStep_invariant)
  then show ?case by (simp add: Cons.IH)
qed simp

text \<open>What is retained on the availability topic, over the recording transport.\<close>

definition availability :: "ha_config \<Rightarrow> recorder \<Rightarrow> (payload \<times> bool) option" where
  "availability cfg b = recGet b (availabilityTopic cfg)"

lemma recPublish_availability: "t \<noteq> availabilityTopic cfg \<Longrightarrow> keeps (\<lambda>b. availability cfg b = x) (recPublish t p r)"
  by (rule keepsI) (simp add: availability_def recGet_recPublish)

lemma publish_availability_frame:
  "keeps (\<lambda>b. availability cfg b = x) (publishState recPublish cfg st)"
  "keeps (\<lambda>b. availability cfg b = x) (publishDiscovery recPublish cfg)"
proof -
  show "keeps (\<lambda>b. availability cfg b = x) (publishState recPublish cfg st)"
    by (rule publishState_keeps) (rule recPublish_availability)
  have "t \<noteq> availabilityTopic cfg" if "(t, p) \<in> set (buildDiscovery cfg)" for t p
    using that discovery_topic_other [of cfg] by (auto simp: buildDiscovery_def)
  then show "keeps (\<lambda>b. availability cfg b = x) (publishDiscovery recPublish cfg)"
    unfolding publishDiscovery_def by (intro publishAll_keeps recPublish_availability) blast
qed

lemma publishAvailability_recorded:
  "availability cfg (snd (publishAvailability recPublish cfg online b)) =
     Some (Text (if online then ''online'' else ''offline''), True)"
  by (simp add: publishAvailability_def availability_def recGet_recPublish)

text \<open>The books of the recording transport.\<close>

definition recorderOk :: "recorder \<Rightarrow> bool" where
  "recorderOk r \<longleftrightarrow> distinct (recTopics r) \<and> set (recTopics r) = {t. recGet r t \<noteq> None}"

lemma recorderOk_keeps: "keeps recorderOk (recPublish t p r)"
  by (rule keepsI) (auto simp: recorderOk_def recPublish_def recTopics_def recGet_def Let_def)

definition msgsOk :: "ha_config \<Rightarrow> recorder \<Rightarrow> bool" where
  "msgsOk cfg = rp.holds (\<lambda>t p r. r \<and> allowedMsg cfg t p)"

lemma msgsOk_keeps: "allowedMsg cfg t p \<Longrightarrow> keeps (msgsOk cfg) (recPublish t p True)"
  unfolding msgsOk_def by (rule keepsI, rule rp.holds_pub [OF _ _ recPublish_run]) auto

lemma allowed_tracker: "allowedMsg cfg (trackerStateTopic cfg) p \<longleftrightarrow> p = Text ''None''"
proof -
  have "(trackerStateTopic cfg, p) \<notin> set (buildDiscovery cfg)"
  proof
    assume "(trackerStateTopic cfg, p) \<in> set (buildDiscovery cfg)"
    then obtain e where "trackerStateTopic cfg = discoveryTopic cfg e" by (auto simp: buildDiscovery_def)
    with discovery_topic_other [of cfg e] show False by simp
  qed
  then show ?thesis using vehicle_topics_distinct [of cfg] by (auto simp: allowedMsg_def)
qed

lemma allowed_availability:
  "allowedMsg cfg (availabilityTopic cfg) p \<longleftrightarrow> p \<in> {Text ''online'', Text ''offline''}"
proof -
  have "(availabilityTopic cfg, p) \<notin> set (buildDiscovery cfg)"
  proof
    assume "(availabilityTopic cfg, p) \<in> set (buildDiscovery cfg)"
    then obtain e where "availabilityTopic cfg = discoveryTopic cfg e" by (auto simp: buildDiscovery_def)
    with discovery_topic_other [of cfg e] show False by simp
  qed
  then show ?thesis using vehicle_topics_distinct [of cfg] by (auto simp: allowedMsg_def)
qed

text \<open>C26: Whatever the service is asked to publish, in any order, everything it leaves on the broker
  is retained, the tracker topic never carries anything but \<open>None\<close>, so the tracker is never pinned
  to a zone, and the availability topic is online or offline; the recording transport lists each
  topic once, in first-seen order.\<close>

theorem published_topics_safe:
  "let r = fold (pubStep recPublish cfg) ops newRecorder in
     (case recGet r t of None \<Rightarrow> True | Some (p, retain) \<Rightarrow> retain \<and> allowedMsg cfg t p)
     \<and> recGet r (trackerStateTopic cfg) \<in> {None, Some (Text ''None'', True)}
     \<and> recGet r (availabilityTopic cfg) \<in> {None, Some (Text ''online'', True), Some (Text ''offline'', True)}
     \<and> distinct (recTopics r) \<and> set (recTopics r) = {t. recGet r t \<noteq> None}"
proof -
  define r where "r = fold (pubStep recPublish cfg) ops newRecorder"
  have "recorderOk newRecorder" "msgsOk cfg newRecorder"
    by (simp_all add: newRecorder_def recorderOk_def recTopics_def recGet_def msgsOk_def rp.holds_def)
  then have books: "recorderOk r" and msgs: "msgsOk cfg r"
    unfolding r_def by (auto intro!: pubRun_invariant recorderOk_keeps msgsOk_keeps)
  have ok: "retain \<and> allowedMsg cfg t p" if "recGet r t = Some (p, retain)" for t p retain
    using msgs that unfolding msgsOk_def rp.holds_def by blast
  have tr: "recGet r (trackerStateTopic cfg) \<in> {None, Some (Text ''None'', True)}"
    using ok [of "trackerStateTopic cfg"] allowed_tracker
    by (cases "recGet r (trackerStateTopic cfg)") auto
  have av: "recGet r (availabilityTopic cfg) \<in> {None, Some (Text ''online'', True), Some (Text ''offline'', True)}"
    using ok [of "availabilityTopic cfg"] allowed_availability
    by (cases "recGet r (availabilityTopic cfg)") auto
  have "case recGet r t of None \<Rightarrow> True | Some (p, retain) \<Rightarrow> retain \<and> allowedMsg cfg t p"
    using ok [of t] by (auto split: option.split prod.split)
  with tr av books show ?thesis by (simp only: Let_def r_def [symmetric] recorderOk_def simp_thms)
qed

end
