(* ===== verification/Mqtt.thy ===== *)
theory Mqtt
  imports Publisher
begin

text \<open>
  \<open>internal/mqtt/client.go\<close>: how the connection is configured (the will included), the callback run on
  every connection-up, and the clean disconnect. The connection manager of \<open>autopaho\<close> is given by
  its constructor, its wait for the connection and its disconnect, over the broker's world; \<open>Publish\<close>
  is \<open>Publisher.mqttPublish\<close>.
\<close>

record mqtt_options =
  mqBrokerURL :: string
  mqUsername :: string
  mqPassword :: string
  mqClientID :: string
  mqAvailabilityTopic :: string

text \<open>The will: topic, payload, QoS and retain flag.\<close>

record paho_config =
  pcKeepAlive :: nat
  pcCleanStart :: bool
  pcUsername :: string
  pcPassword :: string
  pcClientID :: string
  pcWill :: "(string \<times> payload \<times> nat \<times> bool) option"

text \<open>The client: the registered callback, \<open>None\<close> when nil.\<close>

record 'f mqtt_client =
  mqOnUp :: "'f option"

definition pahoConfig :: "mqtt_options \<Rightarrow> paho_config" where
  "pahoConfig o' = \<lparr>pcKeepAlive = 20, pcCleanStart = False, pcUsername = mqUsername o', pcPassword = mqPassword o',
     pcClientID = mqClientID o',
     pcWill = (if mqAvailabilityTopic o' \<noteq> '''' then Some (mqAvailabilityTopic o', Text ''offline'', 1, True) else None)\<rparr>"

definition mqttConnect ::
  "(string \<Rightarrow> gerr + 'u) \<Rightarrow> ('u \<Rightarrow> paho_config \<Rightarrow> ('m, gerr, unit) op) \<Rightarrow> ('m, gerr, unit) op \<Rightarrow>
    'f option \<Rightarrow> mqtt_options \<Rightarrow> ('m, gerr, 'f mqtt_client) op" where
  "mqttConnect parseURL newConnection awaitConnection onUp o' =
     (case parseURL (mqBrokerURL o') of
        Inl e \<Rightarrow> fail (Wrapped ''parse MQTT broker URL'' e)
      | Inr u \<Rightarrow>
          bindOp (wrapErr (Wrapped ''mqtt new connection'') (newConnection u (pahoConfig o'))) (\<lambda>_.
          bindOp (wrapErr (Wrapped ''mqtt await connection'') awaitConnection) (\<lambda>_. ret \<lparr>mqOnUp = onUp\<rparr>)))"

definition setOnConnectionUp :: "'f \<Rightarrow> 'f mqtt_client \<Rightarrow> 'f mqtt_client" where
  "setOnConnectionUp f c = c\<lparr>mqOnUp := Some f\<rparr>"

text \<open>\<open>fireOnUp\<close>: the function a connection-up starts, if any.\<close>

definition fireOnUp :: "('m \<Rightarrow> 'm) mqtt_client \<Rightarrow> 'm \<Rightarrow> 'm" where
  "fireOnUp c w = (case mqOnUp c of None \<Rightarrow> w | Some f \<Rightarrow> f w)"

definition mqttDisconnect :: "('m, gerr, unit) op \<Rightarrow> ('m, gerr, unit) op" where
  "mqttDisconnect cmDisconnect = cmDisconnect"

end
