(* ===== verification/Scheduler.thy ===== *)
theory Scheduler
  imports Model
begin

text \<open>
  \<open>internal/scheduler/scheduler.go\<close>: one poll, one force refresh, the retry loop with its
  backoff, the time until the next force refresh, and the two loops that run them. What the
  scheduler is given (the fetcher, the publisher, the health reporter, the clock, the waits and
  its context) is the record \<open>sched_env\<close> over a world \<open>'w\<close>. \<open>traced\<close> adds a log of the calls to
  any such environment without changing what they do; the claims are about that log. The lock
  \<open>apiMu\<close> is modelled by the step relation at the end of the theory.
\<close>

section \<open>Interfaces and configuration\<close>

record 'w sched_env =
  seCached :: "vehicle \<Rightarrow> ('w, gerr, vehicle_state) op"
  seForce :: "vehicle \<Rightarrow> ('w, gerr, vehicle_state) op"
  sePublish :: "vehicle_state \<Rightarrow> ('w, gerr, unit) op"
  seSuccess :: "'w \<Rightarrow> 'w"
  seFailure :: "'w \<Rightarrow> 'w"
  seCtxErr :: "'w \<Rightarrow> gerr option"
  seNow :: "'w \<Rightarrow> int \<times> 'w"
  seAfter :: "int \<Rightarrow> 'w \<Rightarrow> bool \<times> 'w"   \<comment> \<open>select on Done and after: whether Done was taken\<close>
  seTick :: "int \<Rightarrow> 'w \<Rightarrow> bool \<times> 'w"    \<comment> \<open>select on Done and the ticker\<close>

record sched_config =
  sdVehicle :: vehicle
  sdPollInterval :: int
  sdMaxRetries :: int
  sdForceEnabled :: bool
  sdForceHour :: int
  sdForceMinute :: int
  sdForceLocation :: "location option"
  sdForceOnlyWhenPluggedIn :: bool

definition newScheduler :: "sched_config \<Rightarrow> sched_config" where
  "newScheduler cfg = (if sdMaxRetries cfg < 0 then cfg\<lparr>sdMaxRetries := 0\<rparr> else cfg)"

section \<open>Retries\<close>

text \<open>The returns of a zero state with a possibly nil error.\<close>

definition zeroWith :: "gerr option \<Rightarrow> gerr + vehicle_state" where
  "zeroWith e = (case e of Some err \<Rightarrow> Inl err | None \<Rightarrow> Inr emptyState)"

definition fetchOnce :: "'w sched_env \<Rightarrow> sched_config \<Rightarrow> bool \<Rightarrow> ('w, gerr, vehicle_state) op" where
  "fetchOnce env cfg force = (if force then seForce env (sdVehicle cfg) else seCached env (sdVehicle cfg))"

text \<open>The loop of \<open>fetchWithRetry\<close> from the given attempt, backoff and last error.\<close>

function retryLoop ::
  "'w sched_env \<Rightarrow> sched_config \<Rightarrow> bool \<Rightarrow> int \<Rightarrow> int \<Rightarrow> gerr option \<Rightarrow> ('w, gerr, vehicle_state) op" where
  "retryLoop env cfg force attempt backoff lastErr w =
     (if sdMaxRetries cfg < attempt then (zeroWith lastErr, w)
      else case (if 0 < attempt then seAfter env backoff w else (False, w)) of (done', w1) \<Rightarrow>
        if done' then (zeroWith (seCtxErr env w1), w1)
        else let backoff' = (if 0 < attempt then wrap64 (backoff * 2) else backoff) in
          case fetchOnce env cfg force w1 of
            (Inr st, w2) \<Rightarrow> (Inr st, w2)
          | (Inl err, w2) \<Rightarrow>
              (case seCtxErr env w2 of
                 Some ce \<Rightarrow> (Inl ce, w2)
               | None \<Rightarrow> retryLoop env cfg force (attempt + 1) backoff' (Some err) w2))"
  by pat_completeness auto
termination
  by (relation "measure (\<lambda>(env, cfg, force, attempt, backoff, lastErr, w). nat (sdMaxRetries cfg + 1 - attempt))") auto

declare retryLoop.simps [simp del]

definition fetchWithRetry :: "'w sched_env \<Rightarrow> sched_config \<Rightarrow> bool \<Rightarrow> ('w, gerr, vehicle_state) op" where
  "fetchWithRetry env cfg force = retryLoop env cfg force 0 nsPerSec None"

section \<open>Poll and force refresh\<close>

text \<open>The part the two share: publish what was fetched and report the outcome.\<close>

definition finish :: "'w sched_env \<Rightarrow> (gerr + vehicle_state) \<times> 'w \<Rightarrow> 'w" where
  "finish env r = (case r of
      (Inl err, w1) \<Rightarrow> if seCtxErr env w1 \<noteq> None then w1 else seFailure env w1
    | (Inr st, w1) \<Rightarrow>
        (case sePublish env st w1 of
           (Inl err, w2) \<Rightarrow> seFailure env w2
         | (Inr u, w2) \<Rightarrow> seSuccess env w2))"

definition poll :: "'w sched_env \<Rightarrow> sched_config \<Rightarrow> 'w \<Rightarrow> 'w" where
  "poll env cfg w = finish env (fetchWithRetry env cfg False w)"

definition forceRefresh :: "'w sched_env \<Rightarrow> sched_config \<Rightarrow> 'w \<Rightarrow> 'w" where
  "forceRefresh env cfg w =
     (if sdForceOnlyWhenPluggedIn cfg
      then (case seCached env (sdVehicle cfg) w of
              (Inl err, w1) \<Rightarrow> w1
            | (Inr cached, w1) \<Rightarrow>
                if pluggedIn cached \<noteq> Some True then w1
                else finish env (fetchWithRetry env cfg True w1))
      else finish env (fetchWithRetry env cfg True w))"

section \<open>The schedule\<close>

definition untilNextForce :: "sched_config \<Rightarrow> int \<Rightarrow> int" where
  "untilNextForce cfg now =
     (let loc = (case sdForceLocation cfg of None \<Rightarrow> utcLoc | Some l \<Rightarrow> l) in
      case civilFromDays (localDay loc (now div nsPerSec)) of (y, m, d) \<Rightarrow>
        let next = dateIn loc y m d (sdForceHour cfg) (sdForceMinute cfg) * nsPerSec;
            next' = (if \<not> now < next then dateIn loc y m (d + 1) (sdForceHour cfg) (sdForceMinute cfg) * nsPerSec
                     else next)
        in next' - now)"

text \<open>The two loops, for a number of rounds; True when the context ended them.\<close>

fun pollTicks :: "nat \<Rightarrow> 'w sched_env \<Rightarrow> sched_config \<Rightarrow> 'w \<Rightarrow> bool \<times> 'w" where
  "pollTicks 0 env cfg w = (False, w)"
| "pollTicks (Suc n) env cfg w =
     (case seTick env (sdPollInterval cfg) w of (done', w1) \<Rightarrow>
        if done' then (True, w1) else pollTicks n env cfg (poll env cfg w1))"

definition pollLoop :: "nat \<Rightarrow> 'w sched_env \<Rightarrow> sched_config \<Rightarrow> 'w \<Rightarrow> bool \<times> 'w" where
  "pollLoop n env cfg w = pollTicks n env cfg (poll env cfg w)"

fun forceLoop :: "nat \<Rightarrow> 'w sched_env \<Rightarrow> sched_config \<Rightarrow> 'w \<Rightarrow> bool \<times> 'w" where
  "forceLoop 0 env cfg w = (False, w)"
| "forceLoop (Suc n) env cfg w =
     (case seNow env w of (now, w1) \<Rightarrow>
      case seAfter env (untilNextForce cfg now) w1 of (done', w2) \<Rightarrow>
        if done' then (True, w2) else forceLoop n env cfg (forceRefresh env cfg w2))"

text \<open>A single cycle on demand.\<close>

definition PollNow :: "'w sched_env \<Rightarrow> sched_config \<Rightarrow> 'w \<Rightarrow> 'w" where
  "PollNow env cfg w = poll env cfg w"

definition ForceNow :: "'w sched_env \<Rightarrow> sched_config \<Rightarrow> 'w \<Rightarrow> 'w" where
  "ForceNow env cfg w = forceRefresh env cfg w"

section \<open>A log of the calls\<close>

datatype sched_event =
    ECached "gerr + vehicle_state"
  | EForce "gerr + vehicle_state"
  | EPublish vehicle_state "gerr + unit"
  | ESuccess
  | EFailure
  | EWait int bool

definition logged :: "('a \<Rightarrow> sched_event list) \<Rightarrow> ('w \<Rightarrow> 'a \<times> 'w) \<Rightarrow> 'w \<times> sched_event list \<Rightarrow> 'a \<times> 'w \<times> sched_event list" where
  "logged ev m = (\<lambda>(w, l). case m w of (x, w') \<Rightarrow> (x, w', l @ ev x))"

definition traced :: "'w sched_env \<Rightarrow> ('w \<times> sched_event list) sched_env" where
  "traced env = \<lparr>
     seCached = (\<lambda>v. logged (\<lambda>x. [ECached x]) (seCached env v)),
     seForce = (\<lambda>v. logged (\<lambda>x. [EForce x]) (seForce env v)),
     sePublish = (\<lambda>st. logged (\<lambda>x. [EPublish st x]) (sePublish env st)),
     seSuccess = (\<lambda>(w, l). (seSuccess env w, l @ [ESuccess])),
     seFailure = (\<lambda>(w, l). (seFailure env w, l @ [EFailure])),
     seCtxErr = (\<lambda>(w, l). seCtxErr env w),
     seNow = logged (\<lambda>_. []) (seNow env),
     seAfter = (\<lambda>d. logged (\<lambda>b. [EWait d b]) (seAfter env d)),
     seTick = (\<lambda>d. logged (\<lambda>b. []) (seTick env d))\<rparr>"

section \<open>Traces\<close>

definition fetchEv :: "bool \<Rightarrow> gerr + vehicle_state \<Rightarrow> sched_event" where
  "fetchEv force r = (if force then EForce r else ECached r)"

definition nextBackoff :: "int \<Rightarrow> int \<Rightarrow> int" where
  "nextBackoff attempt backoff = (if 0 < attempt then wrap64 (backoff * 2) else backoff)"

definition waited :: "int \<Rightarrow> int \<Rightarrow> sched_event list" where
  "waited attempt backoff = (if 0 < attempt then [EWait backoff False] else [])"

text \<open>
  The runs of the retry loop: the calls it makes from an attempt on, and its result. A
  cancelled wait or a cancelled context after a failed call ends it with the context's error
  (which is not nil in a lawful environment).
\<close>

definition ctxLaw :: "'w sched_env \<Rightarrow> bool" where
  "ctxLaw env \<longleftrightarrow> (\<forall>d w. fst (seAfter env d w) \<longrightarrow> seCtxErr env (snd (seAfter env d w)) \<noteq> None)"

inductive retryTrace ::
  "bool \<Rightarrow> bool \<Rightarrow> int \<Rightarrow> int \<Rightarrow> int \<Rightarrow> gerr option \<Rightarrow> sched_event list \<Rightarrow> gerr + vehicle_state \<Rightarrow> bool"
  for lawful force mx where
  exhausted: "mx < a \<Longrightarrow> retryTrace lawful force mx a b le [] (zeroWith le)"
| cancelled: "a \<le> mx \<Longrightarrow> 0 < a \<Longrightarrow> \<not> lawful \<or> ce \<noteq> None \<Longrightarrow> retryTrace lawful force mx a b le [EWait b True] (zeroWith ce)"
| fetched: "a \<le> mx \<Longrightarrow> retryTrace lawful force mx a b le (waited a b @ [fetchEv force (Inr st)]) (Inr st)"
| stopped: "a \<le> mx \<Longrightarrow> retryTrace lawful force mx a b le (waited a b @ [fetchEv force (Inl e)]) (Inl ce)"
| again: "a \<le> mx \<Longrightarrow> retryTrace lawful force mx (a + 1) (nextBackoff a b) (Some e) es x \<Longrightarrow>
    retryTrace lawful force mx a b le (waited a b @ fetchEv force (Inl e) # es) x"

inductive_cases retryTraceE: "retryTrace lawful force mx a b le es x"

lemma logged_run: "logged ev m (w, l) = (fst (m w), snd (m w), l @ ev (fst (m w)))"
  by (simp add: logged_def split_beta)

lemma fetchOnce_traced:
  "fetchOnce (traced env) cfg force (w, l) =
     (fst (fetchOnce env cfg force w), snd (fetchOnce env cfg force w), l @ [fetchEv force (fst (fetchOnce env cfg force w))])"
  by (simp add: fetchOnce_def traced_def logged_run fetchEv_def)

lemma ctxErr_traced [simp]: "seCtxErr (traced env) (w, l) = seCtxErr env w"
  by (simp add: traced_def)

lemma after_traced:
  "seAfter (traced env) d (w, l) = (fst (seAfter env d w), snd (seAfter env d w), l @ [EWait d (fst (seAfter env d w))])"
  by (simp add: traced_def logged_run)

lemma publish_traced:
  "sePublish (traced env) st (w, l) = (fst (sePublish env st w), snd (sePublish env st w), l @ [EPublish st (fst (sePublish env st w))])"
  by (simp add: traced_def logged_run)

lemma marks_traced:
  "seSuccess (traced env) (w, l) = (seSuccess env w, l @ [ESuccess])"
  "seFailure (traced env) (w, l) = (seFailure env w, l @ [EFailure])"
  by (simp_all add: traced_def)

lemmas traced_simps = fetchOnce_traced after_traced publish_traced marks_traced

text \<open>The traced loop runs along these traces and does to the world what the loop does.\<close>

lemma retryLoop_traced:
  "\<exists>es. retryLoop (traced env) cfg force a b le (w, l) =
      (fst (retryLoop env cfg force a b le w), snd (retryLoop env cfg force a b le w), l @ es)
    \<and> retryTrace (ctxLaw env) force (sdMaxRetries cfg) a b le es (fst (retryLoop env cfg force a b le w))"
proof (induction "nat (sdMaxRetries cfg + 1 - a)" arbitrary: a b le w l rule: less_induct)
  case less
  show ?case
  proof (cases "sdMaxRetries cfg < a")
    case True
    then show ?thesis by (subst (1 2 3 4) retryLoop.simps) (auto intro: exhausted)
  next
    case in_range: False
    obtain c w1 where w1: "(if 0 < a then seAfter env b w else (False, w)) = (c, w1)"
      by (cases "if 0 < a then seAfter env b w else (False, w)")
    then have tr1: "(if 0 < a then seAfter (traced env) b (w, l) else (False, (w, l))) =
        (c, w1, l @ (if 0 < a then [EWait b c] else []))"
      by (auto simp: after_traced split: if_splits)
    show ?thesis
    proof (cases c)
      case True
      then have "0 < a" and "\<not> ctxLaw env \<or> seCtxErr env w1 \<noteq> None"
        using w1 by (auto simp: ctxLaw_def split: if_splits) (metis fst_conv snd_conv)
      with True in_range w1 tr1 show ?thesis
        by (subst (1 2 3 4) retryLoop.simps) (auto intro!: cancelled)
    next
      case False
      then have tr1': "(if 0 < a then seAfter (traced env) b (w, l) else (False, (w, l))) =
          (False, w1, l @ waited a b)" using tr1 by (simp add: waited_def)
      obtain r w2 where r: "fetchOnce env cfg force w1 = (r, w2)" by (cases "fetchOnce env cfg force w1")
      then have tr2: "fetchOnce (traced env) cfg force (w1, l @ waited a b) =
          (r, w2, l @ waited a b @ [fetchEv force r])" by (simp add: fetchOnce_traced)
      note head = w1 tr1' r tr2 False in_range
      show ?thesis
      proof (cases r)
        case (Inr st)
        with head show ?thesis by (subst (1 2 3 4) retryLoop.simps) (auto intro!: fetched)
      next
        case (Inl e)
        show ?thesis
        proof (cases "seCtxErr env w2")
          case (Some ce)
          with head Inl show ?thesis by (subst (1 2 3 4) retryLoop.simps) (auto intro!: stopped)
        next
          case None
          have "nat (sdMaxRetries cfg + 1 - (a + 1)) < nat (sdMaxRetries cfg + 1 - a)" using in_range by simp
          from less.hyps [OF this, of "nextBackoff a b" "Some e" w2 "l @ waited a b @ [fetchEv force r]"]
          obtain es where es:
            "retryLoop (traced env) cfg force (a + 1) (nextBackoff a b) (Some e) (w2, l @ waited a b @ [fetchEv force r]) =
              (fst (retryLoop env cfg force (a + 1) (nextBackoff a b) (Some e) w2),
               snd (retryLoop env cfg force (a + 1) (nextBackoff a b) (Some e) w2), (l @ waited a b @ [fetchEv force r]) @ es)"
            "retryTrace (ctxLaw env) force (sdMaxRetries cfg) (a + 1) (nextBackoff a b) (Some e) es
              (fst (retryLoop env cfg force (a + 1) (nextBackoff a b) (Some e) w2))" by blast
          have run: "retryLoop env cfg force a b le w = retryLoop env cfg force (a + 1) (nextBackoff a b) (Some e) w2"
            using head Inl None by (subst retryLoop.simps) (simp add: nextBackoff_def)
          have "retryLoop (traced env) cfg force a b le (w, l) =
              retryLoop (traced env) cfg force (a + 1) (nextBackoff a b) (Some e) (w2, l @ waited a b @ [fetchEv force r])"
            using head Inl None by (subst retryLoop.simps) (simp add: nextBackoff_def)
          with es run again [of a "sdMaxRetries cfg" "ctxLaw env" force b e es _ le] in_range Inl show ?thesis
            by (intro exI [of _ "waited a b @ fetchEv force r # es"]) simp
        qed
      qed
    qed
  qed
qed

text \<open>What a trace holds.\<close>

fun fetchesIn :: "sched_event list \<Rightarrow> (gerr + vehicle_state) list" where
  "fetchesIn [] = []"
| "fetchesIn (ECached r # es) = r # fetchesIn es"
| "fetchesIn (EForce r # es) = r # fetchesIn es"
| "fetchesIn (_ # es) = fetchesIn es"

fun waitsIn :: "sched_event list \<Rightarrow> int list" where
  "waitsIn [] = []"
| "waitsIn (EWait d b # es) = d # waitsIn es"
| "waitsIn (_ # es) = waitsIn es"

fun publishesIn :: "sched_event list \<Rightarrow> (vehicle_state \<times> (gerr + unit)) list" where
  "publishesIn [] = []"
| "publishesIn (EPublish st r # es) = (st, r) # publishesIn es"
| "publishesIn (_ # es) = publishesIn es"

fun marksIn :: "sched_event list \<Rightarrow> bool list" where
  "marksIn [] = []"
| "marksIn (ESuccess # es) = True # marksIn es"
| "marksIn (EFailure # es) = False # marksIn es"
| "marksIn (_ # es) = marksIn es"

fun forcesIn :: "sched_event list \<Rightarrow> nat" where
  "forcesIn [] = 0"
| "forcesIn (EForce r # es) = Suc (forcesIn es)"
| "forcesIn (_ # es) = forcesIn es"

lemma fetchesIn_append [simp]: "fetchesIn (xs @ ys) = fetchesIn xs @ fetchesIn ys"
  by (induction xs rule: fetchesIn.induct) auto

lemma waitsIn_append [simp]: "waitsIn (xs @ ys) = waitsIn xs @ waitsIn ys"
  by (induction xs rule: waitsIn.induct) auto

lemma publishesIn_append [simp]: "publishesIn (xs @ ys) = publishesIn xs @ publishesIn ys"
  by (induction xs rule: publishesIn.induct) auto

lemma marksIn_append [simp]: "marksIn (xs @ ys) = marksIn xs @ marksIn ys"
  by (induction xs rule: marksIn.induct) auto

lemma forcesIn_append [simp]: "forcesIn (xs @ ys) = forcesIn xs + forcesIn ys"
  by (induction xs rule: forcesIn.induct) auto

lemma waited_simps [simp]:
  "fetchesIn (waited a b) = []" "publishesIn (waited a b) = []" "marksIn (waited a b) = []"
  "forcesIn (waited a b) = 0" "waitsIn (waited a b) = (if 0 < a then [b] else [])"
  by (simp_all add: waited_def)

lemma fetchEv_simps [simp]:
  "fetchesIn (fetchEv f r # es) = r # fetchesIn es" "publishesIn (fetchEv f r # es) = publishesIn es"
  "marksIn (fetchEv f r # es) = marksIn es" "waitsIn (fetchEv f r # es) = waitsIn es"
  "forcesIn (fetchEv f r # es) = (if f then Suc (forcesIn es) else forcesIn es)"
  by (simp_all add: fetchEv_def)

lemma retryTrace_bounds:
  "retryTrace lawful force mx a b le es x \<Longrightarrow>
    int (length (fetchesIn es)) \<le> max 0 (mx + 1 - a) \<and> publishesIn es = [] \<and> marksIn es = []
    \<and> forcesIn es = (if force then length (fetchesIn es) else 0)"
  by (induction rule: retryTrace.induct) auto

lemma retryTrace_nonempty: "retryTrace lawful force mx 0 b le es x \<Longrightarrow> 0 \<le> mx \<Longrightarrow> fetchesIn es \<noteq> []"
  by (erule retryTraceE) auto

definition doubled :: "int \<Rightarrow> nat \<Rightarrow> int" where
  "doubled b i = ((\<lambda>d. wrap64 (d * 2)) ^^ i) b"

lemma doubled_Suc: "doubled (wrap64 (b * 2)) i = doubled b (Suc i)"
  by (simp add: doubled_def funpow_Suc_right del: funpow.simps)

lemma map_doubled: "b # map (doubled (wrap64 (b * 2))) [0..<n] = map (doubled b) [0..<Suc n]"
  by (simp add: doubled_Suc map_upt_Suc del: upt_Suc) (simp add: doubled_def)

lemma retryTrace_waits:
  "retryTrace lawful force mx a b le es x \<Longrightarrow> 0 \<le> a \<Longrightarrow>
    waitsIn es = map (doubled b) [0..<length (waitsIn es)]"
proof (induction rule: retryTrace.induct)
  case (again a b e es x le)
  show ?case
  proof (cases "a = 0")
    case False
    with again have ws: "waitsIn es = map (doubled (wrap64 (b * 2))) [0..<length (waitsIn es)]"
      by (simp add: nextBackoff_def)
    have "b # waitsIn es = map (doubled b) [0..<Suc (length (waitsIn es))]"
      by (subst ws) (rule map_doubled)
    with False again.prems show ?thesis by (simp del: upt_Suc)
  qed (use again in \<open>simp add: nextBackoff_def\<close>)
qed (simp_all add: doubled_def)

lemma retryTrace_outcome:
  "retryTrace lawful force mx a b le es x \<Longrightarrow> lawful \<Longrightarrow> le \<noteq> None \<or> a \<le> mx \<Longrightarrow>
    (case x of
       Inr st \<Rightarrow> fetchesIn es \<noteq> [] \<and> last (fetchesIn es) = Inr st \<and> list_all isl (butlast (fetchesIn es))
     | Inl e \<Rightarrow> list_all isl (fetchesIn es))"
  by (induction rule: retryTrace.induct) (auto simp: zeroWith_def split: option.split sum.split)

section \<open>Cycles\<close>

text \<open>How a fetch is finished: what is published and what is reported.\<close>

definition outcomeTail :: "gerr + vehicle_state \<Rightarrow> sched_event list \<Rightarrow> bool" where
  "outcomeTail x es \<longleftrightarrow> (case x of
      Inl e \<Rightarrow> es \<in> {[], [EFailure]}
    | Inr st \<Rightarrow> es = [EPublish st (Inr ()), ESuccess] \<or> (\<exists>e. es = [EPublish st (Inl e), EFailure]))"

definition fetchCycle :: "bool \<Rightarrow> bool \<Rightarrow> int \<Rightarrow> sched_event list \<Rightarrow> bool" where
  "fetchCycle lawful force mx es \<longleftrightarrow>
     (\<exists>fs x t. es = fs @ t \<and> retryTrace lawful force mx 0 nsPerSec None fs x \<and> outcomeTail x t)"

definition forceCycle :: "bool \<Rightarrow> bool \<Rightarrow> int \<Rightarrow> sched_event list \<Rightarrow> bool" where
  "forceCycle lawful gate mx es \<longleftrightarrow>
     (if gate then (case es of
          ECached (Inl e) # rest \<Rightarrow> rest = []
        | ECached (Inr st) # rest \<Rightarrow> if pluggedIn st = Some True then fetchCycle lawful True mx rest else rest = []
        | _ \<Rightarrow> False)
      else fetchCycle lawful True mx es)"

lemma finish_traced:
  "\<exists>t. finish (traced env) (x, (w, l)) = (finish env (x, w), l @ t) \<and> outcomeTail x t"
proof (cases x)
  case (Inl e)
  then show ?thesis by (auto simp: finish_def outcomeTail_def traced_simps)
next
  case (Inr st)
  obtain r w2 where "sePublish env st w = (r, w2)" by (cases "sePublish env st w")
  with Inr show ?thesis by (cases r) (auto simp: finish_def outcomeTail_def traced_simps)
qed

lemma fetch_finish_traced:
  "\<exists>es. finish (traced env) (fetchWithRetry (traced env) cfg force (w, l)) =
      (finish env (fetchWithRetry env cfg force w), l @ es)
    \<and> fetchCycle (ctxLaw env) force (sdMaxRetries cfg) es"
proof -
  obtain fs where fs: "fetchWithRetry (traced env) cfg force (w, l) =
      (fst (fetchWithRetry env cfg force w), snd (fetchWithRetry env cfg force w), l @ fs)"
    "retryTrace (ctxLaw env) force (sdMaxRetries cfg) 0 nsPerSec None fs (fst (fetchWithRetry env cfg force w))"
    using retryLoop_traced [of env cfg force 0 nsPerSec None w l] unfolding fetchWithRetry_def by auto
  obtain t where "finish (traced env) (fst (fetchWithRetry env cfg force w), snd (fetchWithRetry env cfg force w), l @ fs) =
      (finish env (fst (fetchWithRetry env cfg force w), snd (fetchWithRetry env cfg force w)), (l @ fs) @ t)"
    "outcomeTail (fst (fetchWithRetry env cfg force w)) t"
    using finish_traced [of env "fst (fetchWithRetry env cfg force w)" "snd (fetchWithRetry env cfg force w)" "l @ fs"] by auto
  with fs show ?thesis by (intro exI [of _ "fs @ t"]) (auto simp: fetchCycle_def)
qed

lemma poll_traced:
  "\<exists>es. poll (traced env) cfg (w, l) = (poll env cfg w, l @ es) \<and> fetchCycle (ctxLaw env) False (sdMaxRetries cfg) es"
  unfolding poll_def by (rule fetch_finish_traced)

lemma forceRefresh_traced:
  "\<exists>es. forceRefresh (traced env) cfg (w, l) = (forceRefresh env cfg w, l @ es)
    \<and> forceCycle (ctxLaw env) (sdForceOnlyWhenPluggedIn cfg) (sdMaxRetries cfg) es"
proof (cases "sdForceOnlyWhenPluggedIn cfg")
  case False
  then show ?thesis using fetch_finish_traced by (auto simp: forceRefresh_def forceCycle_def)
next
  case True
  obtain r w1 where r: "seCached env (sdVehicle cfg) w = (r, w1)" by (cases "seCached env (sdVehicle cfg) w")
  then have tr: "seCached (traced env) (sdVehicle cfg) (w, l) = (r, w1, l @ [ECached r])"
    by (simp add: traced_def logged_run)
  show ?thesis
  proof (cases "\<exists>st. r = Inr st \<and> pluggedIn st = Some True")
    case True
    then obtain st where st: "r = Inr st" "pluggedIn st = Some True" by blast
    obtain es where "finish (traced env) (fetchWithRetry (traced env) cfg True (w1, l @ [ECached r])) =
        (finish env (fetchWithRetry env cfg True w1), (l @ [ECached r]) @ es)"
      "fetchCycle (ctxLaw env) True (sdMaxRetries cfg) es"
      using fetch_finish_traced [of env cfg True w1 "l @ [ECached r]"] by auto
    with r tr st \<open>sdForceOnlyWhenPluggedIn cfg\<close> show ?thesis
      by (intro exI [of _ "ECached r # es"]) (simp add: forceRefresh_def forceCycle_def)
  next
    case False
    with r tr \<open>sdForceOnlyWhenPluggedIn cfg\<close> show ?thesis
      by (intro exI [of _ "[ECached r]"]) (auto simp: forceRefresh_def forceCycle_def split: sum.split)
  qed
qed

text \<open>Tracing does not change what the two do to the world.\<close>

lemma traced_fst: "fst (poll (traced env) cfg (w, l)) = poll env cfg w"
  "fst (forceRefresh (traced env) cfg (w, l)) = forceRefresh env cfg w"
  using poll_traced [of env cfg w l] forceRefresh_traced [of env cfg w l] by auto

text \<open>What a cycle amounts to.\<close>

definition cycleOk :: "sched_event list \<Rightarrow> bool" where
  "cycleOk es \<longleftrightarrow>
     (case publishesIn es of
        [] \<Rightarrow> list_all isl (fetchesIn es) \<and> marksIn es \<in> {[], [False]}
      | [(st, r)] \<Rightarrow> fetchesIn es \<noteq> [] \<and> last (fetchesIn es) = Inr st \<and> list_all isl (butlast (fetchesIn es))
          \<and> marksIn es = [\<not> isl r]
      | _ \<Rightarrow> False)"

lemma fetchCycle_ok:
  assumes "fetchCycle True force mx es" and "0 \<le> mx"
  shows "cycleOk es \<and> fetchesIn es \<noteq> [] \<and> int (length (fetchesIn es)) \<le> mx + 1
    \<and> forcesIn es = (if force then length (fetchesIn es) else 0)"
proof -
  obtain fs x t where c: "es = fs @ t" "retryTrace True force mx 0 nsPerSec None fs x" "outcomeTail x t"
    using assms(1) by (auto simp: fetchCycle_def)
  have tail: "fetchesIn t = []" "forcesIn t = 0" using c(3) by (auto simp: outcomeTail_def split: sum.splits)
  have "cycleOk es" using c(3) retryTrace_bounds [OF c(2)] retryTrace_outcome [OF c(2)] assms(2) tail
    by (auto simp: c(1) cycleOk_def outcomeTail_def split: sum.splits)
  then show ?thesis using retryTrace_bounds [OF c(2)] retryTrace_nonempty [OF c(2) assms(2)] tail assms(2)
    by (simp add: c(1))
qed

lemma sdMaxRetries_new [simp]: "sdMaxRetries (newScheduler cfg) = max 0 (sdMaxRetries cfg)"
  by (simp add: newScheduler_def)

lemma sdForceOnly_new [simp]: "sdForceOnlyWhenPluggedIn (newScheduler cfg) = sdForceOnlyWhenPluggedIn cfg"
  by (simp add: newScheduler_def)

text \<open>A fetch that fails while the context lasts has used all its attempts.\<close>

lemma retryLoop_exhausted:
  assumes "ctxLaw env"
  shows "retryLoop (traced env) cfg force a b le (w, l) = (Inl e, w', l') \<Longrightarrow> seCtxErr env w' = None \<Longrightarrow>
    length (fetchesIn l') = length (fetchesIn l) + nat (sdMaxRetries cfg + 1 - a)"
proof (induction "nat (sdMaxRetries cfg + 1 - a)" arbitrary: a b le w l rule: less_induct)
  case less
  show ?case
  proof (cases "sdMaxRetries cfg < a")
    case True
    with less.prems show ?thesis by (simp add: retryLoop.simps [of "traced env" cfg force a])
  next
    case False
    define c where "c = fst (if 0 < a then seAfter env b w else (False, w))"
    define w1 where "w1 = snd (if 0 < a then seAfter env b w else (False, w))"
    define l1 where "l1 = l @ (if 0 < a then [EWait b c] else [])"
    have tr1: "(if 0 < a then seAfter (traced env) b (w, l) else (False, (w, l))) = (c, w1, l1)"
      by (simp add: after_traced c_def w1_def l1_def)
    have "\<not> c \<or> seCtxErr env w1 \<noteq> None" using assms by (simp add: ctxLaw_def c_def w1_def)
    with less.prems tr1 False have "\<not> c"
      by (subst (asm) (1) retryLoop.simps) (auto simp: zeroWith_def split: if_splits option.splits)
    define r where "r = fst (fetchOnce env cfg force w1)"
    define w2 where "w2 = snd (fetchOnce env cfg force w1)"
    have tr2: "fetchOnce (traced env) cfg force (w1, l1) = (r, w2, l1 @ [fetchEv force r])"
      by (simp add: fetchOnce_traced r_def w2_def)
    have l1: "length (fetchesIn (l1 @ [fetchEv force r])) = Suc (length (fetchesIn l))"
      by (simp add: l1_def)
    from less.prems tr1 \<open>\<not> c\<close> tr2 False obtain e' where
      "retryLoop (traced env) cfg force (a + 1) (nextBackoff a b) (Some e') (w2, l1 @ [fetchEv force r]) = (Inl e, w', l')"
      by (subst (asm) (1) retryLoop.simps) (auto simp: Let_def nextBackoff_def split: sum.splits option.splits)
    from less.hyps [OF _ this less.prems(2)] False l1 show ?thesis by simp
  qed
qed

text \<open>
  The context's contract, on which the scheduler relies: when a wait ends because Done was
  closed, Err is not nil.
\<close>

locale context_env =
  fixes env :: "'w sched_env"
  assumes done_err: "fst (seAfter env d w) \<Longrightarrow> seCtxErr env (snd (seAfter env d w)) \<noteq> None"
begin

lemma lawful: "ctxLaw env"
  using done_err by (simp add: ctxLaw_def)

text \<open>A poll in full: the reads, and by their result what is published and reported.\<close>

lemma poll_outcome:
  fixes cfg
  defines "c \<equiv> newScheduler cfg"
  obtains fs where "fetchesIn fs \<noteq> []" "int (length (fetchesIn fs)) \<le> max 0 (sdMaxRetries cfg) + 1"
    and "publishesIn fs = []" "marksIn fs = []" "forcesIn fs = 0"
    and "case fetchWithRetry env c False w of
        (Inl e, w1) \<Rightarrow> list_all isl (fetchesIn fs)
          \<and> (seCtxErr env w1 = None \<longrightarrow> int (length (fetchesIn fs)) = max 0 (sdMaxRetries cfg) + 1)
          \<and> poll (traced env) c (w, l) = (poll env c w, l @ fs @ (if seCtxErr env w1 = None then [EFailure] else []))
      | (Inr st, w1) \<Rightarrow> last (fetchesIn fs) = Inr st \<and> list_all isl (butlast (fetchesIn fs))
          \<and> poll (traced env) c (w, l) = (poll env c w, l @ fs @ (case fst (sePublish env st w1) of
                Inl e \<Rightarrow> [EPublish st (Inl e), EFailure] | Inr u \<Rightarrow> [EPublish st (Inr u), ESuccess]))"
proof -
  obtain x w1 where run: "fetchWithRetry env c False w = (x, w1)" by (cases "fetchWithRetry env c False w")
  obtain fs where fs: "fetchWithRetry (traced env) c False (w, l) = (x, w1, l @ fs)"
    "retryTrace True False (sdMaxRetries c) 0 nsPerSec None fs x"
    using retryLoop_traced [of env c False 0 nsPerSec None w l] run lawful unfolding fetchWithRetry_def by auto
  have mx: "0 \<le> sdMaxRetries c" "sdMaxRetries c = max 0 (sdMaxRetries cfg)" by (simp_all add: c_def)
  note bounds = retryTrace_bounds [OF fs(2)] and some = retryTrace_nonempty [OF fs(2) mx(1)]
    and out = retryTrace_outcome [OF fs(2)]
  show thesis
  proof (rule that [of fs])
    show "case fetchWithRetry env c False w of
        (Inl e, w1) \<Rightarrow> list_all isl (fetchesIn fs)
          \<and> (seCtxErr env w1 = None \<longrightarrow> int (length (fetchesIn fs)) = max 0 (sdMaxRetries cfg) + 1)
          \<and> poll (traced env) c (w, l) = (poll env c w, l @ fs @ (if seCtxErr env w1 = None then [EFailure] else []))
      | (Inr st, w1) \<Rightarrow> last (fetchesIn fs) = Inr st \<and> list_all isl (butlast (fetchesIn fs))
          \<and> poll (traced env) c (w, l) = (poll env c w, l @ fs @ (case fst (sePublish env st w1) of
                Inl e \<Rightarrow> [EPublish st (Inl e), EFailure] | Inr u \<Rightarrow> [EPublish st (Inr u), ESuccess]))"
    proof (cases x)
      case (Inl e)
      have "seCtxErr env w1 = None \<longrightarrow> int (length (fetchesIn fs)) = sdMaxRetries c + 1"
        using retryLoop_exhausted [OF lawful fs(1) [unfolded fetchWithRetry_def Inl]] mx(1) by auto
      with Inl run fs(1) out mx show ?thesis by (simp add: poll_def finish_def traced_simps)
    next
      case (Inr st)
      obtain y w2 where "sePublish env st w1 = (y, w2)" by (cases "sePublish env st w1")
      with Inr run fs(1) out mx show ?thesis by (cases y) (simp_all add: poll_def finish_def traced_simps)
    qed
  qed (use bounds some mx in auto)
qed

lemma force_cycle_gated:
  assumes "sdForceOnlyWhenPluggedIn cfg"
  shows "\<exists>r es. forceRefresh (traced env) (newScheduler cfg) (w, l) =
      (forceRefresh env (newScheduler cfg) w, l @ ECached r # es)
    \<and> (es = [] \<or> (\<exists>st. r = Inr st \<and> pluggedIn st = Some True \<and> cycleOk es
        \<and> int (forcesIn es) \<le> max 0 (sdMaxRetries cfg) + 1))"
proof -
  obtain es where es: "forceRefresh (traced env) (newScheduler cfg) (w, l) = (forceRefresh env (newScheduler cfg) w, l @ es)"
    "forceCycle True True (max 0 (sdMaxRetries cfg)) es"
    using forceRefresh_traced [of env "newScheduler cfg" w l] assms lawful by auto
  then obtain r rest where r: "es = ECached r # rest"
    by (auto simp: forceCycle_def split: list.splits sched_event.splits)
  have "rest = [] \<or> (\<exists>st. r = Inr st \<and> pluggedIn st = Some True \<and> cycleOk rest
        \<and> int (forcesIn rest) \<le> max 0 (sdMaxRetries cfg) + 1)"
    using es(2) fetchCycle_ok [of True "max 0 (sdMaxRetries cfg)" rest]
    by (auto simp: r forceCycle_def split: sum.splits if_splits)
  with es(1) r show ?thesis by blast
qed

end

text \<open>
  A relation that every call of an environment respects is respected by the retry loop, and, if
  publishing and reporting respect it too, by whole cycles and loops.
\<close>

locale env_rel =
  fixes env :: "'w sched_env" and R :: "'w \<Rightarrow> 'w \<Rightarrow> bool"
  assumes R_refl: "R w w" and R_trans: "R w w' \<Longrightarrow> R w' w'' \<Longrightarrow> R w w''"
    and cached_R: "seCached env v w = (r, w') \<Longrightarrow> R w w'"
    and force_R: "seForce env v w = (r, w') \<Longrightarrow> R w w'"
    and after_R: "seAfter env d w = (b, w') \<Longrightarrow> R w w'"
begin

lemma fetchOnce_R: "fetchOnce env cfg force w = (r, w') \<Longrightarrow> R w w'"
  using cached_R force_R by (auto simp: fetchOnce_def split: if_splits)

lemma wait_R: "(if 0 < i then seAfter env b w else (False, w)) = (c, w') \<Longrightarrow> R w w'"
  using after_R R_refl by (auto split: if_splits)

lemma retryLoop_R: "retryLoop env cfg force i b le w = (x, w') \<Longrightarrow> R w w'"
proof (induction "nat (sdMaxRetries cfg + 1 - i)" arbitrary: i b le w rule: less_induct)
  case less
  obtain c w1 where w1: "(if 0 < i then seAfter env b w else (False, w)) = (c, w1)"
    by (cases "if 0 < i then seAfter env b w else (False, w)")
  obtain r w2 where w2: "fetchOnce env cfg force w1 = (r, w2)" by (cases "fetchOnce env cfg force w1")
  note steps = wait_R [OF w1] R_trans [OF wait_R [OF w1] fetchOnce_R [OF w2]]
  have loop: "R w w'" if "\<not> sdMaxRetries cfg < i"
    "retryLoop env cfg force (i + 1) (if 0 < i then wrap64 (b * 2) else b) le' w2 = (x, w')" for le'
    by (rule R_trans [OF steps(2) less.hyps [OF _ that(2)]]) (use that(1) in simp)
  show ?case
    using less.prems [unfolded retryLoop.simps [of env cfg force i b le w]] w1 w2 steps loop R_refl
    by (auto simp: Let_def split: if_split_asm sum.split_asm option.split_asm)
qed

end

locale env_rel_cycle = env_rel env R for env :: "'w sched_env" and R +
  assumes publish_R: "sePublish env st w = (r, w') \<Longrightarrow> R w w'"
    and success_R: "R w (seSuccess env w)" and failure_R: "R w (seFailure env w)"
begin

lemma finish_R: "R w (finish env (r, w))"
  using publish_R success_R failure_R R_trans R_refl
  by (auto simp: finish_def split: sum.split prod.split) blast+

lemma cycle_R: "R w (finish env (fetchWithRetry env cfg force w))"
  using retryLoop_R finish_R R_trans unfolding fetchWithRetry_def by (metis surj_pair)

lemma poll_R: "R w (poll env cfg w)"
  by (simp add: poll_def cycle_R)

lemma forceRefresh_R: "R w (forceRefresh env cfg w)"
  using cached_R cycle_R R_trans
  by (auto simp: forceRefresh_def split: sum.split prod.split) blast+

end

text \<open>Logging the calls keeps the contract.\<close>

lemma context_env_traced: "context_env env \<Longrightarrow> context_env (traced env)"
  by (auto simp: context_env_def after_traced)

lemma retryTrace_wait_count:
  "retryTrace lawful force mx a b le es x \<Longrightarrow> 0 \<le> a \<Longrightarrow>
    int (length (waitsIn es)) \<le> (if a = 0 then max 0 mx else max 0 (mx + 1 - a))"
  by (induction rule: retryTrace.induct) auto

lemma doubled_seconds: "i \<le> 33 \<Longrightarrow> doubled nsPerSec i = 2 ^ i * nsPerSec"
proof (induction i)
  case (Suc i)
  then have ih: "doubled nsPerSec i = 2 ^ i * nsPerSec" by simp
  have "(2 :: int) ^ Suc i \<le> 2 ^ 33" using Suc.prems by (intro power_increasing) auto
  then have "2 ^ i * nsPerSec * 2 < 2 ^ 63" by simp
  then have "wrap64 (2 ^ i * nsPerSec * 2) = 2 ^ i * nsPerSec * 2"
    by (intro wrap64_id) (simp_all add: order_trans [of _ 0])
  then show ?case using ih by (simp add: doubled_def)
qed (simp add: doubled_def)

section \<open>Properties of a cycle\<close>

text \<open>An environment in which nothing fails and nothing is cancelled, for the examples.\<close>

definition quietEnv :: "unit sched_env" where
  "quietEnv = \<lparr>seCached = (\<lambda>v. ret emptyState), seForce = (\<lambda>v. ret emptyState), sePublish = (\<lambda>st. ret ()),
     seSuccess = id, seFailure = id, seCtxErr = (\<lambda>_. None), seNow = (\<lambda>w. (0, w)),
     seAfter = (\<lambda>d w. (False, w)), seTick = (\<lambda>d w. (False, w))\<rparr>"

definition demoConfig :: sched_config where
  "demoConfig = \<lparr>sdVehicle = \<lparr>vID = ''1'', vVIN = [], vName = [], vModel = [], vRegDate = [], vType = [],
       vCCS2ProtocolSupport = 1\<rparr>, sdPollInterval = 2700 * nsPerSec, sdMaxRetries = 3, sdForceEnabled = True,
     sdForceHour = 5, sdForceMinute = 0, sdForceLocation = None, sdForceOnlyWhenPluggedIn = True\<rparr>"

lemma ctxLaw_quiet: "ctxLaw quietEnv"
  by (simp add: ctxLaw_def quietEnv_def)

text \<open>C1: A poll never wakes the car, makes at least one and at most \<open>max 0 MaxRetries + 1\<close> cached
  reads, and publishes exactly the state it fetched, and only if a read succeeded (the last one, all
  earlier ones having failed). It then reports one outcome: success exactly when that publish
  succeeded, failure otherwise. If every read failed nothing is published; when the context has ended
  no outcome is reported, and else all attempts were made and one failure is reported.\<close>

theorem poll_cycle_spec:
  assumes "ctxLaw env"
  shows "\<exists>es. poll (traced env) (newScheduler cfg) (w, l) = (poll env (newScheduler cfg) w, l @ es)
    \<and> forcesIn es = 0 \<and> fetchesIn es \<noteq> [] \<and> int (length (fetchesIn es)) \<le> max 0 (sdMaxRetries cfg) + 1
    \<and> (case publishesIn es of
         [] \<Rightarrow> list_all isl (fetchesIn es)
           \<and> (if seCtxErr env (snd (fetchWithRetry env (newScheduler cfg) False w)) \<noteq> None then marksIn es = []
              else marksIn es = [False] \<and> int (length (fetchesIn es)) = max 0 (sdMaxRetries cfg) + 1)
       | [(st, r)] \<Rightarrow> last (fetchesIn es) = Inr st \<and> list_all isl (butlast (fetchesIn es)) \<and> marksIn es = [\<not> isl r]
       | _ \<Rightarrow> False)"
proof (rule context_env.poll_outcome [of env cfg w l])
  show "context_env env" using assms by unfold_locales (simp add: ctxLaw_def)
next
  fix fs
  assume fs: "fetchesIn fs \<noteq> []" "int (length (fetchesIn fs)) \<le> max 0 (sdMaxRetries cfg) + 1"
      "publishesIn fs = []" "marksIn fs = []" "forcesIn fs = 0"
    and out: "case fetchWithRetry env (newScheduler cfg) False w of
        (Inl e, w1) \<Rightarrow> list_all isl (fetchesIn fs)
          \<and> (seCtxErr env w1 = None \<longrightarrow> int (length (fetchesIn fs)) = max 0 (sdMaxRetries cfg) + 1)
          \<and> poll (traced env) (newScheduler cfg) (w, l) = (poll env (newScheduler cfg) w,
              l @ fs @ (if seCtxErr env w1 = None then [EFailure] else []))
      | (Inr st, w1) \<Rightarrow> last (fetchesIn fs) = Inr st \<and> list_all isl (butlast (fetchesIn fs))
          \<and> poll (traced env) (newScheduler cfg) (w, l) = (poll env (newScheduler cfg) w,
              l @ fs @ (case fst (sePublish env st w1) of
                Inl e \<Rightarrow> [EPublish st (Inl e), EFailure] | Inr u \<Rightarrow> [EPublish st (Inr u), ESuccess]))"
  obtain x w1 where run: "fetchWithRetry env (newScheduler cfg) False w = (x, w1)"
    by (cases "fetchWithRetry env (newScheduler cfg) False w")
  show ?thesis
  proof (cases x)
    case (Inl e)
    with out run fs show ?thesis
      by (intro exI [of _ "fs @ (if seCtxErr env w1 = None then [EFailure] else [])"]) auto
  next
    case (Inr st)
    with out run fs show ?thesis
      by (cases "fst (sePublish env st w1)") (auto intro!: exI [of _ "fs @ _"])
  qed
qed

theorem poll_cycle_spec_witness:
  "\<exists>es. poll (traced quietEnv) (newScheduler demoConfig) ((), []) = (poll quietEnv (newScheduler demoConfig) (), es)
    \<and> fetchesIn es \<noteq> []"
  using poll_cycle_spec [OF ctxLaw_quiet, of demoConfig "()" "[]"] by fastforce

text \<open>C2: The plugged-in gate: with \<open>ForceOnlyWhenPluggedIn\<close> a force refresh starts with one cached
  read, and the car is woken only if that read succeeded and says the car is plugged in (not
  unplugged, not unknown); otherwise nothing else happens, no publish and no outcome.\<close>

theorem force_gate_spec:
  assumes "ctxLaw env" and "sdForceOnlyWhenPluggedIn cfg"
  shows "\<exists>r es. forceRefresh (traced env) (newScheduler cfg) (w, l) =
      (forceRefresh env (newScheduler cfg) w, l @ ECached r # es)
    \<and> (es = [] \<or> (case r of Inr st \<Rightarrow> pluggedIn st = Some True | Inl e \<Rightarrow> False))
    \<and> int (forcesIn es) \<le> max 0 (sdMaxRetries cfg) + 1"
proof -
  have "context_env env" using assms(1) by unfold_locales (simp add: ctxLaw_def)
  from context_env.force_cycle_gated [OF this assms(2), of w l] show ?thesis by fastforce
qed

theorem force_gate_spec_witness:
  "\<exists>r es. forceRefresh (traced quietEnv) (newScheduler demoConfig) ((), []) =
      (forceRefresh quietEnv (newScheduler demoConfig) (), [] @ ECached r # es)"
  using force_gate_spec [OF ctxLaw_quiet, of demoConfig "()" "[]"]
  by (auto simp: demoConfig_def simp del: append_Nil)

text \<open>Retries back off exponentially: the waits of a fetch are 1 s, 2 s, 4 s, ... in order, one
  before each retry and none before the first attempt, at most \<open>MaxRetries\<close> of them, as long as
  that does not exceed 34 (beyond which the doubling leaves the range of a duration).\<close>

theorem retry_backoff:
  assumes "sdMaxRetries cfg \<le> 34"
  shows "\<exists>es x w'. fetchWithRetry (traced env) cfg force (w, []) = (x, w', es)
    \<and> int (length (waitsIn es)) \<le> max 0 (sdMaxRetries cfg)
    \<and> waitsIn es = map (\<lambda>i. 2 ^ i * nsPerSec) [0..<length (waitsIn es)]"
proof -
  obtain es where es: "fetchWithRetry (traced env) cfg force (w, []) =
      (fst (fetchWithRetry env cfg force w), snd (fetchWithRetry env cfg force w), es)"
    "retryTrace (ctxLaw env) force (sdMaxRetries cfg) 0 nsPerSec None es (fst (fetchWithRetry env cfg force w))"
    using retryLoop_traced [of env cfg force 0 nsPerSec None w "[]"] unfolding fetchWithRetry_def by auto
  have n: "int (length (waitsIn es)) \<le> max 0 (sdMaxRetries cfg)" using retryTrace_wait_count [OF es(2)] by simp
  have "doubled nsPerSec i = 2 ^ i * nsPerSec" if "i < length (waitsIn es)" for i
    using that n assms by (intro doubled_seconds) (simp add: max_def split: if_splits)
  then have "map (doubled nsPerSec) [0..<length (waitsIn es)] = map (\<lambda>i. 2 ^ i * nsPerSec) [0..<length (waitsIn es)]"
    by simp
  with retryTrace_waits [OF es(2)] n es(1) show ?thesis by auto
qed

theorem retry_backoff_witness:
  "\<exists>es x w'. fetchWithRetry (traced quietEnv) demoConfig False ((), []) = (x, w', es) \<and> length (waitsIn es) \<le> 3"
  using retry_backoff [of demoConfig quietEnv False "()"] by (fastforce simp: demoConfig_def)

end
