(* ===== verification/Serve.thy ===== *)
theory Serve
  imports Config Status Page Mqtt Scheduler
begin

text \<open>
  \<open>internal/cmd\<close>: the service put together. \<open>serviceEnv\<close> is the scheduler's environment made of the
  client, the publisher and the status server; \<open>startUp\<close> is \<open>runServe\<close> up to the start of the
  scheduler, \<open>shutDown\<close> what follows the end of the context; the diagnostic \<open>dump\<close> and the \<open>mock\<close>
  command are below. The health listener, the signal handling and the CLI library are outside.
\<close>

section \<open>Logging\<close>

datatype log_level = Debug | Info | Warn | Error

definition levelRank :: "log_level \<Rightarrow> int" where
  "levelRank l = (case l of Debug \<Rightarrow> -4 | Info \<Rightarrow> 0 | Warn \<Rightarrow> 4 | Error \<Rightarrow> 8)"

instantiation log_level :: linorder
begin

definition less_eq_log_level :: "log_level \<Rightarrow> log_level \<Rightarrow> bool" where
  "l \<le> l' \<longleftrightarrow> levelRank l \<le> levelRank l'"

definition less_log_level :: "log_level \<Rightarrow> log_level \<Rightarrow> bool" where
  "l < l' \<longleftrightarrow> levelRank l < levelRank l'"

instance
  by standard (auto simp: less_eq_log_level_def less_log_level_def levelRank_def split: log_level.splits)

end

text \<open>\<open>newLogger\<close>: the level and whether the handler writes text.\<close>

definition newLogger :: "string \<Rightarrow> string \<Rightarrow> log_level \<times> bool" where
  "newLogger level format =
     (if level = ''debug'' then Debug else if level = ''warn'' then Warn else if level = ''error'' then Error else Info,
      format = ''text'')"

definition logEnabled :: "log_level \<times> bool \<Rightarrow> log_level \<Rightarrow> bool" where
  "logEnabled lg l \<longleftrightarrow> fst lg \<le> l"

section \<open>The service's state\<close>

record ('w, 'm, 'c) service =
  syClient :: "'w client"
  syServer :: server
  syBroker :: 'm
  syClock :: 'c

definition onClient :: "('w, 'a) call \<Rightarrow> (('w, 'm, 'c) service, gerr, 'a) op" where
  "onClient m s = (case m (syClient s) of (x, c) \<Rightarrow> (x, s\<lparr>syClient := c\<rparr>))"

definition onBroker :: "('m, gerr, 'a) op \<Rightarrow> (('w, 'm, 'c) service, gerr, 'a) op" where
  "onBroker m s = (case m (syBroker s) of (x, b) \<Rightarrow> (x, s\<lparr>syBroker := b\<rparr>))"

definition onServer :: "(server \<Rightarrow> server) \<Rightarrow> ('w, 'm, 'c) service \<Rightarrow> ('w, 'm, 'c) service" where
  "onServer f s = s\<lparr>syServer := f (syServer s)\<rparr>"

section \<open>The status page's snapshot\<close>

definition metricsFromState :: "vehicle_state \<Rightarrow> metrics" where
  "metricsFromState st = \<lparr>mSet = False, mEVBatteryPercentage = evBatteryPercentage st, mEVBatterySoH = evBatterySoH st,
     mEVRange = evRange st, mEVRangeUnit = evRangeUnit st, mCharging = charging st, mPluggedIn = pluggedIn st,
     mChargePortDoorOpen = chargePortDoorOpen st, mChargeLimitAC = chargeLimitAC st, mChargeLimitDC = chargeLimitDC st,
     mChargingPowerKW = chargingPowerKW st, mEstChargeDurationMin = estChargeDurationMin st,
     mEstFastChargeDurationMin = estFastChargeDurationMin st, mBattery12VPercentage = battery12VPercentage st,
     mOutsideTemperatureC = outsideTemperatureC st, mInsideTemperatureC = insideTemperatureC st,
     mTirePressureWarning = tirePressureWarning st, mLastUpdatedAt = lastUpdatedAt st\<rparr>"

text \<open>\<open>recordingPublisher.PublishState\<close>.\<close>

definition recordingPublishState ::
  "'m publish \<Rightarrow> ha_config \<Rightarrow> vehicle_state \<Rightarrow> (('w, 'm, 'c) service, gerr, unit) op" where
  "recordingPublishState pub ha st s =
     (case onBroker (publishState pub ha st) s of
        (Inl e, s1) \<Rightarrow> (Inl e, s1)
      | (Inr u, s1) \<Rightarrow> (Inr (), onServer (setMetrics (metricsFromState st)) s1))"

section \<open>The scheduler's environment\<close>

text \<open>The context, the clock and the timers, over a world \<open>'c\<close>.\<close>

record 'c runtime =
  rtCtxErr :: "'c \<Rightarrow> gerr option"
  rtNow :: "'c \<Rightarrow> int \<times> 'c"
  rtAfter :: "int \<Rightarrow> 'c \<Rightarrow> bool \<times> 'c"
  rtTick :: "int \<Rightarrow> 'c \<Rightarrow> bool \<times> 'c"

definition onClock :: "('c \<Rightarrow> 'a \<times> 'c) \<Rightarrow> ('w, 'm, 'c) service \<Rightarrow> 'a \<times> ('w, 'm, 'c) service" where
  "onClock m s = (case m (syClock s) of (x, c) \<Rightarrow> (x, s\<lparr>syClock := c\<rparr>))"

definition serviceEnv ::
  "goarch \<Rightarrow> 'w net \<Rightarrow> client_config \<Rightarrow> 'm publish \<Rightarrow> ha_config \<Rightarrow> 'c runtime \<Rightarrow> ('w, 'm, 'c) service sched_env" where
  "serviceEnv a n cc pub ha rt = \<lparr>
     seCached = (\<lambda>v. onClient (cachedStatus a n cc v)), seForce = (\<lambda>v. onClient (forceStatus a n cc v)),
     sePublish = recordingPublishState pub ha, seSuccess = onServer markSuccess, seFailure = onServer markFailure,
     seCtxErr = (\<lambda>s. rtCtxErr rt (syClock s)), seNow = onClock (rtNow rt), seAfter = (\<lambda>d. onClock (rtAfter rt d)),
     seTick = (\<lambda>d. onClock (rtTick rt d))\<rparr>"

text \<open>
  A context cancelled at the instant \<open>stop\<close> (never, if \<open>None\<close>), with timers that fire on time: when a
  wait would end after \<open>stop\<close> the context is done first.
\<close>

definition contextRuntime :: "int option \<Rightarrow> int runtime" where
  "contextRuntime stop =
     (let wait = (\<lambda>d now. case stop of
            None \<Rightarrow> (False, now + max 0 d)
          | Some t \<Rightarrow> if t \<le> now + max 0 d then (True, max now t) else (False, now + max 0 d))
      in \<lparr>rtCtxErr = (\<lambda>now. case stop of None \<Rightarrow> None
            | Some t \<Rightarrow> if t \<le> now then Some (LibErr ''context canceled'') else None),
          rtNow = (\<lambda>now. (now, now)), rtAfter = wait, rtTick = wait\<rparr>)"

interpretation svc: context_env "serviceEnv a n cc pub ha (contextRuntime stop)"
  by unfold_locales
     (auto simp: serviceEnv_def contextRuntime_def onClock_def Let_def split: option.splits prod.splits if_splits)

section \<open>Start-up\<close>

datatype token_backend = MemoryBackend | KubeBackend kube_store

record ('w, 'm, 'u) deps =
  dpParsers :: parsers
  dpEnviron :: environment
  dpInCluster :: "gerr + unit"
  dpNewForConfig :: "gerr + unit"
  dpNamespaceFile :: "gerr + string"
  dpNet :: "token_backend \<Rightarrow> 'w net"
  dpBrokerParse :: "string \<Rightarrow> gerr + 'u"
  dpNewConnection :: "'u \<Rightarrow> paho_config \<Rightarrow> ('m, gerr, unit) op"
  dpAwaitConnection :: "('m, gerr, unit) op"
  dpPublish :: "string \<Rightarrow> payload \<Rightarrow> nat \<Rightarrow> bool \<Rightarrow> ('m, gerr, unit) op"
  dpDisconnect :: "('m, gerr, unit) op"

definition buildTokenStore :: "('w, 'm, 'u) deps \<Rightarrow> config \<Rightarrow> gerr + token_backend" where
  "buildTokenStore d cfg =
     (if tokenStore cfg = ''kube''
      then map_sum id KubeBackend (newKubeSecretStore (dpInCluster d) (dpNewForConfig d) (dpNamespaceFile d) (tokenSecretName cfg))
      else Inr MemoryBackend)"

definition serverConfigOf :: "config \<Rightarrow> server_config" where
  "serverConfigOf cfg = \<lparr>readyFailureThreshold = cfgReadyThreshold cfg, scPollInterval = pollInterval cfg,
     scForceEnabled = forceRefreshEnabled cfg, scForceHour = forceRefreshHour cfg,
     scForceMinute = forceRefreshMinute cfg, scForceLocation = forceRefreshLocation cfg\<rparr>"

definition haConfigOf :: "config \<Rightarrow> vehicle \<Rightarrow> ha_config" where
  "haConfigOf cfg v = \<lparr>haDiscoveryPrefix = cfgHADiscoveryPrefix cfg, haTopicPrefix = mqttTopicPrefix cfg,
     haVIN = vVIN v, haModel = vModel v, haName = vName v, haDistanceUnit = cfgDistanceUnit cfg\<rparr>"

definition mqttOptionsOf :: "config \<Rightarrow> ha_config \<Rightarrow> mqtt_options" where
  "mqttOptionsOf cfg ha = \<lparr>mqBrokerURL = mqttBrokerURL cfg, mqUsername = mqttUsername cfg, mqPassword = mqttPassword cfg,
     mqClientID = mqttClientID cfg, mqAvailabilityTopic = availabilityTopic ha\<rparr>"

definition schedConfigOf :: "config \<Rightarrow> vehicle \<Rightarrow> sched_config" where
  "schedConfigOf cfg v = \<lparr>sdVehicle = v, sdPollInterval = pollInterval cfg, sdMaxRetries = pollMaxRetries cfg,
     sdForceEnabled = forceRefreshEnabled cfg, sdForceHour = forceRefreshHour cfg,
     sdForceMinute = forceRefreshMinute cfg, sdForceLocation = forceRefreshLocation cfg,
     sdForceOnlyWhenPluggedIn = forceRefreshOnlyWhenPluggedIn cfg\<rparr>"

text \<open>\<open>bluelink.New\<close> on the configuration, as \<open>serve\<close> and \<open>dump\<close> call it.\<close>

definition clientConfigOf :: "config \<Rightarrow> gerr + client_config" where
  "clientConfigOf cfg = newClient (bluelinkUsername cfg) (bluelinkPassword cfg) (bluelinkVIN cfg)
     (bluelinkLoginURL cfg) (bluelinkBaseURL cfg)"

text \<open>The callback of a connection-up: availability, then discovery; failures are only logged.\<close>

definition republish :: "'m publish \<Rightarrow> ha_config \<Rightarrow> 'm \<Rightarrow> 'm" where
  "republish pub ha w = snd (publishDiscovery pub ha (snd (publishAvailability pub ha True w)))"

text \<open>What \<open>runServe\<close> holds when the scheduler starts.\<close>

record ('w, 'm) running =
  rnNet :: "'w net"
  rnClient :: client_config
  rnVehicle :: vehicle
  rnHA :: ha_config
  rnSched :: sched_config
  rnMqtt :: "('m \<Rightarrow> 'm) mqtt_client"

text \<open>
  The callback is registered before the first publishes. One that fires while they are made is not
  interleaved with them: it repeats the same retained messages, and after the start the session lets
  callbacks run at any step.
\<close>

definition startMqtt ::
  "('w, 'm, 'u) deps \<Rightarrow> config \<Rightarrow> ha_config \<Rightarrow> ('m, gerr, ('m \<Rightarrow> 'm) mqtt_client) op" where
  "startMqtt d cfg ha =
     (let pub = mqttPublish (dpPublish d) in
      bindOp (wrapErr (Wrapped ''mqtt'') (mqttConnect (dpBrokerParse d) (dpNewConnection d) (dpAwaitConnection d) None
               (mqttOptionsOf cfg ha))) (\<lambda>mc0.
      let mc = setOnConnectionUp (republish pub ha) mc0 in
      bindOp (wrapErr (Wrapped ''publish discovery'') (publishDiscovery pub ha)) (\<lambda>_.
      bindOp (wrapErr (Wrapped ''publish availability'') (publishAvailability pub ha True)) (\<lambda>_.
      ret mc))))"

definition startClient :: "'w net \<Rightarrow> client_config \<Rightarrow> (('w, 'm, 'c) service, gerr, vehicle) op" where
  "startClient n cc =
     bindOp (wrapErr (Wrapped ''bluelink connect'') (onClient (connect n cc))) (\<lambda>_.
     wrapErr (Wrapped ''select vehicle'') (onClient (selectVehicle n cc)))"

definition startUp :: "('w, 'm, 'u) deps \<Rightarrow> int \<Rightarrow> (('w, 'm, 'c) service, gerr, ('w, 'm) running) op" where
  "startUp d now s0 =
     (case load (dpParsers d) (dpEnviron d) of
        Inl e \<Rightarrow> (Inl (Wrapped ''config'' e), s0)
      | Inr cfg \<Rightarrow>
          (let s1 = s0\<lparr>syServer := newServer (serverConfigOf cfg) now\<rparr> in
           case buildTokenStore d cfg of Inl e \<Rightarrow> (Inl e, s1)
           | Inr backend \<Rightarrow> (case clientConfigOf cfg of Inl e \<Rightarrow> (Inl e, s1)
           | Inr cc \<Rightarrow> (case startClient (dpNet d backend) cc s1 of (Inl e, s2) \<Rightarrow> (Inl e, s2)
           | (Inr v, s2) \<Rightarrow>
               (let s3 = onServer (setVehicle (vModel v) (vName v) (vVIN v) (isCCS2 v)) s2; ha = haConfigOf cfg v in
                case onBroker (startMqtt d cfg ha) s3 of (Inl e, s4) \<Rightarrow> (Inl e, s4)
                | (Inr mq, s4) \<Rightarrow>
                    (Inr \<lparr>rnNet = dpNet d backend, rnClient = cc, rnVehicle = v, rnHA = ha,
                      rnSched = newScheduler (schedConfigOf cfg v), rnMqtt = mq\<rparr>, s4))))))"

section \<open>Shutdown\<close>

text \<open>How \<open>runServe\<close> leaves its select: the health listener failed, or the context is done.\<close>

datatype run_end = HealthFailed gerr | CtxDone

definition shutDown ::
  "('w, 'm, 'u) deps \<Rightarrow> ('w, 'm) running \<Rightarrow> run_end \<Rightarrow> gerr + unit \<Rightarrow> (('w, 'm, 'c) service, gerr, unit) op" where
  "shutDown d r e srvShutdown s =
     (case e of
        HealthFailed err \<Rightarrow> (Inl (Wrapped ''health server'' err), s)
      | CtxDone \<Rightarrow>
          (let s1 = snd (onBroker (publishAvailability (mqttPublish (dpPublish d)) (rnHA r) False) s);
               s2 = snd (onBroker (mqttDisconnect (dpDisconnect d)) s1)
           in (srvShutdown, s2)))"

section \<open>The dump command\<close>

datatype dump_line = DumpHeader string | DumpError gerr | DumpBody payload

definition dumpPath :: "'w net \<Rightarrow> client_config \<Rightarrow> vehicle \<Rightarrow> string \<Rightarrow> ('w, dump_line list) call" where
  "dumpPath n cc v path =
     tryOp (debugGet n cc v path) (\<lambda>body. ret [DumpHeader path, DumpBody body]) (\<lambda>e. ret [DumpHeader path, DumpError e])"

definition dumpPaths :: "vehicle \<Rightarrow> bool \<Rightarrow> string list" where
  "dumpPaths v force =
     [vehiclePath v ''/status/latest'', vehiclePath v ''/location'', vehiclePath v ''/location/park''] @
     (if force then [vehiclePath v ''/status''] else [])"

fun dumpAll :: "'w net \<Rightarrow> client_config \<Rightarrow> vehicle \<Rightarrow> string list \<Rightarrow> ('w, dump_line list) call" where
  "dumpAll n cc v [] = ret []"
| "dumpAll n cc v (p # ps) = bindOp (dumpPath n cc v p) (\<lambda>ls. bindOp (dumpAll n cc v ps) (\<lambda>rest. ret (ls @ rest)))"

text \<open>What is printed; \<open>pretty\<close> is \<open>json.Indent\<close> on the text of a document, a body that is not JSON is printed raw.\<close>

definition dumpText :: "(json \<Rightarrow> string) \<Rightarrow> dump_line \<Rightarrow> string" where
  "dumpText pretty l = (case l of
      DumpHeader path \<Rightarrow> ''=== '' @ path @ '' ==='' @ [CHR 0x0A]
    | DumpError e \<Rightarrow> ''error: '' @ errText e @ [CHR 0x0A, CHR 0x0A]
    | DumpBody (Doc j) \<Rightarrow> pretty j @ [CHR 0x0A, CHR 0x0A]
    | DumpBody (Text body) \<Rightarrow> body @ [CHR 0x0A, CHR 0x0A])"

definition runDump :: "('w, 'm, 'u) deps \<Rightarrow> bool \<Rightarrow> ('w, dump_line list) call" where
  "runDump d force =
     (case load (dpParsers d) (dpEnviron d) of
        Inl e \<Rightarrow> fail (Wrapped ''config'' e)
      | Inr cfg \<Rightarrow>
          (case buildTokenStore d cfg of Inl e \<Rightarrow> fail e
           | Inr backend \<Rightarrow> (case clientConfigOf cfg of Inl e \<Rightarrow> fail e
           | Inr cc \<Rightarrow>
               bindOp (wrapErr (Wrapped ''bluelink connect'') (connect (dpNet d backend) cc)) (\<lambda>_.
               bindOp (wrapErr (Wrapped ''select vehicle'') (selectVehicle (dpNet d backend) cc)) (\<lambda>v.
               dumpAll (dpNet d backend) cc v (dumpPaths v force))))))"

section \<open>Facts\<close>

lemma logEnabled_trans: "l \<le> l' \<Longrightarrow> logEnabled lg l \<Longrightarrow> logEnabled lg l'"
  unfolding logEnabled_def by (rule order_trans)

text \<open>What a successful start went through.\<close>

lemma startUp_InrE:
  assumes "startUp d now s0 = (Inr r, s)"
  obtains cfg backend cc v s1 mq b where
    "load (dpParsers d) (dpEnviron d) = Inr cfg" "buildTokenStore d cfg = Inr backend" "clientConfigOf cfg = Inr cc"
    "startClient (dpNet d backend) cc (s0\<lparr>syServer := newServer (serverConfigOf cfg) now\<rparr>) = (Inr v, s1)"
    "startMqtt d cfg (haConfigOf cfg v) (syBroker s1) = (Inr mq, b)"
    "r = \<lparr>rnNet = dpNet d backend, rnClient = cc, rnVehicle = v, rnHA = haConfigOf cfg v,
       rnSched = newScheduler (schedConfigOf cfg v), rnMqtt = mq\<rparr>"
    "s = (onServer (setVehicle (vModel v) (vName v) (vVIN v) (isCCS2 v)) s1)\<lparr>syBroker := b\<rparr>"
  using assms
  by (auto simp: startUp_def Let_def onBroker_def onServer_def split: sum.splits prod.splits)

lemma startClient_frame:
  assumes "startClient n cc s = (x, s')"
  shows "syServer s' = syServer s \<and> syBroker s' = syBroker s \<and> syClock s' = syClock s"
  using assms by (auto simp: startClient_def bindOp_def wrapErr_def onClient_def split: prod.splits sum.splits)

text \<open>The vehicle a start selects.\<close>

lemma find_filter: "filter P xs = y # ys \<Longrightarrow> find P xs = Some y"
  by (induction xs) (auto split: if_splits)

lemma startClient_selected:
  assumes "startClient n cc s = (Inr v, s')"
  shows "\<exists>vs c c'. vehicles n cc c = (Inr vs, c') \<and> find (\<lambda>v. ccVIN cc = '''' \<or> equalFold (vVIN v) (ccVIN cc)) vs = Some v"
proof -
  from assms obtain s1 where "onClient (selectVehicle n cc) s1 = (Inr v, s')"
    unfolding startClient_def by (auto simp: wrapErr_Inr_iff elim!: bindOp_InrE)
  then obtain c c' where sel: "selectVehicle n cc c = (Inr v, c')" by (auto simp: onClient_def split: prod.splits)
  then obtain vs c1 where vs: "vehicles n cc c = (Inr vs, c1)" unfolding selectVehicle_def by (rule bindOp_InrE)
  from selectVehicle_spec [OF vs] sel have
    "\<exists>ws. filter (\<lambda>v. ccVIN cc = '''' \<or> equalFold (vVIN v) (ccVIN cc)) vs = v # ws"
    by (auto split: list.splits)
  with vs show ?thesis by (blast intro: find_filter)
qed

text \<open>Reads and waits leave the server and the broker alone; the clock never goes back.\<close>

interpretation svc_quiet: env_rel "serviceEnv a n cc pub ha rt" "\<lambda>s s'. syServer s' = syServer s \<and> syBroker s' = syBroker s"
  by unfold_locales (auto simp: serviceEnv_def onClient_def onClock_def split: prod.splits)

interpretation svc_clock: env_rel_cycle "serviceEnv a n cc pub ha (contextRuntime stop)" "\<lambda>s s'. syClock s \<le> syClock s'"
  by unfold_locales
     (auto simp: serviceEnv_def contextRuntime_def onClock_def onClient_def onServer_def onBroker_def recordingPublishState_def Let_def
       split: option.splits prod.splits if_splits sum.splits)

lemma onBroker_run: "onBroker m s = (x, s') \<Longrightarrow> syServer s' = syServer s \<and> (x, syBroker s') = m (syBroker s)"
  by (auto simp: onBroker_def split: prod.splits)

text \<open>What publishing and reporting do to the status server.\<close>

lemma finish_server:
  fixes a n cc pub ha rt
  defines "env \<equiv> serviceEnv a n cc pub ha rt"
  shows "syServer (finish env (r, s)) =
    (case r of
       Inl e \<Rightarrow> if seCtxErr env s \<noteq> None then syServer s else markFailure (syServer s)
     | Inr st \<Rightarrow> (case fst (publishState pub ha st (syBroker s)) of
          Inl e \<Rightarrow> markFailure (syServer s)
        | Inr u \<Rightarrow> markSuccess (setMetrics (metricsFromState st) (syServer s))))"
  by (auto simp: env_def finish_def serviceEnv_def recordingPublishState_def onBroker_def onServer_def split: sum.splits prod.splits)

section \<open>A log of the broker\<close>

datatype broker_event =
    BNew paho_config
  | BAwait
  | BPublish string payload nat bool
  | BDisconnect

definition logsBroker :: "('w, broker_event list, 'u) deps \<Rightarrow> bool" where
  "logsBroker d \<longleftrightarrow> dpNewConnection d = (\<lambda>u pc l. (Inr (), l @ [BNew pc])) \<and> dpAwaitConnection d = (\<lambda>l. (Inr (), l @ [BAwait]))
     \<and> dpPublish d = (\<lambda>t p q r l. (Inr (), l @ [BPublish t p q r])) \<and> dpDisconnect d = (\<lambda>l. (Inr (), l @ [BDisconnect]))"

lemma publishAll_log:
  "publishAll (mqttPublish (\<lambda>t p q r l. (Inr (), l @ [BPublish t p q r]))) ms l =
    (Inr (), l @ map (\<lambda>(t, p). BPublish t p 1 True) ms)"
  by (induction ms arbitrary: l) (auto simp: bindOp_def wrapErr_def mqttPublish_def)

lemma startMqtt_log:
  assumes "logsBroker d" and "startMqtt d cfg ha l = (Inr mq, l')"
  shows "l' = l @ [BNew (pahoConfig (mqttOptionsOf cfg ha)), BAwait] @ map (\<lambda>(t, p). BPublish t p 1 True) (buildDiscovery ha)
      @ [BPublish (availabilityTopic ha) (Text ''online'') 1 True]
    \<and> mqOnUp mq = Some (republish (mqttPublish (dpPublish d)) ha)"
  using assms
  by (auto simp: logsBroker_def startMqtt_def mqttConnect_def bindOp_def wrapErr_def publishDiscovery_def publishAll_log
      publishAvailability_def mqttPublish_def setOnConnectionUp_def Let_def split: sum.splits)

section \<open>Properties\<close>

text \<open>A start in mock mode with tokens in the store, for the examples: the broker is a log, the service
  knows one vehicle.\<close>

definition demoTokens :: tokens where
  "demoTokens = \<lparr>accessToken = ''A'', refreshToken = ''R'', deviceID = ''D'', validUntil = 3600 * nsPerSec\<rparr>"

definition demoNet :: "unit net" where
  "demoNet = refreshingNet\<lparr>netDo := (\<lambda>r w. (Inr \<lparr>rsStatus = 200, rsLocation = [], rsPartial = [], rsBody = Inr (Doc (JObj
      [(''resMsg'', JObj [(''vehicles'', JArr [JObj [(''vehicleId'', JStr ''one''), (''vin'', JStr ''AAA'')]])])]))\<rparr>, w)),
     netLoad := (\<lambda>w. (Inr (Some demoTokens), w))\<rparr>"

definition demoVehicle :: vehicle where
  "demoVehicle = \<lparr>vID = ''one'', vVIN = ''AAA'', vName = [], vModel = [], vRegDate = [], vType = [], vCCS2ProtocolSupport = 0\<rparr>"

definition demoDeps :: "'w net \<Rightarrow> ('w, broker_event list, unit) deps" where
  "demoDeps n = \<lparr>dpParsers = demoParsers, dpEnviron = demoEnvironment, dpInCluster = Inr (), dpNewForConfig = Inr (),
     dpNamespaceFile = Inr ''home'', dpNet = (\<lambda>b. n), dpBrokerParse = (\<lambda>s. Inr ()),
     dpNewConnection = (\<lambda>u pc l. (Inr (), l @ [BNew pc])), dpAwaitConnection = (\<lambda>l. (Inr (), l @ [BAwait])),
     dpPublish = (\<lambda>t p q r l. (Inr (), l @ [BPublish t p q r])), dpDisconnect = (\<lambda>l. (Inr (), l @ [BDisconnect]))\<rparr>"

definition demoService :: "(unit, broker_event list, int) service" where
  "demoService = \<lparr>syClient = \<lparr>clTokens = tokens0, clWorld = ()\<rparr>,
     syServer = newServer \<lparr>readyFailureThreshold = 1, scPollInterval = 0, scForceEnabled = False, scForceHour = 0,
       scForceMinute = 0, scForceLocation = None\<rparr> 0, syBroker = [], syClock = 0\<rparr>"

lemma demo_logs: "logsBroker (demoDeps n)"
  by (simp add: logsBroker_def demoDeps_def)

text \<open>Any service on that account starts, once its broker accepts everything.\<close>

lemma demo_starts_on:
  fixes d :: "(unit, 'm, 'u) deps" and s0 :: "(unit, 'm, 'c) service"
  assumes "dpParsers d = demoParsers" and "dpEnviron d = demoEnvironment" and "dpNet d = (\<lambda>b. demoNet)"
    and broker: "\<And>cfg ha l. \<exists>mq l'. startMqtt d cfg ha l = (Inr mq, l')"
    and "syClient s0 = \<lparr>clTokens = tokens0, clWorld = ()\<rparr>"
  shows "\<exists>r s. startUp d 0 s0 = (Inr r, s)"
proof -
  let ?cfg = "loadConfig demoParsers demoEnvironment"
  have ld: "load (dpParsers d) (dpEnviron d) = Inr ?cfg" using demo_loads by (simp add: assms)
  have "tokenStore ?cfg = ''memory''" by code_simp
  then have b: "buildTokenStore d ?cfg = Inr MemoryBackend" by (simp add: buildTokenStore_def)
  have cc: "clientConfigOf ?cfg = Inr \<lparr>ccLoginHost = ''http://localhost:8090'', ccSPABase = ''http://localhost:8090'',
      ccSPAAPI = ''http://localhost:8090/api/v1/spa/'', ccUsername = ''mock'', ccPassword = ''mock'', ccVIN = []\<rparr>"
    (is "_ = Inr ?cc") by code_simp
  have "connect demoNet ?cc \<lparr>clTokens = tokens0, clWorld = ()\<rparr> = (Inr (), \<lparr>clTokens = demoTokens, clWorld = ()\<rparr>)"
    "selectVehicle demoNet ?cc \<lparr>clTokens = demoTokens, clWorld = ()\<rparr> = (Inr demoVehicle, \<lparr>clTokens = demoTokens, clWorld = ()\<rparr>)"
    by code_simp+
  then have c: "startClient (dpNet d MemoryBackend) ?cc (s0\<lparr>syServer := x\<rparr>) =
      (Inr demoVehicle, s0\<lparr>syServer := x, syClient := \<lparr>clTokens = demoTokens, clWorld = ()\<rparr>\<rparr>)" for x
    by (simp add: startClient_def bindOp_def wrapErr_def onClient_def assms(3,5))
  have "\<exists>mq s'. onBroker (startMqtt d ?cfg ha) s = (Inr mq, s')" for ha and s :: "(unit, 'm, 'c) service"
    using broker [of ?cfg ha "syBroker s"] by (auto simp: onBroker_def)
  then show ?thesis
    by (simp add: startUp_def ld b cc c Let_def split: prod.split sum.split) (metis Inl_Inr_False prod.inject)
qed

lemma demo_starts: "\<exists>r s. startUp (demoDeps demoNet) 0 demoService = (Inr r, s)"
proof (rule demo_starts_on)
  show "\<exists>mq l'. startMqtt (demoDeps demoNet) cfg ha l = (Inr mq, l')" for cfg ha l
    by (simp add: startMqtt_def mqttConnect_def demoDeps_def bindOp_def wrapErr_def publishDiscovery_def publishAll_log
        publishAvailability_def Let_def) (simp add: mqttPublish_def wrapErr_def)
qed (simp_all add: demoDeps_def demoService_def)

text \<open>C23: The service that starts is the one configured: the scheduler's interval, retries, time of day, zone
  and gate, the credentials and hosts of the client, the topics' prefixes, the display unit and the
  server's threshold are those of the configuration that was loaded, and within its bounds; the vehicle
  is the first of the account with the configured VIN (the first at all if none is configured), and the
  scheduler, the topics and the status page are about it. The status server is not ready yet.\<close>

theorem startUp_configured:
  assumes "startUp d now s0 = (Inr r, s)"
  shows "\<exists>cfg. load (dpParsers d) (dpEnviron d) = Inr cfg
    \<and> sdPollInterval (rnSched r) = pollInterval cfg \<and> 5 * 60 * nsPerSec \<le> pollInterval cfg
    \<and> sdMaxRetries (rnSched r) = pollMaxRetries cfg \<and> 0 \<le> pollMaxRetries cfg
    \<and> sdForceEnabled (rnSched r) = forceRefreshEnabled cfg
    \<and> sdForceHour (rnSched r) = forceRefreshHour cfg \<and> 0 \<le> forceRefreshHour cfg \<and> forceRefreshHour cfg < 24
    \<and> sdForceMinute (rnSched r) = forceRefreshMinute cfg \<and> 0 \<le> forceRefreshMinute cfg \<and> forceRefreshMinute cfg < 60
    \<and> sdForceLocation (rnSched r) = forceRefreshLocation cfg
    \<and> sdForceOnlyWhenPluggedIn (rnSched r) = forceRefreshOnlyWhenPluggedIn cfg
    \<and> newClient (bluelinkUsername cfg) (bluelinkPassword cfg) (bluelinkVIN cfg) (bluelinkLoginURL cfg) (bluelinkBaseURL cfg) =
        Inr (rnClient r)
    \<and> (\<exists>vs c c'. vehicles (rnNet r) (rnClient r) c = (Inr vs, c')
        \<and> find (\<lambda>v. bluelinkVIN cfg = '''' \<or> equalFold (vVIN v) (bluelinkVIN cfg)) vs = Some (rnVehicle r))
    \<and> sdVehicle (rnSched r) = rnVehicle r
    \<and> haVIN (rnHA r) = vVIN (rnVehicle r) \<and> haModel (rnHA r) = vModel (rnVehicle r) \<and> haName (rnHA r) = vName (rnVehicle r)
    \<and> haTopicPrefix (rnHA r) = mqttTopicPrefix cfg \<and> haDiscoveryPrefix (rnHA r) = cfgHADiscoveryPrefix cfg
    \<and> haDistanceUnit (rnHA r) = cfgDistanceUnit cfg \<and> cfgDistanceUnit cfg \<in> {''km'', ''mi''}
    \<and> \<not> isReady (syServer s) \<and> sThreshold (syServer s) = cfgReadyThreshold cfg \<and> 1 \<le> cfgReadyThreshold cfg
    \<and> sVehicleSet (syServer s) \<and> sVehicleVIN (syServer s) = vVIN (rnVehicle r)
    \<and> sVehicleModel (syServer s) = vModel (rnVehicle r) \<and> sVehicleName (syServer s) = vName (rnVehicle r)
    \<and> sVehicleCCS2 (syServer s) = isCCS2 (rnVehicle r) \<and> sStartedAt (syServer s) = now
    \<and> scPollInterval (sCfg (syServer s)) = pollInterval cfg \<and> scForceEnabled (sCfg (syServer s)) = forceRefreshEnabled cfg
    \<and> scForceHour (sCfg (syServer s)) = forceRefreshHour cfg \<and> scForceMinute (sCfg (syServer s)) = forceRefreshMinute cfg
    \<and> scForceLocation (sCfg (syServer s)) = forceRefreshLocation cfg"
  using assms
proof (rule startUp_InrE)
  fix cfg backend cc v s1 mq b
  assume ld: "load (dpParsers d) (dpEnviron d) = Inr cfg" and cc: "clientConfigOf cfg = Inr cc"
    and c: "startClient (dpNet d backend) cc (s0\<lparr>syServer := newServer (serverConfigOf cfg) now\<rparr>) = (Inr v, s1)"
    and r: "r = \<lparr>rnNet = dpNet d backend, rnClient = cc, rnVehicle = v, rnHA = haConfigOf cfg v,
         rnSched = newScheduler (schedConfigOf cfg v), rnMqtt = mq\<rparr>"
    and s: "s = (onServer (setVehicle (vModel v) (vName v) (vVIN v) (isCCS2 v)) s1)\<lparr>syBroker := b\<rparr>"
  have sv: "syServer s = setVehicle (vModel v) (vName v) (vVIN v) (isCCS2 v) (newServer (serverConfigOf cfg) now)"
    using startClient_frame [OF c] by (simp add: s onServer_def)
  have vin: "ccVIN cc = bluelinkVIN cfg" using cc by (auto simp: clientConfigOf_def newClient_def Let_def split: if_splits)
  from startClient_selected [OF c, unfolded vin] show ?thesis
    using load_schedule [OF ld] load_choices(1) [OF ld] cc [unfolded clientConfigOf_def] unfolding sv
    by (intro exI [of _ cfg])
       (auto simp: ld r newScheduler_def schedConfigOf_def haConfigOf_def setVehicle_def newServer_def serverConfigOf_def
        minPollInterval_def isReady_def Let_def)
qed

theorem startUp_configured_witness:
  "\<exists>r s cfg. startUp (demoDeps demoNet) 0 demoService = (Inr r, s) \<and> load demoParsers demoEnvironment = Inr cfg
     \<and> sdPollInterval (rnSched r) = pollInterval cfg \<and> sdForceOnlyWhenPluggedIn (rnSched r) = forceRefreshOnlyWhenPluggedIn cfg"
proof -
  obtain r s where run: "startUp (demoDeps demoNet) 0 demoService = (Inr r, s)" using demo_starts by blast
  have "dpParsers (demoDeps demoNet) = demoParsers" "dpEnviron (demoDeps demoNet) = demoEnvironment" by (simp_all add: demoDeps_def)
  with startUp_configured [OF run] run show ?thesis by auto
qed

text \<open>C24: What a session says to the broker, in order: the connection is opened with a retained will of
  "offline" on the availability topic at QoS 1; then every discovery document and "online"; at the end
  of the context the very message of the will, then a clean disconnect. A connection-up later repeats
  "online" and the discovery documents.\<close>

theorem broker_session:
  assumes "logsBroker d" and "startUp d now s0 = (Inr r, s)" and "syBroker s0 = []"
  shows "\<exists>pc. pcWill pc = Some (availabilityTopic (rnHA r), Text ''offline'', 1, True)
    \<and> syBroker s = [BNew pc, BAwait] @ map (\<lambda>(t, p). BPublish t p 1 True) (buildDiscovery (rnHA r))
        @ [BPublish (availabilityTopic (rnHA r)) (Text ''online'') 1 True]
    \<and> syBroker (snd (shutDown d r CtxDone x s')) =
        syBroker s' @ [BPublish (availabilityTopic (rnHA r)) (Text ''offline'') 1 True, BDisconnect]
    \<and> fireOnUp (rnMqtt r) l = l @ [BPublish (availabilityTopic (rnHA r)) (Text ''online'') 1 True]
        @ map (\<lambda>(t, p). BPublish t p 1 True) (buildDiscovery (rnHA r))"
  using assms(2)
proof (rule startUp_InrE)
  fix cfg backend cc v s1 mq b
  assume c: "startClient (dpNet d backend) cc (s0\<lparr>syServer := newServer (serverConfigOf cfg) now\<rparr>) = (Inr v, s1)"
    and m: "startMqtt d cfg (haConfigOf cfg v) (syBroker s1) = (Inr mq, b)"
    and r: "r = \<lparr>rnNet = dpNet d backend, rnClient = cc, rnVehicle = v, rnHA = haConfigOf cfg v,
         rnSched = newScheduler (schedConfigOf cfg v), rnMqtt = mq\<rparr>"
    and s: "s = (onServer (setVehicle (vModel v) (vName v) (vVIN v) (isCCS2 v)) s1)\<lparr>syBroker := b\<rparr>"
  let ?ha = "haConfigOf cfg v"
  have will: "pcWill (pahoConfig (mqttOptionsOf cfg ?ha)) = Some (availabilityTopic ?ha, Text ''offline'', 1, True)"
    by (simp add: pahoConfig_def mqttOptionsOf_def availabilityTopic_def baseTopic_def)
  from assms(1) have "republish (mqttPublish (dpPublish d)) ?ha l = l @ [BPublish (availabilityTopic ?ha) (Text ''online'') 1 True]
        @ map (\<lambda>(t, p). BPublish t p 1 True) (buildDiscovery ?ha)" for l
    by (simp add: logsBroker_def republish_def publishAvailability_def publishDiscovery_def publishAll_log)
       (simp add: mqttPublish_def wrapErr_def)
  then have up: "fireOnUp (rnMqtt r) l = l @ [BPublish (availabilityTopic ?ha) (Text ''online'') 1 True]
        @ map (\<lambda>(t, p). BPublish t p 1 True) (buildDiscovery ?ha)"
    using startMqtt_log [OF assms(1) m] by (simp add: r fireOnUp_def)
  have "syBroker (snd (shutDown d r CtxDone x s')) =
        syBroker s' @ [BPublish (availabilityTopic ?ha) (Text ''offline'') 1 True, BDisconnect]"
    using assms(1) by (simp add: r shutDown_def logsBroker_def onBroker_def publishAvailability_def mqttPublish_def wrapErr_def
        mqttDisconnect_def Let_def)
  with startMqtt_log [OF assms(1) m] startClient_frame [OF c] assms(3) will up show ?thesis
    by (intro exI [of _ "pahoConfig (mqttOptionsOf cfg ?ha)"]) (simp add: r s)
qed

theorem broker_session_witness:
  "\<exists>r s pc. startUp (demoDeps demoNet) 0 demoService = (Inr r, s)
    \<and> pcWill pc = Some (availabilityTopic (rnHA r), Text ''offline'', 1, True) \<and> hd (syBroker s) = BNew pc"
proof -
  obtain r s where run: "startUp (demoDeps demoNet) 0 demoService = (Inr r, s)" using demo_starts by blast
  have "syBroker demoService = []" by (simp add: demoService_def)
  from broker_session [OF demo_logs run this] run show ?thesis by (metis append_Cons list.sel(1))
qed

text \<open>One poll of the service moves the status server in one of three ways: not at all (the context
  ended), one failure, or one success together with a snapshot of a state that was published just
  before; a snapshot never appears without a successful publish of that very state.\<close>

theorem poll_updates_server:
  "case retryLoop (serviceEnv a n cc pub ha rt) cfg False 0 nsPerSec None s of (r, s1) \<Rightarrow>
     syServer (poll (serviceEnv a n cc pub ha rt) cfg s) =
       (case r of
          Inl e \<Rightarrow> if rtCtxErr rt (syClock s1) \<noteq> None then syServer s else markFailure (syServer s)
        | Inr st \<Rightarrow> (case fst (publishState pub ha st (syBroker s)) of
             Inl e \<Rightarrow> markFailure (syServer s)
           | Inr u \<Rightarrow> markSuccess (setMetrics (metricsFromState st) (syServer s))))"
proof -
  obtain r s1 where run: "retryLoop (serviceEnv a n cc pub ha rt) cfg False 0 nsPerSec None s = (r, s1)"
    by (metis surj_pair)
  have "seCtxErr (serviceEnv a n cc pub ha rt) s1 = rtCtxErr rt (syClock s1)" by (simp add: serviceEnv_def)
  with svc_quiet.retryLoop_R [OF run] finish_server [of a n cc pub ha rt r s1] show ?thesis
    unfolding poll_def fetchWithRetry_def run prod.case by (cases r) (simp_all split: sum.split)
qed

text \<open>C37: The status page does not depend on personal data: two states that differ only in position, its
  time, odometer and locks give the same page after they are published.\<close>

theorem page_hides_personal_data:
  assumes "recordingPublishState pub ha st s = (Inr (), s1)"
    and "recordingPublishState pub' ha' (st\<lparr>latitude := la, longitude := lo, locationUpdatedAt := t, odometer := od,
           odometerUnit := u, locked := lk\<rparr>) s' = (Inr (), s2)"
    and "syServer s' = syServer s"
  shows "handleRoot goVersion now (syServer s2) = handleRoot goVersion now (syServer s1)"
proof -
  have out: "syServer q' = setMetrics (metricsFromState st) (syServer q)"
    if "recordingPublishState pub ha st q = (Inr (), q')" for pub ha st and q q' :: "('x, 'y, 'z) service"
    using that by (auto simp: recordingPublishState_def onBroker_def onServer_def split: prod.splits sum.splits)
  have "metricsFromState (st\<lparr>latitude := la, longitude := lo, locationUpdatedAt := t, odometer := od, odometerUnit := u,
      locked := lk\<rparr>) = metricsFromState st" by (simp add: metricsFromState_def)
  with out [OF assms(1)] out [OF assms(2)] assms(3) show ?thesis by simp
qed

theorem page_hides_personal_data_witness:
  "\<exists>s1 s2. recordingPublishState (\<lambda>t p r l. (Inr (), l)) (haConfigOf (loadConfig demoParsers demoEnvironment) demoVehicle)
       emptyState demoService = (Inr (), s1)
     \<and> recordingPublishState (\<lambda>t p r l. (Inr (), l)) (haConfigOf (loadConfig demoParsers demoEnvironment) demoVehicle)
       (emptyState\<lparr>locked := Some True\<rparr>) demoService = (Inr (), s2)
     \<and> handleRoot ''go'' 0 (syServer s2) = handleRoot ''go'' 0 (syServer s1)"
proof -
  let ?ha = "haConfigOf (loadConfig demoParsers demoEnvironment) demoVehicle"
  let ?p = "\<lambda>(t :: string) (p :: payload) (r :: bool) (l :: broker_event list). (Inr () :: gerr + unit, l)"
  have "\<exists>s1. recordingPublishState ?p ?ha (emptyState\<lparr>locked := b\<rparr>) demoService = (Inr (), s1)" for b
    by (cases b) (simp_all add: recordingPublishState_def onBroker_def publishState_def publishTracker_def bindOp_def wrapErr_def
        inDistanceUnit_def convertDistanceField_def emptyState_def marshalState_def stateFields_def encString_def encBool_def
        encInt_def Let_def)
  from this [of None] this [of "Some True"] obtain s1 s2 where
    run: "recordingPublishState ?p ?ha (emptyState\<lparr>locked := None\<rparr>) demoService = (Inr (), s1)"
      "recordingPublishState ?p ?ha (emptyState\<lparr>locked := Some True\<rparr>) demoService = (Inr (), s2)" by blast
  have e: "emptyState\<lparr>locked := None\<rparr> = emptyState"
    "emptyState\<lparr>locked := b\<rparr> = emptyState\<lparr>latitude := None, longitude := None, locationUpdatedAt := None, odometer := None,
       odometerUnit := [], locked := b\<rparr>" for b
    by (simp_all add: emptyState_def)
  from page_hides_personal_data [OF run(1) [unfolded e(1)] run(2) [unfolded e(2)] refl] run e show ?thesis by metis
qed

text \<open>C40: The diagnostic dump never wakes the car unless it is forced, whatever the service answers.\<close>

theorem dump_never_wakes:
  assumes "dpNet d = (\<lambda>b. tnet (N b))"
  shows "emits (\<lambda>ev. \<not> wakes ev) (runDump d False)"
proof -
  have path: "emits (\<lambda>ev. \<not> wakes ev) (dumpPath (tnet n) cc v p)"
    if "p \<in> set (dumpPaths v False)" for n :: "'x net" and cc v p
    using that unfolding dumpPath_def debugGet_def dumpPaths_def
    by (intro net_intros doAuthedGet_quiet) auto
  have dump: "emits (\<lambda>ev. \<not> wakes ev) (dumpAll (tnet n) cc v ps)"
    if "set ps \<subseteq> set (dumpPaths v False)" for n :: "'x net" and cc v ps
    using that by (induction ps) (auto intro!: net_intros path)
  have conn: "emits (\<lambda>ev. \<not> wakes ev) (connect (tnet n) cc)" for n :: "'x net" and cc
    unfolding connect_def by (intro net_intros ensure_wakes; simp; intro emits_log; simp)
  have sel: "emits (\<lambda>ev. \<not> wakes ev) (selectVehicle (tnet n) cc)" for n :: "'x net" and cc
  proof -
    have "emits (\<lambda>ev. \<not> wakes ev) (vehicles (tnet n) cc)"
      unfolding vehicles_def by (intro net_intros authedGet_quiet) (simp add: apiRequest_def suffix_lit)
    then show ?thesis unfolding selectVehicle_def
      by (intro net_intros) (auto split: list.split option.split intro!: net_intros)
  qed
  show ?thesis
    unfolding runDump_def assms
    by (auto split: sum.split intro!: net_intros conn sel dump)
qed

theorem dump_never_wakes_witness:
  "emits (\<lambda>ev. \<not> wakes ev) (runDump (demoDeps (tnet demoNet)) False)"
  by (rule dump_never_wakes [where N = "\<lambda>b. demoNet"]) (simp add: demoDeps_def)

end
