(* ===== verification/Schedule.thy ===== *)
theory Schedule
  imports Scheduler
begin

text \<open>
  What \<open>untilNextForce\<close> of \<open>internal/scheduler/scheduler.go\<close> promises: the next force refresh
  lies ahead and within a day, at the configured wall-clock time; when that holds, and the zones
  in which it does not.
\<close>

section \<open>Facts\<close>

definition offsetsIn :: "int \<Rightarrow> int \<Rightarrow> location \<Rightarrow> bool" where
  "offsetsIn lo hi loc \<longleftrightarrow> inRange lo hi (locFirst loc) \<and> list_all (inRange lo hi) (map snd (locTrans loc))"

lemma offsetsIn_at: "offsetsIn lo hi loc \<Longrightarrow> lo \<le> offsetAt loc t \<and> offsetAt loc t \<le> hi"
  using zoneLookup_mem [of "locFirst loc" None "locTrans loc" t]
  by (auto simp: offsetsIn_def offsetAt_def locLookup_def list_all_iff inRange_def)

lemma offsetsIn_wall: "offsetsIn lo hi loc \<Longrightarrow> u - hi \<le> wallToUnix loc u \<and> wallToUnix loc u \<le> u - lo"
  using wallToUnix_offset [of loc u] offsetsIn_at by (metis diff_left_mono)

definition timeOfDay :: "sched_config \<Rightarrow> int" where
  "timeOfDay cfg = sdForceHour cfg * 3600 + sdForceMinute cfg * 60"

definition validTime :: "sched_config \<Rightarrow> bool" where
  "validTime cfg \<longleftrightarrow> inRange 0 23 (sdForceHour cfg) \<and> inRange 0 59 (sdForceMinute cfg)"

lemma timeOfDay_range: "validTime cfg \<Longrightarrow> 0 \<le> timeOfDay cfg \<and> timeOfDay cfg < 86400"
  by (auto simp: validTime_def timeOfDay_def inRange_def)

definition forceLoc :: "sched_config \<Rightarrow> location" where
  "forceLoc cfg = (case sdForceLocation cfg of None \<Rightarrow> utcLoc | Some l \<Rightarrow> l)"

text \<open>The candidate of a local calendar day, and the two cases of the function.\<close>

definition candidate :: "sched_config \<Rightarrow> int \<Rightarrow> int" where
  "candidate cfg day = wallToUnix (forceLoc cfg) (day * 86400 + timeOfDay cfg)"

lemma untilNextForce_eq:
  "untilNextForce cfg now =
     (let day = localDay (forceLoc cfg) (now div nsPerSec) in
      if now < candidate cfg day * nsPerSec then candidate cfg day * nsPerSec - now
      else candidate cfg (day + 1) * nsPerSec - now)"
proof (cases "civilFromDays (localDay (forceLoc cfg) (now div nsPerSec))")
  case (fields y m d)
  then have "daysFromCivil y m d = localDay (forceLoc cfg) (now div nsPerSec)"
    by (rule daysFromCivil_civilFromDays)
  moreover define day where "day = localDay (forceLoc cfg) (now div nsPerSec)"
  ultimately have day: "daysFromCivil y m d = day" "daysFromCivil y m (d + 1) = day + 1"
    by (simp_all add: daysFromCivil_add)
  have "dateIn (forceLoc cfg) y m d (sdForceHour cfg) (sdForceMinute cfg) = candidate cfg day"
    "dateIn (forceLoc cfg) y m (d + 1) (sdForceHour cfg) (sdForceMinute cfg) = candidate cfg (day + 1)"
    unfolding dateIn_def candidate_def timeOfDay_def day by (simp_all only: add.assoc)
  then show ?thesis
    unfolding untilNextForce_def forceLoc_def [symmetric] day_def [symmetric] Let_def fields [folded day_def] by simp
qed

lemma now_bounds: "now div nsPerSec * nsPerSec \<le> now" "now < (now div nsPerSec + 1) * nsPerSec" for now :: int
proof -
  have "now = now div nsPerSec * nsPerSec + now mod nsPerSec" "0 \<le> now mod nsPerSec" "now mod nsPerSec < nsPerSec"
    by simp_all
  moreover have "(now div nsPerSec + 1) * nsPerSec = now div nsPerSec * nsPerSec + nsPerSec" by (rule distrib_right [THEN trans]) simp
  ultimately show "now div nsPerSec * nsPerSec \<le> now" "now < (now div nsPerSec + 1) * nsPerSec" by linarith+
qed

lemma localDay_bounds:
  "localDay loc s * 86400 - offsetAt loc s \<le> s" "s < localDay loc s * 86400 + 86400 - offsetAt loc s"
proof -
  define x where "x = s + offsetAt loc s"
  have "x = x div 86400 * 86400 + x mod 86400" "0 \<le> x mod 86400" "x mod 86400 < 86400" by simp_all
  moreover have "s = x - offsetAt loc s" by (simp add: x_def)
  ultimately show "localDay loc s * 86400 - offsetAt loc s \<le> s" "s < localDay loc s * 86400 + 86400 - offsetAt loc s"
    unfolding localDay_def localSecs_def x_def [symmetric] by linarith+
qed

definition spaced :: "location \<Rightarrow> bool" where
  "spaced loc \<longleftrightarrow> sorted_wrt (\<lambda>(s, a) (s', b). s + 172800 < s') (locTrans loc) \<and> offsetsIn (- 86400) 86400 loc"

lemma wallToUnix_exact:
  assumes "spaced loc" and "localSecs loc t = u"
  shows "localSecs loc (wallToUnix loc u) = u"
proof -
  have w: "sorted_wrt (\<lambda>(s, a) (s', b). s + 172800 < s') (locTrans loc)" and r: "offsetsIn (- 86400) 86400 loc"
    using assms(1) by (simp_all add: spaced_def)
  have "sorted (map fst (locTrans loc))" using w unfolding sorted_map
    by (rule sorted_wrt_mono_rel [rotated]) auto
  then have x: "wallToUnix loc u = u - offsetAt loc (u - offsetAt loc u)" by (rule wallToUnix_eq)
  have "u + 86400 - (u - 86400) \<le> 172800" by simp
  from spaced_window [OF w this, of "locFirst loc" None] obtain T a b where win: "\<And>x. u - 86400 \<le> x \<Longrightarrow> x \<le> u + 86400 \<Longrightarrow> offsetAt loc x = (if x < T then a else b)"
    unfolding offsetAt_def locLookup_def by blast
  have near: "u - 86400 \<le> u - offsetAt loc x \<and> u - offsetAt loc x \<le> u + 86400" for x
    using offsetsIn_at [OF r, of x] by simp
  have t: "t = u - offsetAt loc t" using assms(2) by (simp add: localSecs_def)
  have tin: "u - 86400 \<le> t" "t \<le> u + 86400" using t offsetsIn_at [OF r, of t] by linarith+
  define o1 o2 o3 o' where "o1 = offsetAt loc u" and "o2 = offsetAt loc (u - o1)" and "o3 = offsetAt loc (u - o2)"
    and "o' = offsetAt loc t"
  have "o1 = (if u < T then a else b)" unfolding o1_def by (rule win) auto
  moreover have "o2 = (if u - o1 < T then a else b)" unfolding o2_def o1_def by (rule win) (use near in auto)
  moreover have "o3 = (if u - o2 < T then a else b)" unfolding o3_def o2_def by (rule win) (use near in auto)
  moreover have "o' = (if t < T then a else b)" unfolding o'_def by (rule win [OF tin])
  moreover have "t = u - o'" using t unfolding o'_def .
  ultimately have "o3 = o2" by (auto split: if_splits)
  then show ?thesis by (simp add: localSecs_def x o1_def o2_def o3_def)
qed

lemma untilNextForce_range:
  assumes "offsetsIn lo hi (forceLoc cfg)" and "validTime cfg" and "hi - lo \<le> timeOfDay cfg"
  shows "0 < untilNextForce cfg now \<and> untilNextForce cfg now \<le> (86400 + (hi - lo)) * nsPerSec"
proof -
  define s day off where "s = now div nsPerSec" and "day = localDay (forceLoc cfg) s"
    and "off = offsetAt (forceLoc cfg) s"
  note now = now_bounds [where now = now, folded s_def]
  note day = localDay_bounds [where loc = "forceLoc cfg" and s = s, folded day_def off_def]
  have off: "lo \<le> off" "off \<le> hi" using offsetsIn_at [OF assms(1), of s] by (simp_all add: off_def)
  have cand: "k * 86400 + timeOfDay cfg - hi \<le> candidate cfg k" "candidate cfg k \<le> k * 86400 + timeOfDay cfg - lo"
    for k using offsetsIn_wall [OF assms(1)] by (simp_all add: candidate_def)
  have tod: "0 \<le> timeOfDay cfg" "timeOfDay cfg < 86400" using timeOfDay_range [OF assms(2)] by simp_all
  show ?thesis
  proof (cases "now < candidate cfg day * nsPerSec")
    case True
    have "candidate cfg day \<le> s + (86400 + (hi - lo))" using cand [of day] day off tod by linarith
    then have "candidate cfg day * nsPerSec \<le> (s + (86400 + (hi - lo))) * nsPerSec" by simp
    with True now show ?thesis
      unfolding untilNextForce_eq Let_def s_def [symmetric] day_def [symmetric] by simp
  next
    case False
    have "(day + 1) * 86400 = day * 86400 + 86400" by simp
    with cand [of "day + 1"] day off tod assms(3) have "s + 1 \<le> candidate cfg (day + 1)" by linarith
    then have "(s + 1) * nsPerSec \<le> candidate cfg (day + 1) * nsPerSec" by simp
    moreover have "candidate cfg (day + 1) \<le> candidate cfg day + (86400 + (hi - lo))"
      using cand [of "day + 1"] cand [of day] by (simp add: algebra_simps)
    then have "candidate cfg (day + 1) * nsPerSec \<le> (candidate cfg day + (86400 + (hi - lo))) * nsPerSec" by simp
    ultimately show ?thesis using False now
      unfolding untilNextForce_eq Let_def s_def [symmetric] day_def [symmetric] by simp
  qed
qed

section \<open>Properties\<close>

text \<open>C17: The next force refresh lies ahead and no more than a day plus the spread of the zone's
  offsets away, whenever the configured time of day is at least that spread (for the usual one hour
  of summer time: from 01:00 on).\<close>

theorem untilNextForce_bounds:
  assumes "offsetsIn lo hi (forceLoc cfg)" and "validTime cfg" and "hi - lo \<le> timeOfDay cfg"
  shows "0 < untilNextForce cfg now \<and> untilNextForce cfg now \<le> (86400 + (hi - lo)) * nsPerSec"
  by (rule untilNextForce_range [OF assms])

theorem untilNextForce_bounds_witness:
  "0 < untilNextForce (demoConfig\<lparr>sdForceLocation :=
      Some \<lparr>locName = ''Europe/London'', locFirst = 0, locTrans = [(1774746000, 3600), (1792890000, 0)]\<rparr>\<rparr>) 1760000000000000000"
  using untilNextForce_bounds [of 0 3600 "demoConfig\<lparr>sdForceLocation :=
      Some \<lparr>locName = ''Europe/London'', locFirst = 0, locTrans = [(1774746000, 3600), (1792890000, 0)]\<rparr>\<rparr>" 1760000000000000000]
  by (simp add: offsetsIn_def forceLoc_def inRange_def validTime_def timeOfDay_def demoConfig_def)

text \<open>C19: The refresh fires at the configured wall-clock time across changes of the clocks: in a zone whose
  transitions lie more than two days apart, the wait from any instant ends on a whole second at which the
  local clock of today or of the next day shows exactly the configured hour and minute, unless that
  time does not exist on that day.\<close>

theorem untilNextForce_wall_clock:
  assumes "spaced (forceLoc cfg)" and "validTime cfg"
  shows "\<exists>t day. now + untilNextForce cfg now = t * nsPerSec \<and> day \<in> {localDay (forceLoc cfg) (now div nsPerSec), localDay (forceLoc cfg) (now div nsPerSec) + 1}
    \<and> (localSecs (forceLoc cfg) t = day * 86400 + timeOfDay cfg
       \<or> (\<nexists>t'. localSecs (forceLoc cfg) t' = day * 86400 + timeOfDay cfg))"
proof -
  obtain day where day: "now + untilNextForce cfg now = candidate cfg day * nsPerSec"
    "day \<in> {localDay (forceLoc cfg) (now div nsPerSec), localDay (forceLoc cfg) (now div nsPerSec) + 1}"
    by (cases "now < candidate cfg (localDay (forceLoc cfg) (now div nsPerSec)) * nsPerSec")
       (auto simp: untilNextForce_eq Let_def)
  have "localSecs (forceLoc cfg) (candidate cfg day) = day * 86400 + timeOfDay cfg"
    if "localSecs (forceLoc cfg) t' = day * 86400 + timeOfDay cfg" for t'
    unfolding candidate_def by (rule wallToUnix_exact [OF assms(1) that])
  with day show ?thesis by (intro exI [of _ "candidate cfg day"] exI [of _ day]) blast
qed

theorem untilNextForce_wall_clock_witness:
  "\<exists>t. 1760000000000000000 + untilNextForce (demoConfig\<lparr>sdForceLocation :=
      Some \<lparr>locName = ''Europe/London'', locFirst = 0, locTrans = [(1774746000, 3600), (1792890000, 0)]\<rparr>\<rparr>) 1760000000000000000
    = t * nsPerSec"
  using untilNextForce_wall_clock [of "demoConfig\<lparr>sdForceLocation :=
      Some \<lparr>locName = ''Europe/London'', locFirst = 0, locTrans = [(1774746000, 3600), (1792890000, 0)]\<rparr>\<rparr>" 1760000000000000000]
  by (auto simp: spaced_def offsetsIn_def forceLoc_def inRange_def validTime_def demoConfig_def)

text \<open>A western zone whose clocks go forward at midnight (as in Chile on 2025-09-07, from -4 to -3
  hours at 04:00 UTC), and a refresh configured in the hour that is skipped that day.\<close>

definition santiago :: location where
  "santiago = \<lparr>locName = ''America/Santiago'', locFirst = - 14400, locTrans = [(1757217600, - 10800)]\<rparr>"

definition gapConfig :: sched_config where
  "gapConfig = demoConfig\<lparr>sdForceHour := 0, sdForceMinute := 30, sdForceLocation := Some santiago\<rparr>"

text \<open>C18: Where midnight is skipped the schedule stalls: with a refresh at 00:30 in that zone the
  wait is zero or negative at every instant from 03:30 to 04:00 UTC of the night of the change, so
  that the loop, whose wait is then over at once, wakes the car again and again for half an hour.\<close>

theorem untilNextForce_gap:
  assumes "1757215800 * nsPerSec \<le> now" and "now < 1757217600 * nsPerSec"
  shows "untilNextForce gapConfig now \<le> 0"
proof -
  define s where "s = now div nsPerSec"
  have s: "1757215800 \<le> s" "s < 1757217600" using assms by (simp_all add: s_def zdiv_mono1 div_less_iff_less_mult)
  have loc: "forceLoc gapConfig = santiago" by (simp add: forceLoc_def gapConfig_def)
  have "localDay santiago s = 20337"
  proof -
    have "localSecs santiago s = s - 14400"
      using s by (simp add: localSecs_def offsetAt_def locLookup_def santiago_def)
    moreover have "(s - 14400) div 86400 = 20337" using s by (intro int_div_pos_eq [of _ _ _ "s - 14400 - 20337 * 86400"]) auto
    ultimately show ?thesis by (simp add: localDay_def)
  qed
  moreover have "candidate gapConfig 20337 = 1757133000" "candidate gapConfig 20338 = 1757215800"
    by (simp_all add: candidate_def loc) (simp_all add: gapConfig_def timeOfDay_def demoConfig_def
        wallToUnix_def locLookup_def offsetAt_def santiago_def)
  ultimately show ?thesis using assms by (simp add: untilNextForce_eq loc Let_def flip: s_def)
qed

theorem untilNextForce_gap_witness: "untilNextForce gapConfig (1757216700 * nsPerSec) \<le> 0"
  using untilNextForce_gap [of "1757216700 * nsPerSec"] by simp

end
