(* ===== verification/Loops.thy ===== *)
theory Loops
  imports Serve Schedule
begin

text \<open>
  That the two loops of \<open>internal/scheduler/scheduler.go\<close> end: with timers that fire on time and a
  context that is cancelled at some instant, a number of rounds that can be computed beforehand is
  enough, each loop taken on its own (how they interleave is in \<open>Lock\<close>).
\<close>

section \<open>Facts\<close>

lemma service_select:
  fixes a n cc pub ha stop
  defines "env \<equiv> serviceEnv a n cc pub ha (contextRuntime (Some stop))"
  shows "seTick env d s = (done', s') \<Longrightarrow> done' \<or> (syClock s' = syClock s + max 0 d \<and> syClock s' < stop)"
    and "seAfter env d s = (done', s') \<Longrightarrow> done' \<or> (syClock s' = syClock s + max 0 d \<and> syClock s' < stop)"
    and "seNow env s = (now, s') \<Longrightarrow> s' = s \<and> now = syClock s"
  by (auto simp: env_def serviceEnv_def contextRuntime_def onClock_def Let_def split: prod.splits if_splits)

lemma pollTicks_stops:
  assumes "0 < sdPollInterval cfg" and "stop - syClock s \<le> int k * sdPollInterval cfg"
  shows "fst (pollTicks (Suc k) (serviceEnv a n cc pub ha (contextRuntime (Some stop))) cfg s)"
  using assms(2)
proof (induction k arbitrary: s)
  case 0
  then show ?case using assms(1) service_select(1) [of a n cc pub ha stop "sdPollInterval cfg" s]
    by (fastforce split: prod.split)
next
  case (Suc k)
  let ?env = "serviceEnv a n cc pub ha (contextRuntime (Some stop))"
  obtain b s1 where s1: "seTick ?env (sdPollInterval cfg) s = (b, s1)" by (cases "seTick ?env (sdPollInterval cfg) s")
  show ?case
  proof (cases b)
    case True
    with s1 show ?thesis by (simp add: pollTicks.simps(2) del: pollTicks.simps(1))
  next
    case False
    then have "syClock s1 = syClock s + sdPollInterval cfg" using service_select(1) [OF s1] assms(1) by simp
    with svc_clock.poll_R [of s1 a n cc pub ha "Some stop" cfg] Suc.prems
    have "stop - syClock (poll ?env cfg s1) \<le> int k * sdPollInterval cfg" by (simp add: distrib_right)
    with Suc.IH False s1 show ?thesis by simp
  qed
qed

lemma forceLoop_stops:
  assumes "\<And>now. 0 < untilNextForce cfg now" and "stop - syClock s \<le> int k"
  shows "fst (forceLoop (Suc k) (serviceEnv a n cc pub ha (contextRuntime (Some stop))) cfg s)"
  using assms(2)
proof (induction k arbitrary: s)
  case 0
  let ?env = "serviceEnv a n cc pub ha (contextRuntime (Some stop))"
  obtain b s1 where s1: "seAfter ?env (untilNextForce cfg (syClock s)) s = (b, s1)"
    by (cases "seAfter ?env (untilNextForce cfg (syClock s)) s")
  then have b using service_select(2) [OF s1] assms(1) [of "syClock s"] 0 by auto
  with s1 service_select(3) [of a n cc pub ha stop s] show ?case by (auto split: prod.split)
next
  case (Suc k)
  let ?env = "serviceEnv a n cc pub ha (contextRuntime (Some stop))"
  obtain b s1 where s1: "seAfter ?env (untilNextForce cfg (syClock s)) s = (b, s1)"
    by (cases "seAfter ?env (untilNextForce cfg (syClock s)) s")
  have now: "seNow ?env s = (syClock s, s)"
    using service_select(3) [of a n cc pub ha stop s] by (cases "seNow ?env s") auto
  show ?case
  proof (cases b)
    case True
    with s1 now show ?thesis by (simp add: forceLoop.simps(2) del: forceLoop.simps(1))
  next
    case False
    then have "syClock s + 1 \<le> syClock s1" using service_select(2) [OF s1] assms(1) [of "syClock s"] by auto
    with svc_clock.forceRefresh_R [of s1 a n cc pub ha "Some stop" cfg] Suc.prems
    have "stop - syClock (forceRefresh ?env cfg s1) \<le> int k" by simp
    with Suc.IH False s1 now show ?thesis by simp
  qed
qed

section \<open>Properties\<close>

text \<open>C9: The scheduler stops: once the context is cancelled at the instant \<open>stop\<close>, the poll loop ends after
  at most one tick more than there are poll intervals until then, and the force loop after at most one
  round more than there are nanoseconds, whatever the service, the broker and the car do in between,
  provided the time of day of the refresh is at least the spread of the zone's offsets.\<close>

theorem scheduler_stops:
  assumes "0 < sdPollInterval cfg" and "stop - syClock s \<le> int k * sdPollInterval cfg"
    and "offsetsIn lo hi (forceLoc cfg)" and "validTime cfg" and "hi - lo \<le> timeOfDay cfg" and "stop - syClock s \<le> int j"
  shows "fst (pollLoop (Suc k) (serviceEnv a n cc pub ha (contextRuntime (Some stop))) cfg s)
    \<and> fst (forceLoop (Suc j) (serviceEnv a n cc pub ha (contextRuntime (Some stop))) cfg s)"
proof
  let ?env = "serviceEnv a n cc pub ha (contextRuntime (Some stop))"
  have "stop - syClock (poll ?env cfg s) \<le> int k * sdPollInterval cfg"
    using svc_clock.poll_R [of s a n cc pub ha "Some stop" cfg] assms(2) by linarith
  then show "fst (pollLoop (Suc k) ?env cfg s)" unfolding pollLoop_def by (rule pollTicks_stops [OF assms(1)])
  have "0 < untilNextForce cfg now" for now using untilNextForce_range [OF assms(3-5)] by blast
  then show "fst (forceLoop (Suc j) ?env cfg s)" using assms(6) by (rule forceLoop_stops)
qed

theorem scheduler_stops_witness:
  "fst (pollLoop 2 (serviceEnv AMD64 demoNet demoClient (\<lambda>t p r l. (Inr (), l))
      (haConfigOf (loadConfig demoParsers demoEnvironment) demoVehicle) (contextRuntime (Some (1800 * nsPerSec)))) demoConfig demoService)"
proof -
  have c: "syClock demoService = 0" by (simp add: demoService_def)
  have "offsetsIn 0 0 (forceLoc demoConfig)" "validTime demoConfig" "0 - 0 \<le> timeOfDay demoConfig" "0 < sdPollInterval demoConfig"
    by (simp_all add: offsetsIn_def inRange_def forceLoc_def demoConfig_def utcLoc_def validTime_def timeOfDay_def)
  moreover have "1800 * nsPerSec - syClock demoService \<le> int 1 * sdPollInterval demoConfig"
    by (simp add: c demoConfig_def)
  moreover have "1800 * nsPerSec - syClock demoService \<le> int (nat (1800 * nsPerSec))" by (simp add: c)
  ultimately show ?thesis
    using scheduler_stops [of demoConfig "1800 * nsPerSec" demoService 1 0 0 "nat (1800 * nsPerSec)" AMD64 demoNet demoClient]
    by (simp add: numeral_2_eq_2)
qed

end
