(* ===== verification/Lock.thy ===== *)
theory Lock
  imports Scheduler
begin

text \<open>
  The concurrency of \<open>internal/scheduler/scheduler.go\<close>: the poll loop and the force loop run in
  goroutines of their own; \<open>poll\<close> and \<open>forceRefresh\<close> take \<open>apiMu\<close> on entry and release it on
  return. A step starts a cycle, takes the lock, makes one call of the cycle, or returns. The
  calls a cycle makes are those of \<open>Scheduler\<close>. A step of one goroutine does not look at the
  other, only taking the lock does: that cycles never overlap is a theorem.
\<close>

datatype goroutine = PollLoop | ForceLoop

datatype pc =
    Waiting                                                 \<comment> \<open>in select, outside a cycle\<close>
  | Locking "sched_event list"                              \<comment> \<open>at \<open>apiMu.Lock()\<close>\<close>
  | Holding "sched_event list" "sched_event list"           \<comment> \<open>calls made and calls to make\<close>

record sched_sys =
  sysLock :: "goroutine option"
  sysPc :: "goroutine \<Rightarrow> pc"
  sysLog :: "(goroutine \<times> sched_event) list"

definition sysInit :: sched_sys where
  "sysInit = \<lparr>sysLock = None, sysPc = (\<lambda>_. Waiting), sysLog = []\<rparr>"

text \<open>The cycles of each goroutine.\<close>

primrec cycleOf :: "sched_config \<Rightarrow> goroutine \<Rightarrow> sched_event list \<Rightarrow> bool" where
  "cycleOf cfg PollLoop es = fetchCycle True False (sdMaxRetries cfg) es"
| "cycleOf cfg ForceLoop es =
     (sdForceEnabled cfg \<and> forceCycle True (sdForceOnlyWhenPluggedIn cfg) (sdMaxRetries cfg) es)"

inductive sysStep :: "sched_config \<Rightarrow> sched_sys \<Rightarrow> sched_sys \<Rightarrow> bool" for cfg where
  fire: "sysPc s t = Waiting \<Longrightarrow> cycleOf cfg t es \<Longrightarrow> sysStep cfg s (s\<lparr>sysPc := (sysPc s)(t := Locking es)\<rparr>)"
| lock: "sysPc s t = Locking es \<Longrightarrow> sysLock s = None \<Longrightarrow>
    sysStep cfg s (s\<lparr>sysLock := Some t, sysPc := (sysPc s)(t := Holding [] es)\<rparr>)"
| call: "sysPc s t = Holding past (e # rest) \<Longrightarrow>
    sysStep cfg s (s\<lparr>sysPc := (sysPc s)(t := Holding (past @ [e]) rest), sysLog := sysLog s @ [(t, e)]\<rparr>)"
| unlock: "sysPc s t = Holding past [] \<Longrightarrow>
    sysStep cfg s (s\<lparr>sysLock := None, sysPc := (sysPc s)(t := Waiting)\<rparr>)"

inductive_cases sysStepE: "sysStep cfg s s'"

inductive sysReachable :: "sched_config \<Rightarrow> sched_sys \<Rightarrow> bool" for cfg where
  start: "sysReachable cfg sysInit"
| step: "sysReachable cfg s \<Longrightarrow> sysStep cfg s s' \<Longrightarrow> sysReachable cfg s'"

section \<open>The invariant\<close>

definition tagged :: "goroutine \<Rightarrow> sched_event list \<Rightarrow> (goroutine \<times> sched_event) list" where
  "tagged t es = map (Pair t) es"

definition serial :: "(goroutine \<times> sched_event list) list \<Rightarrow> (goroutine \<times> sched_event) list" where
  "serial hist = concat (map (\<lambda>(t, es). tagged t es) hist)"

definition isHolding :: "pc \<Rightarrow> bool" where
  "isHolding p \<longleftrightarrow> (case p of Holding _ _ \<Rightarrow> True | _ \<Rightarrow> False)"

text \<open>A history of finished cycles explains a state's log.\<close>

definition explains :: "sched_config \<Rightarrow> sched_sys \<Rightarrow> (goroutine \<times> sched_event list) list \<Rightarrow> bool" where
  "explains cfg s hist \<longleftrightarrow> (\<forall>(t, es) \<in> set hist. cycleOf cfg t es) \<and>
     (case sysLock s of
        None \<Rightarrow> sysLog s = serial hist
      | Some t \<Rightarrow> (case sysPc s t of
            Holding past rest \<Rightarrow> cycleOf cfg t (past @ rest) \<and> sysLog s = serial hist @ tagged t past
          | _ \<Rightarrow> False))"

definition sysInv :: "sched_config \<Rightarrow> sched_sys \<Rightarrow> bool" where
  "sysInv cfg s \<longleftrightarrow>
     (\<forall>t es. sysPc s t = Locking es \<longrightarrow> cycleOf cfg t es) \<and>
     (\<forall>t. isHolding (sysPc s t) = (sysLock s = Some t)) \<and> (\<exists>hist. explains cfg s hist)"

lemma isHolding_simps [simp]: "isHolding (Holding a b)" "\<not> isHolding Waiting" "\<not> isHolding (Locking es)"
  by (simp_all add: isHolding_def)

lemma tagged_simps [simp]: "tagged t [] = []" "tagged t (es @ [e]) = tagged t es @ [(t, e)]"
  by (simp_all add: tagged_def)

lemma serial_snoc: "serial (hist @ [(t, es)]) = serial hist @ tagged t es"
  by (simp add: serial_def)

lemma sysInv_holder: "sysInv cfg s \<Longrightarrow> sysPc s t = Holding past rest \<Longrightarrow> sysLock s = Some t"
  unfolding sysInv_def by (metis isHolding_simps(1))

lemma sysInv_step:
  assumes "sysStep cfg s s'" and inv: "sysInv cfg s"
  shows "sysInv cfg s'"
proof -
  obtain hist where hist: "explains cfg s hist" using inv by (auto simp: sysInv_def)
  have wants: "cycleOf cfg t es" if "sysPc s t = Locking es" for t es using inv that by (simp add: sysInv_def)
  have owner: "isHolding (sysPc s t) = (sysLock s = Some t)" for t using inv by (simp add: sysInv_def)
  show ?thesis
    using assms(1)
  proof (cases rule: sysStep.cases)
    case (fire t es)
    then have no: "sysLock s \<noteq> Some t" using owner [of t] by simp
    with fire hist have "explains cfg s' hist" by (auto simp: explains_def split: option.splits pc.splits)
    with fire wants owner no show ?thesis by (auto simp: sysInv_def)
  next
    case (lock t es)
    with hist wants have "explains cfg s' hist" by (auto simp: explains_def)
    with lock wants owner show ?thesis by (auto simp: sysInv_def)
  next
    case (call t past e rest)
    then have l: "sysLock s = Some t" using inv sysInv_holder by blast
    with call hist have "explains cfg s' hist" by (auto simp: explains_def)
    with call wants owner l show ?thesis by (auto simp: sysInv_def)
  next
    case (unlock t past)
    then have l: "sysLock s = Some t" using inv sysInv_holder by blast
    with unlock hist have "explains cfg s' (hist @ [(t, past)])" by (auto simp: explains_def serial_snoc)
    with unlock wants owner l show ?thesis by (auto simp: sysInv_def)
  qed
qed

lemma sysInv_reachable: "sysReachable cfg s \<Longrightarrow> sysInv cfg s"
proof (induction rule: sysReachable.induct)
  case start
  have "explains cfg sysInit []" by (simp add: explains_def sysInit_def serial_def)
  then show ?case by (auto simp: sysInv_def sysInit_def)
qed (rule sysInv_step)

inductive sysSteps :: "sched_config \<Rightarrow> sched_sys \<Rightarrow> sched_sys \<Rightarrow> bool" for cfg where
  none: "sysSteps cfg s s"
| more: "sysStep cfg s s' \<Longrightarrow> sysSteps cfg s' s'' \<Longrightarrow> sysSteps cfg s s''"

lemma holder_finishes:
  "sysPc s t = Holding past rest \<Longrightarrow> \<exists>s'. sysSteps cfg s s' \<and> sysLock s' = None \<and> sysLog s' = sysLog s @ tagged t rest"
proof (induction rest arbitrary: s past)
  case Nil
  let ?s = "s\<lparr>sysLock := None, sysPc := (sysPc s)(t := Waiting)\<rparr>"
  have "sysSteps cfg s ?s" by (rule more [OF unlock [OF Nil] none])
  then show ?case by (intro exI [of _ ?s]) simp
next
  case (Cons e rest)
  let ?s = "s\<lparr>sysPc := (sysPc s)(t := Holding (past @ [e]) rest), sysLog := sysLog s @ [(t, e)]\<rparr>"
  have "sysPc ?s t = Holding (past @ [e]) rest" by simp
  from Cons.IH [OF this] obtain s' where
    "sysSteps cfg ?s s'" "sysLock s' = None" "sysLog s' = sysLog ?s @ tagged t rest" by blast
  then show ?case using more [OF call [OF Cons.prems]] by (intro exI [of _ s']) (simp add: tagged_def)
qed

section \<open>Properties\<close>

text \<open>A cached poll and a force refresh never overlap: in every reachable state at most one of the
  goroutines is inside a cycle, and the calls made so far are whole cycles one after another,
  followed by the calls of the one cycle in progress, if any.\<close>

theorem cycles_serialised:
  assumes "sysReachable cfg s"
  shows "\<not> (isHolding (sysPc s PollLoop) \<and> isHolding (sysPc s ForceLoop))
    \<and> (\<exists>hist t past rest. sysLog s = serial hist @ tagged t past
        \<and> list_all (\<lambda>(t, es). cycleOf cfg t es) hist \<and> (past = [] \<or> cycleOf cfg t (past @ rest)))"
proof -
  have inv: "sysInv cfg s" by (rule sysInv_reachable [OF assms])
  then have "\<not> (isHolding (sysPc s PollLoop) \<and> isHolding (sysPc s ForceLoop))" by (auto simp: sysInv_def)
  moreover obtain hist where h: "explains cfg s hist" using inv by (auto simp: sysInv_def)
  then have hist: "list_all (\<lambda>(t, es). cycleOf cfg t es) hist" by (auto simp: explains_def list_all_iff)
  have "\<exists>t past rest. sysLog s = serial hist @ tagged t past \<and> (past = [] \<or> cycleOf cfg t (past @ rest))"
  proof (cases "sysLock s")
    case None
    with h have "sysLog s = serial hist @ tagged PollLoop []" by (simp add: explains_def)
    then show ?thesis by blast
  next
    case (Some t)
    with h show ?thesis by (auto simp: explains_def split: pc.splits)
  qed
  ultimately show ?thesis using hist by blast
qed

theorem cycles_serialised_witness: "\<exists>hist t past. sysLog sysInit = serial hist @ tagged t past"
  using cycles_serialised [OF sysReachable.start, of demoConfig] by blast

text \<open>The lock is never lost: from every reachable state there are steps to a state in which it is
  free, the cycle in progress having made its remaining calls, so no goroutine waits for ever
  because the other holds it.\<close>

theorem lock_released:
  assumes "sysReachable cfg s"
  shows "\<exists>s'. sysSteps cfg s s' \<and> sysLock s' = None"
proof (cases "sysLock s")
  case None
  then show ?thesis using sysSteps.none by blast
next
  case (Some t)
  then obtain past rest where "sysPc s t = Holding past rest"
    using sysInv_reachable [OF assms] by (cases "sysPc s t") (auto simp: sysInv_def explains_def)
  then show ?thesis using holder_finishes by blast
qed

theorem lock_released_witness: "\<exists>s'. sysSteps demoConfig sysInit s' \<and> sysLock s' = None"
  by (rule lock_released [OF sysReachable.start])

end
