(* ===== verification/Concurrent.thy ===== *)
theory Concurrent
  imports Lock
begin

text \<open>
  \<open>Scheduler.Run\<close> with its two goroutines as programs: a cycle is cut into the calls it makes, one
  step each, and the goroutines take turns at any step. \<open>Lock\<close> looks at the calls alone; here the
  world the calls act on is followed too, so that a run of the interleaved program can be compared
  with the cycles of \<open>Scheduler\<close> run one after another.
\<close>

section \<open>Cycles as programs\<close>

text \<open>A program is over, or makes a call and goes on with what depends on its result.\<close>

datatype 'w prog = Done | Step "'w \<Rightarrow> 'w \<times> 'w prog"

primrec runProg :: "'w prog \<Rightarrow> 'w \<Rightarrow> 'w" where
  "runProg Done = (\<lambda>w. w)"
| "runProg (Step f) = (\<lambda>w. case (map_prod id runProg \<circ> f) w of (w', r) \<Rightarrow> r w')"

lemma runProg_Step [simp]: "runProg (Step f) w = (case f w of (w', p) \<Rightarrow> runProg p w')"
  by (simp split: prod.split)

declare runProg.simps(2) [simp del]

text \<open>The loop of \<open>fetchWithRetry\<close>, handing its result to \<open>k\<close>.\<close>

function retryProg ::
  "'w sched_env \<Rightarrow> sched_config \<Rightarrow> bool \<Rightarrow> int \<Rightarrow> int \<Rightarrow> gerr option \<Rightarrow> (gerr + vehicle_state \<Rightarrow> 'w prog) \<Rightarrow> 'w prog" where
  "retryProg env cfg force attempt backoff lastErr k =
     (if sdMaxRetries cfg < attempt then k (zeroWith lastErr)
      else
        let backoff' = (if 0 < attempt then wrap64 (backoff * 2) else backoff);
            fetch = Step (\<lambda>w. case fetchOnce env cfg force w of
                (Inr st, w') \<Rightarrow> (w', k (Inr st))
              | (Inl err, w') \<Rightarrow> (w', case seCtxErr env w' of
                    Some ce \<Rightarrow> k (Inl ce)
                  | None \<Rightarrow> retryProg env cfg force (attempt + 1) backoff' (Some err) k))
        in if 0 < attempt
           then Step (\<lambda>w. case seAfter env backoff w of (done', w') \<Rightarrow>
                  (w', if done' then k (zeroWith (seCtxErr env w')) else fetch))
           else fetch)"
  by pat_completeness auto
termination
  by (relation "measure (\<lambda>(env, cfg, force, attempt, backoff, lastErr, k). nat (sdMaxRetries cfg + 1 - attempt))") auto

declare retryProg.simps [simp del]

text \<open>Publishing what was fetched and reporting the outcome.\<close>

definition finishProg :: "'w sched_env \<Rightarrow> gerr + vehicle_state \<Rightarrow> 'w prog" where
  "finishProg env r = (case r of
      Inl err \<Rightarrow> Step (\<lambda>w. (if seCtxErr env w \<noteq> None then w else seFailure env w, Done))
    | Inr st \<Rightarrow> Step (\<lambda>w. case sePublish env st w of
          (Inl err, w') \<Rightarrow> (w', Step (\<lambda>w. (seFailure env w, Done)))
        | (Inr u, w') \<Rightarrow> (w', Step (\<lambda>w. (seSuccess env w, Done)))))"

definition pollProg :: "'w sched_env \<Rightarrow> sched_config \<Rightarrow> 'w prog" where
  "pollProg env cfg = retryProg env cfg False 0 nsPerSec None (finishProg env)"

definition forceProg :: "'w sched_env \<Rightarrow> sched_config \<Rightarrow> 'w prog" where
  "forceProg env cfg =
     (let refresh = retryProg env cfg True 0 nsPerSec None (finishProg env) in
      if sdForceOnlyWhenPluggedIn cfg
      then Step (\<lambda>w. case seCached env (sdVehicle cfg) w of
             (Inl err, w') \<Rightarrow> (w', Done)
           | (Inr cached, w') \<Rightarrow> (w', if pluggedIn cached \<noteq> Some True then Done else refresh))
      else refresh)"

lemma runProg_retry:
  "runProg (retryProg env cfg force a b le k) w =
    (case retryLoop env cfg force a b le w of (r, w') \<Rightarrow> runProg (k r) w')"
proof (induction "nat (sdMaxRetries cfg + 1 - a)" arbitrary: a b le w rule: less_induct)
  case less
  show ?case
  proof (cases "sdMaxRetries cfg < a")
    case True
    then show ?thesis by (simp add: retryProg.simps retryLoop.simps)
  next
    case False
    then have IH: "runProg (retryProg env cfg force (a + 1) b' le' k) w' =
        (case retryLoop env cfg force (a + 1) b' le' w' of (r, w') \<Rightarrow> runProg (k r) w')" for b' le' w'
      by (intro less) simp
    from False show ?thesis
      by (subst retryProg.simps, subst retryLoop.simps) (auto simp: Let_def IH split: prod.split sum.split option.split)
  qed
qed

lemma runProg_finish: "runProg (finishProg env r) w = finish env (r, w)"
  by (simp add: finishProg_def finish_def split: sum.split prod.split)

lemma runProg_poll: "runProg (pollProg env cfg) w = poll env cfg w"
  by (simp add: pollProg_def poll_def fetchWithRetry_def runProg_retry runProg_finish split: prod.split)

lemma runProg_force: "runProg (forceProg env cfg) w = forceRefresh env cfg w"
  by (simp add: forceProg_def forceRefresh_def fetchWithRetry_def runProg_retry runProg_finish Let_def split: prod.split sum.split)

section \<open>The goroutines\<close>

datatype 'w gpc =
    Idle                    \<comment> \<open>in \<open>select\<close>, outside a cycle\<close>
  | Wanting                 \<comment> \<open>at \<open>apiMu.Lock()\<close>\<close>
  | Inside "'w prog"        \<comment> \<open>holding \<open>apiMu\<close>, with this left to do\<close>
  | Stopped                 \<comment> \<open>the loop has returned\<close>

record 'w run_state =
  rsLock :: "goroutine option"
  rsPc :: "goroutine \<Rightarrow> 'w gpc"
  rsWorld :: 'w

primrec cycleProg :: "'w sched_env \<Rightarrow> sched_config \<Rightarrow> goroutine \<Rightarrow> 'w prog" where
  "cycleProg env cfg PollLoop = pollProg env cfg"
| "cycleProg env cfg ForceLoop = forceProg env cfg"

text \<open>\<open>Run\<close> starts the poll loop, which polls at once, and the force loop if it is enabled.\<close>

definition runInit :: "sched_config \<Rightarrow> 'w \<Rightarrow> 'w run_state" where
  "runInit cfg w = \<lparr>rsLock = None,
     rsPc = (\<lambda>t. case t of PollLoop \<Rightarrow> Wanting | ForceLoop \<Rightarrow> if sdForceEnabled cfg then Idle else Stopped), rsWorld = w\<rparr>"

text \<open>
  The steps: the \<open>select\<close> of a loop takes its timer (the ticker, or the wait of the force loop) or the
  end of the context, the lock is taken, a call of the cycle is made, the lock is released. When a
  timer fires and when the context ends is left open: a \<open>select\<close> may take either at any moment.
\<close>

inductive runStep :: "'w sched_env \<Rightarrow> sched_config \<Rightarrow> 'w run_state \<Rightarrow> 'w run_state \<Rightarrow> bool" for env cfg where
  fires: "rsPc s t = Idle \<Longrightarrow> runStep env cfg s (s\<lparr>rsPc := (rsPc s)(t := Wanting)\<rparr>)"
| returns: "rsPc s t = Idle \<Longrightarrow> runStep env cfg s (s\<lparr>rsPc := (rsPc s)(t := Stopped)\<rparr>)"
| locks: "rsPc s t = Wanting \<Longrightarrow> rsLock s = None \<Longrightarrow>
    runStep env cfg s (s\<lparr>rsLock := Some t, rsPc := (rsPc s)(t := Inside (cycleProg env cfg t))\<rparr>)"
| calls: "rsPc s t = Inside (Step f) \<Longrightarrow> f (rsWorld s) = (w', p) \<Longrightarrow>
    runStep env cfg s (s\<lparr>rsPc := (rsPc s)(t := Inside p), rsWorld := w'\<rparr>)"
| unlocks: "rsPc s t = Inside Done \<Longrightarrow>
    runStep env cfg s (s\<lparr>rsLock := None, rsPc := (rsPc s)(t := Idle)\<rparr>)"

inductive runReach :: "'w sched_env \<Rightarrow> sched_config \<Rightarrow> 'w \<Rightarrow> 'w run_state \<Rightarrow> bool" for env cfg w0 where
  start: "runReach env cfg w0 (runInit cfg w0)"
| step: "runReach env cfg w0 s \<Longrightarrow> runStep env cfg s s' \<Longrightarrow> runReach env cfg w0 s'"

text \<open>The same cycles run one after another.\<close>

primrec cycle :: "'w sched_env \<Rightarrow> sched_config \<Rightarrow> goroutine \<Rightarrow> 'w \<Rightarrow> 'w" where
  "cycle env cfg PollLoop = poll env cfg"
| "cycle env cfg ForceLoop = forceRefresh env cfg"

definition runCycles :: "'w sched_env \<Rightarrow> sched_config \<Rightarrow> goroutine list \<Rightarrow> 'w \<Rightarrow> 'w" where
  "runCycles env cfg ts = fold (cycle env cfg) ts"

lemma runProg_cycle: "runProg (cycleProg env cfg t) w = cycle env cfg t w"
  by (cases t) (simp_all add: runProg_poll runProg_force)

lemma runCycles_snoc [simp]: "runCycles env cfg (ts @ [t]) w = cycle env cfg t (runCycles env cfg ts w)"
  "runCycles env cfg [] w = w"
  by (simp_all add: runCycles_def)

section \<open>The invariant\<close>

definition inside :: "'w gpc \<Rightarrow> bool" where
  "inside p \<longleftrightarrow> (case p of Inside _ \<Rightarrow> True | _ \<Rightarrow> False)"

lemma inside_simps [simp]: "inside (Inside p)" "\<not> inside Idle" "\<not> inside Wanting" "\<not> inside Stopped"
  by (simp_all add: inside_def)

text \<open>Only the holder of the lock is inside a cycle.\<close>

definition owned :: "'w run_state \<Rightarrow> bool" where
  "owned s \<longleftrightarrow> (\<forall>t. inside (rsPc s t) = (rsLock s = Some t))"

lemma owned_init: "owned (runInit cfg w)"
  by (simp add: owned_def runInit_def split: goroutine.split)

lemma owned_holder: "owned s \<Longrightarrow> rsPc s t = Inside p \<Longrightarrow> rsLock s = Some t"
  unfolding owned_def by (metis inside_simps(1))

lemma owned_world [simp]: "owned (s\<lparr>rsWorld := w\<rparr>) = owned s"
  by (simp add: owned_def)

lemma owned_step:
  assumes "runStep env cfg s s'" and owner: "owned s"
  shows "owned s'"
  using assms(1)
proof (cases rule: runStep.cases)
  case (calls t f w' p)
  with owned_holder [OF owner calls(2)] owner show ?thesis by (auto simp: owned_def)
next
  case (unlocks t)
  with owned_holder [OF owner unlocks(2)] owner show ?thesis by (auto simp: owned_def)
qed (use owner in \<open>force simp: owned_def\<close>)+

text \<open>
  The world is that of a serial history, or on the
  way from it: what the holder has left to do completes one more cycle.
\<close>

definition runInv :: "'w sched_env \<Rightarrow> sched_config \<Rightarrow> 'w \<Rightarrow> 'w run_state \<Rightarrow> bool" where
  "runInv env cfg w0 s \<longleftrightarrow> owned s \<and>
     (\<exists>ts. case rsLock s of
        None \<Rightarrow> rsWorld s = runCycles env cfg ts w0
      | Some t \<Rightarrow> \<exists>p. rsPc s t = Inside p \<and> runProg p (rsWorld s) = runCycles env cfg (ts @ [t]) w0)"

lemma runInv_init: "runInv env cfg w0 (runInit cfg w0)"
  using owned_init [of cfg w0] by (auto simp: runInv_def runInit_def intro: exI [of _ "[]"])

lemma runInv_step:
  assumes "runStep env cfg s s'" and inv: "runInv env cfg w0 s"
  shows "runInv env cfg w0 s'"
proof -
  have owner: "owned s" using inv by (simp add: runInv_def)
  have free: "rsLock s \<noteq> Some t" if "\<not> inside (rsPc s t)" for t using owner that by (simp add: owned_def)
  obtain ts where ts: "case rsLock s of
        None \<Rightarrow> rsWorld s = runCycles env cfg ts w0
      | Some t \<Rightarrow> \<exists>p. rsPc s t = Inside p \<and> runProg p (rsWorld s) = runCycles env cfg (ts @ [t]) w0"
    using inv by (auto simp: runInv_def)
  note own' = owned_step [OF assms(1) owner]
  from assms(1) show ?thesis
  proof (cases rule: runStep.cases)
    case (fires t)
    with free [of t] ts own' show ?thesis by (auto simp: runInv_def split: option.splits intro!: exI [of _ ts])
  next
    case (returns t)
    with free [of t] ts own' show ?thesis by (auto simp: runInv_def split: option.splits intro!: exI [of _ ts])
  next
    case (locks t)
    with ts own' show ?thesis by (auto simp: runInv_def runProg_cycle intro!: exI [of _ ts])
  next
    case (calls t f w' p)
    with owned_holder [OF owner calls(2)] ts own' show ?thesis by (auto simp: runInv_def intro!: exI [of _ ts])
  next
    case (unlocks t)
    with owned_holder [OF owner unlocks(2)] ts own' show ?thesis by (auto simp: runInv_def intro!: exI [of _ "ts @ [t]"])
  qed
qed

lemma runInv_reach: "runReach env cfg w0 s \<Longrightarrow> runInv env cfg w0 s"
  by (induction rule: runReach.induct) (rule runInv_init, rule runInv_step)

section \<open>A relation on the world that every call respects\<close>

inductive progRel :: "('w \<Rightarrow> 'w \<Rightarrow> bool) \<Rightarrow> 'w prog \<Rightarrow> bool" for R where
  over: "progRel R Done"
| call: "(\<And>w. R w (fst (f w))) \<Longrightarrow> (\<And>w. progRel R (snd (f w))) \<Longrightarrow> progRel R (Step f)"

inductive_cases progRelE: "progRel R (Step f)"

definition runRel :: "('w \<Rightarrow> 'w \<Rightarrow> bool) \<Rightarrow> 'w run_state \<Rightarrow> bool" where
  "runRel R s \<longleftrightarrow> (\<forall>t p. rsPc s t = Inside p \<longrightarrow> progRel R p)"

lemma runRel_init [simp]: "runRel R (runInit cfg w)"
  by (simp add: runRel_def runInit_def split: goroutine.split)

lemma runRel_world [simp]: "runRel R (s\<lparr>rsWorld := w\<rparr>) = runRel R s"
  by (simp add: runRel_def)

context env_rel_cycle
begin

lemma after_snd_R: "R w (snd (seAfter env d w))"
  by (cases "seAfter env d w") (simp add: after_R)

lemma retryProg_R: "(\<And>r. progRel R (k r)) \<Longrightarrow> progRel R (retryProg env cfg force i b le k)"
proof (induction "nat (sdMaxRetries cfg + 1 - i)" arbitrary: i b le rule: less_induct)
  case less
  show ?case
  proof (cases "sdMaxRetries cfg < i")
    case True
    with less.prems show ?thesis by (simp add: retryProg.simps)
  next
    case False
    then have IH: "progRel R (retryProg env cfg force (i + 1) b' le' k)" for b' le'
      using less.prems by (intro less.hyps) auto
    have fetch: "progRel R (Step (\<lambda>w. case fetchOnce env cfg force w of
        (Inr st, w') \<Rightarrow> (w', k (Inr st))
      | (Inl err, w') \<Rightarrow> (w', case seCtxErr env w' of
            Some ce \<Rightarrow> k (Inl ce) | None \<Rightarrow> retryProg env cfg force (i + 1) b' (Some err) k)))" for b'
      by (rule progRel.call)
         (auto split: prod.split sum.split option.split intro: fetchOnce_R less.prems IH)
    show ?thesis
      by (subst retryProg.simps)
         (use False fetch in \<open>auto simp: Let_def intro!: progRel.call less.prems intro: after_R split: prod.split\<close>)
  qed
qed

lemma finishProg_R: "progRel R (finishProg env r)"
  using publish_R success_R failure_R R_refl
  by (auto simp: finishProg_def split: sum.split prod.split intro!: progRel.intros)

lemma cycleProg_R: "progRel R (cycleProg env cfg t)"
proof -
  have retry: "progRel R (retryProg env cfg force 0 nsPerSec None (finishProg env))" for force
    by (rule retryProg_R) (rule finishProg_R)
  then show ?thesis
    by (cases t) (auto simp: pollProg_def forceProg_def Let_def split: sum.split prod.split
        intro!: progRel.intros intro: cached_R)
qed

lemma runStep_R:
  assumes "runStep env cfg s s'" and rel: "runRel R s"
  shows "runRel R s' \<and> R (rsWorld s) (rsWorld s')"
  using assms(1)
proof (cases rule: runStep.cases)
  case (locks t)
  then show ?thesis using rel R_refl cycleProg_R by (auto simp: runRel_def)
next
  case (calls t f w' p)
  then have "progRel R (Step f)" using rel by (auto simp: runRel_def)
  then have "R (rsWorld s) w' \<and> progRel R p" using calls(3) by (metis fst_conv progRelE snd_conv)
  then show ?thesis using calls rel by (auto simp: runRel_def)
qed (use rel R_refl in \<open>auto simp: runRel_def split: if_splits\<close>)

end

section \<open>Coming to rest\<close>

text \<open>Steps in which no \<open>select\<close> takes its timer.\<close>

definition quietStep :: "'w sched_env \<Rightarrow> sched_config \<Rightarrow> 'w run_state \<Rightarrow> 'w run_state \<Rightarrow> bool" where
  "quietStep env cfg s s' \<longleftrightarrow> runStep env cfg s s' \<and> (\<forall>t. \<not> (rsPc s t = Idle \<and> rsPc s' t = Wanting))"

inductive gStep :: "'w gpc \<Rightarrow> 'w gpc \<Rightarrow> bool" where
  "gStep Stopped Idle"
| "gStep (Inside p) Wanting"
| "f w = (w', p) \<Longrightarrow> gStep (Inside p) (Inside (Step f))"
| "gStep Idle (Inside Done)"

inductive_cases gStepE: "gStep q (Inside p)" "gStep q Wanting" "gStep q Idle" "gStep q Stopped"

lemma gStep_wf: "wfp (gStep :: 'a gpc \<Rightarrow> 'a gpc \<Rightarrow> bool)"
proof -
  have stopped: "Wellfounded.accp gStep (Stopped :: 'a gpc)" by (rule accp.accI) (auto elim: gStepE)
  have idle: "Wellfounded.accp gStep (Idle :: 'a gpc)" by (rule accp.accI) (auto elim: gStepE intro: stopped)
  have ins: "Wellfounded.accp gStep (Inside p)" for p :: "'a prog"
  proof (induction p)
    case Done
    show ?case by (rule accp.accI) (auto elim: gStepE intro: idle)
  next
    case (Step f)
    show ?case
    proof (rule accp.accI)
      fix q assume "gStep q (Inside (Step f))"
      then obtain w w' p where "f w = (w', p)" "q = Inside p" by (auto elim: gStepE)
      moreover from this have "(w', p) \<in> range f" by (metis rangeI)
      ultimately show "Wellfounded.accp gStep q" using Step [of "(w', p)" p] by simp
    qed
  qed
  have "Wellfounded.accp gStep (Wanting :: 'a gpc)" by (rule accp.accI) (auto elim: gStepE intro: ins)
  with stopped idle ins have "Wellfounded.accp gStep q" for q :: "'a gpc" by (cases q) auto
  then show ?thesis by (rule accp_wfpI [OF allI])
qed

lemma quiet_decreases:
  assumes "quietStep env cfg s s'"
  shows "gStep (rsPc s' PollLoop) (rsPc s PollLoop) \<and> rsPc s' ForceLoop = rsPc s ForceLoop
    \<or> rsPc s' PollLoop = rsPc s PollLoop \<and> gStep (rsPc s' ForceLoop) (rsPc s ForceLoop)"
proof -
  from assms have "runStep env cfg s s'" and quiet: "\<not> (rsPc s t = Idle \<and> rsPc s' t = Wanting)" for t
    by (auto simp: quietStep_def)
  then have "\<exists>t. gStep (rsPc s' t) (rsPc s t) \<and> (\<forall>t'. t' \<noteq> t \<longrightarrow> rsPc s' t' = rsPc s t')"
  proof (cases rule: runStep.cases)
    case (fires t)
    with quiet [of t] show ?thesis by simp
  next
    case (returns t)
    then show ?thesis by (intro exI [of _ t]) (auto intro: gStep.intros)
  next
    case (locks t)
    then show ?thesis by (intro exI [of _ t]) (auto intro: gStep.intros)
  next
    case (calls t f w' p)
    then show ?thesis by (intro exI [of _ t]) (auto intro: gStep.intros)
  next
    case (unlocks t)
    then show ?thesis by (intro exI [of _ t]) (auto intro: gStep.intros)
  qed
  then obtain t where "gStep (rsPc s' t) (rsPc s t)" "\<And>t'. t' \<noteq> t \<Longrightarrow> rsPc s' t' = rsPc s t'" by blast
  then show ?thesis by (cases t) auto
qed

lemma quietStep_wf:
  fixes env :: "'w sched_env"
  shows "wf {(s', s). quietStep env cfg s s'}"
proof -
  let ?g = "{(q, p). gStep q p} :: ('w gpc \<times> 'w gpc) set"
  let ?r = "?g <*lex*> ?g"
  have "wf ?r" using gStep_wf unfolding wfp_def by (intro wf_lex_prod)
  then have "wf (inv_image ?r (\<lambda>s. (rsPc s PollLoop, rsPc s ForceLoop)))" by (rule wf_inv_image)
  then show ?thesis by (rule wf_subset) (auto dest: quiet_decreases)
qed

text \<open>A goroutine that is inside a cycle, or wants the lock while nobody is, has a step.\<close>

lemma quiet_progress:
  assumes "owned s" and "rsPc s t \<noteq> Stopped"
  shows "\<exists>s'. quietStep env cfg s s'"
proof -
  have go: "\<exists>s'. quietStep env cfg s s'" if "rsPc s t = Inside p" for t p
  proof (cases p)
    case Done
    with that runStep.unlocks [of s t env cfg] show ?thesis by (auto simp: quietStep_def split: if_splits)
  next
    case (Step f)
    obtain w' q where "f (rsWorld s) = (w', q)" by (cases "f (rsWorld s)")
    with that Step runStep.calls [of s t f w' q env cfg] show ?thesis by (auto simp: quietStep_def split: if_splits)
  qed
  show ?thesis
  proof (cases "rsPc s t")
    case Idle
    with runStep.returns [of s t env cfg] show ?thesis by (auto simp: quietStep_def split: if_splits)
  next
    case Wanting
    show ?thesis
    proof (cases "rsLock s")
      case None
      with Wanting runStep.locks [of s t env cfg] show ?thesis by (auto simp: quietStep_def split: if_splits)
    next
      case (Some t')
      with assms(1) have "inside (rsPc s t')" by (simp add: owned_def)
      then obtain p where "rsPc s t' = Inside p" by (cases "rsPc s t'") auto
      then show ?thesis by (rule go)
    qed
  qed (use go assms(2) in auto)
qed

inductive quietSteps :: "'w sched_env \<Rightarrow> sched_config \<Rightarrow> 'w run_state \<Rightarrow> 'w run_state \<Rightarrow> bool" for env cfg where
  stay: "quietSteps env cfg s s"
| go: "quietStep env cfg s s' \<Longrightarrow> quietSteps env cfg s' s'' \<Longrightarrow> quietSteps env cfg s s''"

lemma quietSteps_reach: "quietSteps env cfg s s' \<Longrightarrow> runReach env cfg w0 s \<Longrightarrow> runReach env cfg w0 s'"
  by (induction rule: quietSteps.induct) (auto simp: quietStep_def intro: runReach.step)

lemma at_rest:
  assumes "owned s" and "\<nexists>s'. quietStep env cfg s s'"
  shows "rsPc s t = Stopped" and "rsLock s = None"
proof -
  show stop: "rsPc s t = Stopped" for t using quiet_progress [OF assms(1)] assms(2) by blast
  show "rsLock s = None" using assms(1) stop by (cases "rsLock s") (auto simp: owned_def)
qed

text \<open>An environment that adds up what was called: 1 for a read, 10 for a publish, 100 for a success.\<close>

definition tallyEnv :: "nat sched_env" where
  "tallyEnv = \<lparr>seCached = (\<lambda>v n. (Inr emptyState, n + 1)), seForce = (\<lambda>v n. (Inr emptyState, n + 1)),
     sePublish = (\<lambda>st n. (Inr (), n + 10)), seSuccess = (\<lambda>n. n + 100), seFailure = id, seCtxErr = (\<lambda>_. None),
     seNow = (\<lambda>n. (0, n)), seAfter = (\<lambda>d n. (False, n)), seTick = (\<lambda>d n. (False, n))\<rparr>"

text \<open>A state in the middle of the first poll, with the force loop waiting for the lock.\<close>

lemma tally_reach:
  "\<exists>s. runReach tallyEnv demoConfig 0 s \<and> rsLock s = Some PollLoop \<and> rsPc s ForceLoop = Wanting \<and> rsWorld s = 1"
proof -
  let ?f = "\<lambda>w. case fetchOnce tallyEnv demoConfig False w of
      (Inr st, w') \<Rightarrow> (w', finishProg tallyEnv (Inr st))
    | (Inl err, w') \<Rightarrow> (w', case seCtxErr tallyEnv w' of
          Some ce \<Rightarrow> finishProg tallyEnv (Inl ce)
        | None \<Rightarrow> retryProg tallyEnv demoConfig False (0 + 1) nsPerSec (Some err) (finishProg tallyEnv))"
  have poll: "cycleProg tallyEnv demoConfig PollLoop = Step ?f"
  proof -
    have "sdMaxRetries demoConfig = 3" by (simp add: demoConfig_def)
    then show ?thesis by (simp add: pollProg_def retryProg.simps [of _ _ _ 0])
  qed
  let ?s0 = "runInit demoConfig 0 :: nat run_state"
  let ?s1 = "?s0\<lparr>rsLock := Some PollLoop, rsPc := (rsPc ?s0)(PollLoop := Inside (Step ?f))\<rparr>"
  let ?s2 = "?s1\<lparr>rsPc := (rsPc ?s1)(ForceLoop := Wanting)\<rparr>"
  let ?s3 = "?s2\<lparr>rsPc := (rsPc ?s2)(PollLoop := Inside (finishProg tallyEnv (Inr emptyState))), rsWorld := 1\<rparr>"
  have "runStep tallyEnv demoConfig ?s0 ?s1"
    using runStep.locks [of ?s0 PollLoop tallyEnv demoConfig] unfolding poll by (simp add: runInit_def)
  moreover have "runStep tallyEnv demoConfig ?s1 ?s2"
    by (rule runStep.fires) (simp add: runInit_def demoConfig_def)
  moreover have "runStep tallyEnv demoConfig ?s2 ?s3"
    by (rule runStep.calls [where f = ?f]) (simp_all add: runInit_def fetchOnce_def tallyEnv_def)
  ultimately have "runReach tallyEnv demoConfig 0 ?s3" by (meson runReach.intros)
  then show ?thesis by (intro exI [of _ ?s3]) simp
qed

section \<open>Properties\<close>

text \<open>C6: The lock makes the interleaving invisible: whatever the order in which the steps of the two goroutines
  come, in every state they can reach in which the lock is free the world is the one that whole polls and
  refreshes, run one after another in some order, lead to; while the lock is held, what its holder has
  left to do leads to such a world, and the other goroutine is not in a cycle.\<close>

theorem run_serialisable:
  assumes "runReach env cfg w0 s"
  shows "\<exists>ts. (case rsLock s of
      None \<Rightarrow> (\<nexists>t. inside (rsPc s t)) \<and> rsWorld s = runCycles env cfg ts w0
    | Some t \<Rightarrow> (\<exists>p. rsPc s t = Inside p \<and> runProg p (rsWorld s) = runCycles env cfg (ts @ [t]) w0)
        \<and> (\<nexists>t'. t' \<noteq> t \<and> inside (rsPc s t')))"
  using runInv_reach [OF assms] unfolding runInv_def owned_def by (auto split: option.splits)

theorem run_serialisable_witness:
  "\<exists>s ts p. runReach tallyEnv demoConfig 0 s \<and> rsLock s = Some PollLoop \<and> rsPc s ForceLoop = Wanting \<and> rsWorld s = 1
    \<and> rsPc s PollLoop = Inside p \<and> runProg p 1 = runCycles tallyEnv demoConfig (ts @ [PollLoop]) 0"
proof -
  obtain s where s: "runReach tallyEnv demoConfig 0 s" "rsLock s = Some PollLoop" "rsPc s ForceLoop = Wanting"
      "rsWorld s = 1" using tally_reach by blast
  from run_serialisable [OF s(1)] s show ?thesis by auto
qed

text \<open>\<open>Run\<close> returns: from every state the two goroutines can reach, every sequence of steps in which each
  \<open>select\<close> takes the end of the context is finite; where such a sequence cannot go on both loops have
  returned, the lock is free, and the world is that of whole cycles run one after another. In
  particular the goroutines never deadlock on the lock.\<close>

theorem run_returns:
  assumes "runReach env cfg w0 s"
  shows "\<not> (\<exists>f. f 0 = s \<and> (\<forall>i. quietStep env cfg (f i) (f (Suc i))))
    \<and> (\<forall>s'. quietSteps env cfg s s' \<and> (\<nexists>s''. quietStep env cfg s' s'') \<longrightarrow>
          (\<forall>t. rsPc s' t = Stopped) \<and> rsLock s' = None \<and> (\<exists>ts. rsWorld s' = runCycles env cfg ts w0))"
proof (intro conjI allI impI)
  show "\<not> (\<exists>f. f 0 = s \<and> (\<forall>i. quietStep env cfg (f i) (f (Suc i))))"
    using quietStep_wf [of env cfg] by (auto simp: wf_iff_no_infinite_down_chain)
next
  fix s' assume run: "quietSteps env cfg s s' \<and> (\<nexists>s''. quietStep env cfg s' s'')"
  have inv: "runInv env cfg w0 s'"
    by (rule runInv_reach [OF quietSteps_reach [OF conjunct1 [OF run] assms]])
  have "owned s'" using inv by (simp add: runInv_def)
  note rest = at_rest [OF this conjunct2 [OF run]]
  show "rsPc s' t = Stopped" for t by (rule rest)
  show "rsLock s' = None" by (rule rest)
  with inv show "\<exists>ts. rsWorld s' = runCycles env cfg ts w0" by (auto simp: runInv_def)
qed

theorem run_returns_witness:
  "\<not> (\<exists>f. f 0 = runInit demoConfig () \<and> (\<forall>i. quietStep quietEnv demoConfig (f i) (f (Suc i))))"
  using run_returns [OF runReach.start [where env = quietEnv and cfg = demoConfig and ?w0.0 = "()"]] by blast

end
