(* ===== verification/WakeBudget.thy ===== *)
theory WakeBudget
  imports Loops Concurrent
begin

text \<open>
  How often the car is woken (\<open>internal/scheduler/scheduler.go\<close> over \<open>internal/bluelink/status.go\<close>): a
  cost that only forced reads pay, along cycles, along the loops and along any order of cycles; and,
  with the schedule of the daily refresh, a bound by the days that pass.
\<close>

section \<open>A cost that forced reads pay\<close>

locale env_cost =
  fixes env :: "'w sched_env" and cost :: "'w \<Rightarrow> nat" and price :: nat
  assumes cached_cost: "seCached env v w = (r, w') \<Longrightarrow> cost w' \<le> cost w"
    and force_cost: "seForce env v w = (r, w') \<Longrightarrow> cost w' \<le> cost w + price"
    and publish_cost: "sePublish env st w = (u, w') \<Longrightarrow> cost w' \<le> cost w"
    and success_cost: "cost (seSuccess env w) \<le> cost w" and failure_cost: "cost (seFailure env w) \<le> cost w"
    and now_cost: "seNow env w = (now, w') \<Longrightarrow> cost w' \<le> cost w"
    and after_cost: "seAfter env d w = (b, w') \<Longrightarrow> cost w' \<le> cost w"
    and tick_cost: "seTick env d w = (b, w') \<Longrightarrow> cost w' \<le> cost w"
begin

definition fetchPrice :: "bool \<Rightarrow> nat" where
  "fetchPrice force = (if force then price else 0)"

lemma fetchOnce_cost: "fetchOnce env cfg force w = (r, w') \<Longrightarrow> cost w' \<le> cost w + fetchPrice force"
  using cached_cost force_cost by (auto simp: fetchOnce_def fetchPrice_def split: if_splits)

lemma wait_cost: "(if 0 < i then seAfter env b w else (False, w)) = (c, w') \<Longrightarrow> cost w' \<le> cost w"
  using after_cost by (auto split: if_splits)

lemma retryLoop_cost:
  "retryLoop env cfg force i b le w = (x, w') \<Longrightarrow> cost w' \<le> cost w + fetchPrice force * nat (sdMaxRetries cfg + 1 - i)"
proof (induction "nat (sdMaxRetries cfg + 1 - i)" arbitrary: i b le w rule: less_induct)
  case less
  obtain c w1 where w1: "(if 0 < i then seAfter env b w else (False, w)) = (c, w1)"
    by (cases "if 0 < i then seAfter env b w else (False, w)")
  obtain r w2 where w2: "fetchOnce env cfg force w1 = (r, w2)" by (cases "fetchOnce env cfg force w1")
  note step = wait_cost [OF w1] fetchOnce_cost [OF w2]
  show ?case
  proof (cases "sdMaxRetries cfg < i")
    case True
    with less.prems show ?thesis by (simp add: retryLoop.simps [of env cfg force i])
  next
    case False
    then have n: "nat (sdMaxRetries cfg + 1 - i) = Suc (nat (sdMaxRetries cfg + 1 - (i + 1)))" by simp
    have loop: "cost w' \<le> cost w + fetchPrice force * nat (sdMaxRetries cfg + 1 - i)"
      if "retryLoop env cfg force (i + 1) (if 0 < i then wrap64 (b * 2) else b) le' w2 = (x, w')" for le'
      using less.hyps [OF _ that] False step unfolding n by simp
    show ?thesis
      using less.prems [unfolded retryLoop.simps [of env cfg force i b le w]] False w1 w2 step loop
      unfolding n by (auto simp: Let_def split: if_split_asm sum.split_asm option.split_asm)
  qed
qed

lemma report_cost: "cost w1 \<le> cost w \<Longrightarrow> cost (seSuccess env w1) \<le> cost w \<and> cost (seFailure env w1) \<le> cost w"
  using le_trans [OF success_cost] le_trans [OF failure_cost] by blast

lemma finish_cost: "cost (finish env (r, w)) \<le> cost w"
  by (auto simp: finish_def report_cost report_cost [OF publish_cost] split: sum.split prod.split)

lemma fetch_cost: "cost (finish env (fetchWithRetry env cfg force w)) \<le> cost w + fetchPrice force * nat (sdMaxRetries cfg + 1)"
proof -
  obtain x w' where run: "fetchWithRetry env cfg force w = (x, w')" by (cases "fetchWithRetry env cfg force w")
  from retryLoop_cost [OF run [unfolded fetchWithRetry_def]] finish_cost [of x w'] show ?thesis
    unfolding run by simp
qed

lemma poll_cost: "cost (poll env cfg w) \<le> cost w"
  using fetch_cost [of cfg False w] by (simp add: poll_def fetchPrice_def)

lemma forceRefresh_cost: "cost (forceRefresh env cfg w) \<le> cost w + price * nat (sdMaxRetries cfg + 1)"
proof -
  have refresh: "cost (finish env (fetchWithRetry env cfg True w')) \<le> cost w + price * nat (sdMaxRetries cfg + 1)"
    if "cost w' \<le> cost w" for w'
    using fetch_cost [of cfg True w'] that by (simp add: fetchPrice_def)
  obtain r w1 where c: "seCached env (sdVehicle cfg) w = (r, w1)" by (cases "seCached env (sdVehicle cfg) w")
  from cached_cost [OF c] refresh [of w1] refresh [of w] show ?thesis
    by (simp add: forceRefresh_def c split: sum.split)
qed

lemma pollTicks_cost: "cost (snd (pollTicks n env cfg w)) \<le> cost w"
proof (induction n arbitrary: w)
  case (Suc n)
  obtain b w1 where t: "seTick env (sdPollInterval cfg) w = (b, w1)" by (cases "seTick env (sdPollInterval cfg) w")
  have "cost (snd (pollTicks n env cfg (poll env cfg w1))) \<le> cost w1" by (rule le_trans [OF Suc.IH poll_cost])
  with tick_cost [OF t] show ?case by (simp add: t)
qed simp

lemma pollLoop_cost: "cost (snd (pollLoop n env cfg w)) \<le> cost w"
  unfolding pollLoop_def by (rule le_trans [OF pollTicks_cost poll_cost])

text \<open>Cycles in any order.\<close>

lemma runCycles_cost: "cost (runCycles env cfg ts w) \<le> cost w + price * nat (sdMaxRetries cfg + 1) * count_list ts ForceLoop"
proof (induction ts rule: rev_induct)
  case (snoc t ts)
  have "cost (cycle env cfg t x) \<le> cost x + (if t = ForceLoop then price * nat (sdMaxRetries cfg + 1) else 0)" for x
    using poll_cost [of cfg x] forceRefresh_cost [of cfg x] by (cases t) simp_all
  from this [of "runCycles env cfg ts w"] snoc.IH show ?case by (auto simp: distrib_left)
qed simp

end

section \<open>The days of the refresh\<close>

text \<open>The local day the next refresh belongs to.\<close>

definition nextDay :: "sched_config \<Rightarrow> int \<Rightarrow> int" where
  "nextDay cfg now = (let day = localDay (forceLoc cfg) (now div nsPerSec) in
     if now < candidate cfg day * nsPerSec then day else day + 1)"

lemma untilNextForce_day: "now + untilNextForce cfg now = candidate cfg (nextDay cfg now) * nsPerSec"
  by (simp add: untilNextForce_eq nextDay_def Let_def)

text \<open>Zones and times of day for which the refresh is always ahead.\<close>

definition steady :: "int \<Rightarrow> int \<Rightarrow> sched_config \<Rightarrow> bool" where
  "steady lo hi cfg \<longleftrightarrow> offsetsIn lo hi (forceLoc cfg) \<and> validTime cfg \<and> hi - lo \<le> timeOfDay cfg"

lemma candidate_range:
  assumes "steady lo hi cfg"
  shows "k * 86400 + timeOfDay cfg - hi \<le> candidate cfg k" "candidate cfg k \<le> k * 86400 + timeOfDay cfg - lo"
  using assms offsetsIn_wall [of lo hi "forceLoc cfg"] by (simp_all add: candidate_def steady_def)

lemma candidate_mono:
  assumes "steady lo hi cfg" and "j \<le> k"
  shows "candidate cfg j \<le> candidate cfg k"
proof (cases "j = k")
  case False
  then have "j * 86400 + 86400 \<le> k * 86400" using assms(2) by linarith
  moreover have "timeOfDay cfg < 86400" using assms(1) timeOfDay_range by (auto simp: steady_def)
  moreover have "hi - lo \<le> timeOfDay cfg" using assms(1) by (simp add: steady_def)
  ultimately show ?thesis
    using candidate_range(2) [OF assms(1), of j] candidate_range(1) [OF assms(1), of k] by linarith
qed simp

lemma nextDay_ahead:
  assumes "steady lo hi cfg"
  shows "now < candidate cfg (nextDay cfg now) * nsPerSec"
proof -
  have "0 < untilNextForce cfg now" using assms untilNextForce_range by (auto simp: steady_def)
  with untilNextForce_day [of now cfg] show ?thesis by linarith
qed

text \<open>Once the refresh of a day has fired, the next one belongs to a later day.\<close>

lemma nextDay_later:
  assumes "steady lo hi cfg" and "candidate cfg day * nsPerSec \<le> now"
  shows "day < nextDay cfg now"
proof (rule ccontr)
  assume "\<not> day < nextDay cfg now"
  then have "candidate cfg (nextDay cfg now) \<le> candidate cfg day" using candidate_mono [OF assms(1)] by simp
  then have "candidate cfg (nextDay cfg now) * nsPerSec \<le> candidate cfg day * nsPerSec" by simp
  with nextDay_ahead [OF assms(1), of now] assms(2) show False by linarith
qed

section \<open>The service\<close>

interpretation svc_wakes: env_cost "serviceEnv a (tnet n) cc pub ha rt" "\<lambda>s. countOf wakes (syClient s)" 2
proof
  note env = serviceEnv_def onClient_def onClock_def onServer_def onBroker_def recordingPublishState_def
  let ?env = "serviceEnv a (tnet n) cc pub ha rt"
  have quiet: "countOf wakes (snd (cachedStatus a (tnet n) cc v c)) \<le> countOf wakes c" for v c
    using emits_costs [OF cached_quiet [of a n cc v]] by (simp add: costs_def)
  have paid: "countOf wakes (snd (forceStatus a (tnet n) cc v c)) \<le> countOf wakes c + 2" for v c
    using forced_wakes [of a n cc v] by (simp add: costs_def)
  show "seCached ?env v w = (r, w') \<Longrightarrow> countOf wakes (syClient w') \<le> countOf wakes (syClient w)" for v w r w'
    using quiet [of v "syClient w"] by (auto simp: env split: prod.splits)
  show "seForce ?env v w = (r, w') \<Longrightarrow> countOf wakes (syClient w') \<le> countOf wakes (syClient w) + 2" for v w r w'
    using paid [of v "syClient w"] by (auto simp: env split: prod.splits)
qed (auto simp: serviceEnv_def onClock_def onServer_def onBroker_def recordingPublishState_def split: prod.splits sum.splits)

lemma forceLoop_wakes:
  fixes a n cc pub ha stop
  defines "env \<equiv> serviceEnv a (tnet n) cc pub ha (contextRuntime (Some stop))"
  assumes "steady lo hi cfg" and "stop \<le> candidate cfg E * nsPerSec"
  shows "countOf wakes (syClient (snd (forceLoop k env cfg s)))
    \<le> countOf wakes (syClient s) + 2 * nat (sdMaxRetries cfg + 1) * nat (E - nextDay cfg (syClock s))"
proof (induction k arbitrary: s)
  case (Suc k)
  define day where "day = nextDay cfg (syClock s)"
  obtain b s1 where s1: "seAfter env (untilNextForce cfg (syClock s)) s = (b, s1)"
    by (cases "seAfter env (untilNextForce cfg (syClock s)) s")
  have now: "seNow env s = (syClock s, s)"
    using service_select(3) [of a "tnet n" cc pub ha stop s] by (cases "seNow env s") (auto simp: env_def)
  have wait: "countOf wakes (syClient s1) \<le> countOf wakes (syClient s)"
    using svc_wakes.after_cost [OF s1 [unfolded env_def]] .
  show ?case
  proof (cases b)
    case True
    with s1 now wait show ?thesis by simp
  next
    case False
    let ?s2 = "forceRefresh env cfg s1"
    have "0 < untilNextForce cfg (syClock s)" using assms(2) untilNextForce_range by (auto simp: steady_def)
    then have s1c: "syClock s1 = candidate cfg day * nsPerSec" and "syClock s1 < stop"
      using service_select(2) [OF s1 [unfolded env_def]] False untilNextForce_day [of "syClock s" cfg]
      by (simp_all add: day_def)
    with assms(3) have "candidate cfg day * nsPerSec < candidate cfg E * nsPerSec" by linarith
    then have "candidate cfg day < candidate cfg E" by simp
    then have "day < E" using candidate_mono [OF assms(2), of E day] by linarith
    moreover have "syClock s1 \<le> syClock ?s2"
      unfolding env_def by (rule svc_clock.forceRefresh_R)
    then have "day < nextDay cfg (syClock ?s2)" using s1c by (intro nextDay_later [OF assms(2)]) simp
    ultimately have days: "Suc (nat (E - nextDay cfg (syClock ?s2))) \<le> nat (E - day)" by linarith
    have "countOf wakes (syClient ?s2) \<le> countOf wakes (syClient s1) + 2 * nat (sdMaxRetries cfg + 1)"
      unfolding env_def by (rule svc_wakes.forceRefresh_cost)
    with Suc.IH [of ?s2] wait mult_le_mono2 [OF days, of "2 * nat (sdMaxRetries cfg + 1)"] s1 now False
    show ?thesis by (simp add: day_def)
  qed
qed simp

lemma days_between:
  fixes stop
  assumes "steady lo hi cfg"
  defines "E \<equiv> (stop div nsPerSec - timeOfDay cfg + hi) div 86400 + 1"
  shows "stop \<le> candidate cfg E * nsPerSec" and "E - nextDay cfg now \<le> (stop div nsPerSec - now div nsPerSec) div 86400 + 2"
proof -
  have "stop div nsPerSec + 1 \<le> E * 86400 + timeOfDay cfg - hi" unfolding E_def by simp
  then have "stop div nsPerSec + 1 \<le> candidate cfg E" using candidate_range(1) [OF assms(1), of E] by linarith
  then have "(stop div nsPerSec + 1) * nsPerSec \<le> candidate cfg E * nsPerSec" by simp
  moreover have "stop < (stop div nsPerSec + 1) * nsPerSec" by (simp add: distrib_right)
  ultimately show "stop \<le> candidate cfg E * nsPerSec" by linarith
  have "now div nsPerSec + 1 \<le> candidate cfg (nextDay cfg now)" using nextDay_ahead [OF assms(1), of now] by linarith
  then have "now div nsPerSec + 1 \<le> nextDay cfg now * 86400 + timeOfDay cfg - lo"
    using candidate_range(2) [OF assms(1), of "nextDay cfg now"] by linarith
  moreover have "(E - 1) * 86400 \<le> stop div nsPerSec - timeOfDay cfg + hi" unfolding E_def by simp
  moreover have "hi - lo \<le> timeOfDay cfg" "timeOfDay cfg < 86400"
    using assms(1) timeOfDay_range by (auto simp: steady_def)
  ultimately have "(E - nextDay cfg now - 2) * 86400 \<le> stop div nsPerSec - now div nsPerSec" by (simp add: algebra_simps)
  then show "E - nextDay cfg now \<le> (stop div nsPerSec - now div nsPerSec) div 86400 + 2"
    using zdiv_mono1 [of "(E - nextDay cfg now - 2) * 86400" "stop div nsPerSec - now div nsPerSec" 86400] by simp
qed

section \<open>Properties\<close>

text \<open>C10: How often the service wakes the car: the poll loop never does, and the force loop, up to the
  instant \<open>stop\<close> at which the context is cancelled, sends at most two waking requests for each of the
  configured attempts on each day that begins (one day more than the whole days, plus the one in
  progress), whatever the service, the broker and the car answer, provided the time of day of the
  refresh is at least the spread of the zone's offsets (without that see the gap in \<open>Schedule\<close>).\<close>

theorem wake_budget:
  fixes a n cc pub ha stop
  defines "env \<equiv> serviceEnv a (tnet n) cc pub ha (contextRuntime (Some stop))"
  assumes "offsetsIn lo hi (forceLoc cfg)" and "validTime cfg" and "hi - lo \<le> timeOfDay cfg"
  shows "countOf wakes (syClient (snd (pollLoop j env cfg s))) \<le> countOf wakes (syClient s)
    \<and> countOf wakes (syClient (snd (forceLoop k env cfg s))) \<le> countOf wakes (syClient s)
        + 2 * nat (sdMaxRetries cfg + 1) * nat ((stop div nsPerSec - syClock s div nsPerSec) div 86400 + 2)"
proof
  show "countOf wakes (syClient (snd (pollLoop j env cfg s))) \<le> countOf wakes (syClient s)"
    unfolding env_def by (rule svc_wakes.pollLoop_cost)
  have steady: "steady lo hi cfg" using assms(2-4) by (simp add: steady_def)
  note force = forceLoop_wakes [OF steady days_between(1) [OF steady], where k = k and a = a and n = n and cc = cc
    and pub = pub and ha = ha and stop = stop and s = s, folded env_def]
  show "countOf wakes (syClient (snd (forceLoop k env cfg s))) \<le> countOf wakes (syClient s)
      + 2 * nat (sdMaxRetries cfg + 1) * nat ((stop div nsPerSec - syClock s div nsPerSec) div 86400 + 2)"
    by (rule le_trans [OF force]) (intro add_left_mono mult_le_mono2 nat_mono days_between(2) [OF steady])
qed

theorem wake_budget_witness:
  "countOf wakes (syClient (snd (forceLoop 10 (serviceEnv AMD64 (tnet demoNet) demoClient (\<lambda>t p r l. (Inr (), l))
      (haConfigOf (loadConfig demoParsers demoEnvironment) demoVehicle) (contextRuntime (Some (172800 * nsPerSec)))) demoConfig
      \<lparr>syClient = \<lparr>clTokens = tokens0, clWorld = ((), [])\<rparr>, syServer = syServer demoService, syBroker = [], syClock = 0\<rparr>)))
    \<le> 2 * nat (sdMaxRetries demoConfig + 1) * 4"
proof -
  have "offsetsIn 0 0 (forceLoc demoConfig)" "validTime demoConfig" "0 - 0 \<le> timeOfDay demoConfig"
    by (simp_all add: offsetsIn_def inRange_def forceLoc_def demoConfig_def utcLoc_def validTime_def timeOfDay_def)
  from conjunct2 [OF wake_budget [OF this, where stop = "172800 * nsPerSec" and a = AMD64 and n = demoNet and cc = demoClient
    and pub = "\<lambda>t p r l. (Inr (), l)" and k = 10
    and s = "\<lparr>syClient = \<lparr>clTokens = tokens0, clWorld = ((), [])\<rparr>, syServer = syServer demoService, syBroker = [], syClock = 0\<rparr>"
    and ha = "haConfigOf (loadConfig demoParsers demoEnvironment) demoVehicle"]]
  show ?thesis by (simp add: countOf_def logOf_def del: forceLoop.simps)
qed

end
