(* ===== verification/Mock.thy ===== *)
theory Mock
  imports Status
begin

text \<open>
  \<open>internal/mock\<close>: the stand-in for the Bluelink service, its state, its handlers and its routes,
  and the client's transport pointed at it (\<open>mockNet\<close>). A request's URL is the base the mock listens
  on followed by the path; path segments are taken as written (no percent-encoding). Random bytes
  come from \<open>ent\<close>, the bytes of the n-th read; the RSA key is given.
\<close>

section \<open>State\<close>

record mock_options =
  moVIN :: string
  moVehicleID :: string
  moModel :: string
  moNickname :: string
  moBatteryPercent :: f64
  moRangeKM :: f64
  moChargeRemainMin :: int
  moPluggedIn :: bool
  moCCS2 :: bool
  moLatitude :: f64
  moLongitude :: f64
  moAccessTokenTTL :: int

definition mockDefaults :: mock_options where
  "mockDefaults = \<lparr>moVIN = ''REDACTEDVIN000001'', moVehicleID = ''TEST-VEHICLE-ID-0001'', moModel = ''INSTER'',
     moNickname = ''Inster'', moBatteryPercent = Fin 62, moRangeKM = Fin 268, moChargeRemainMin = 145,
     moPluggedIn = True, moCCS2 = True, moLatitude = fl (51507351 / 1000000), moLongitude = fl (- 127758 / 1000000),
     moAccessTokenTTL = 24 * 3600 * nsPerSec\<rparr>"

record mock =
  mkOpts :: mock_options
  mkKey :: rsa_key
  mkGrants :: "string list"
  mkRegisterHits :: nat
  mkCachedHits :: nat
  mkForceHits :: nat
  mkFailStatus :: bool
  mkReads :: nat   \<comment> \<open>random reads so far\<close>

definition newMock :: "gerr + rsa_key \<Rightarrow> mock_options \<Rightarrow> gerr + mock" where
  "newMock generated opts =
     (case generated of Inl e \<Rightarrow> Inl e
      | Inr key \<Rightarrow> Inr \<lparr>mkOpts = opts, mkKey = key, mkGrants = [], mkRegisterHits = 0, mkCachedHits = 0,
          mkForceHits = 0, mkFailStatus = False, mkReads = 0\<rparr>)"

definition setFailStatus :: "bool \<Rightarrow> mock \<Rightarrow> mock" where
  "setFailStatus f s = s\<lparr>mkFailStatus := f\<rparr>"

definition setOptions :: "mock_options \<Rightarrow> mock \<Rightarrow> mock" where
  "setOptions o' s = s\<lparr>mkOpts := o'\<rparr>"

definition mockCounts :: "mock \<Rightarrow> nat \<times> nat \<times> nat \<times> string list" where
  "mockCounts s = (mkCachedHits s, mkForceHits s, mkRegisterHits s, mkGrants s)"

section \<open>Documents\<close>

definition obj1 :: "string \<Rightarrow> json \<Rightarrow> json" where
  "obj1 k v = JObj [(k, v)]"

definition flag01 :: "bool \<Rightarrow> int" where
  "flag01 b = (if b then 1 else 0)"

definition coordDoc :: "mock_options \<Rightarrow> json" where
  "coordDoc o' = JObj [(''lat'', JNum (moLatitude o')), (''lon'', JNum (moLongitude o')), (''alt'', JInt 0)]"

text \<open>The status a car would report: the battery a forced read shows is one higher.\<close>

definition mockBattery :: "mock_options \<Rightarrow> bool \<Rightarrow> f64" where
  "mockBattery o' forced = (if forced then f64_add (moBatteryPercent o') (Fin 1) else moBatteryPercent o')"

definition ccs1StatusDoc :: "mock_options \<Rightarrow> bool \<Rightarrow> json" where
  "ccs1StatusDoc o' forced =
     JObj [(''doorLock'', JBool True),
       (''evStatus'', JObj [(''batteryCharge'', JBool (moChargeRemainMin o' > 0)),
         (''batteryStatus'', JNum (mockBattery o' forced)), (''batteryPlugin'', JInt (flag01 (moPluggedIn o'))),
         (''remainTime2'', JObj [(''atc'', JObj [(''value'', JInt (moChargeRemainMin o')), (''unit'', JInt 1)]),
           (''etc3'', JObj [(''value'', JInt 42), (''unit'', JInt 1)])]),
         (''drvDistance'', JArr [JObj [(''rangeByFuel'', obj1 ''totalAvailableRange''
             (JObj [(''value'', JNum (moRangeKM o')), (''unit'', JInt 1)])), (''type'', JInt 2)]]),
         (''reservChargeInfos'', obj1 ''targetSOClist'' (JArr [
             JObj [(''targetSOClevel'', JInt 100), (''plugType'', JInt 0)],
             JObj [(''targetSOClevel'', JInt 80), (''plugType'', JInt 1)]]))]),
       (''tirePressureLamp'', obj1 ''tirePressureLampAll'' (JInt 0)), (''battery'', obj1 ''batSoc'' (JInt 87)),
       (''time'', JStr (if forced then ''20260710050000'' else ''20260710063000''))]"

definition carStatusCCS1 :: "mock_options \<Rightarrow> bool \<Rightarrow> json" where
  "carStatusCCS1 o' forced =
     (if forced then JObj [(''retCode'', JStr ''S''), (''resMsg'', ccs1StatusDoc o' True)]
      else JObj [(''retCode'', JStr ''S''), (''resMsg'', obj1 ''vehicleStatusInfo'' (JObj [
        (''vehicleLocation'', JObj [(''coord'', coordDoc o'), (''time'', JStr ''20260710063000'')]),
        (''vehicleStatus'', ccs1StatusDoc o' False),
        (''odometer'', JObj [(''value'', JNum (Fin (42135 / 10))), (''unit'', JInt 1)])]))])"

definition vehicleDoc :: "mock_options \<Rightarrow> bool \<Rightarrow> json" where
  "vehicleDoc o' forced = (let connector = JInt (flag01 (moPluggedIn o')) in JObj
     [(''Date'', JStr (if forced then ''2026-07-10T05:00:00Z'' else ''2026-07-10T06:30:00Z'')),
      (''Drivetrain'', JObj [(''Odometer'', JNum (Fin (42135 / 10))),
        (''FuelSystem'', obj1 ''DTE'' (JObj [(''Total'', JNum (moRangeKM o')), (''Unit'', JInt 1)]))]),
      (''Electronics'', obj1 ''Battery'' (JObj [(''Level'', JInt 87), (''SensorReliability'', JInt 0)])),
      (''Green'', JObj [
        (''BatteryManagement'', JObj [(''BatteryRemain'', obj1 ''Ratio'' (JNum (mockBattery o' forced))),
          (''SoH'', obj1 ''Ratio'' (JNum (Fin 99)))]),
        (''ChargingInformation'', JObj [(''Charging'', obj1 ''RemainTime'' (JInt (moChargeRemainMin o'))),
          (''EstimatedTime'', JObj [(''Quick'', JInt 42), (''Standard'', JInt 320), (''ICCB'', JInt 600)]),
          (''ConnectorFastening'', obj1 ''State'' connector),
          (''TargetSoC'', JObj [(''Standard'', JInt 80), (''Quick'', JInt 100)])]),
        (''ChargingDoor'', obj1 ''State'' connector),
        (''Electric'', obj1 ''SmartGrid'' (obj1 ''RealTimePower'' (JNum (fl (72 / 10)))))]),
      (''Cabin'', JObj [
        (''HVAC'', JObj [(''OutsideTemperature'', JObj [(''Value'', JNum (Fin (185 / 10))), (''Unit'', JInt 0)]),
          (''Row1'', obj1 ''Driver'' (obj1 ''Temperature'' (JObj [(''Value'', JNum (Fin 21)), (''Unit'', JInt 0)])))]),
        (''Door'', JObj [
          (''Row1'', JObj [(''Driver'', obj1 ''Lock'' (JInt 0)), (''Passenger'', obj1 ''Lock'' (JInt 0))]),
          (''Row2'', JObj [(''Left'', obj1 ''Lock'' (JInt 0)), (''Right'', obj1 ''Lock'' (JInt 0))])])]),
      (''Chassis'', obj1 ''Axle'' (obj1 ''Tire'' (obj1 ''PressureLow'' (JInt 0))))])"

definition carStatus :: "mock_options \<Rightarrow> bool \<Rightarrow> json" where
  "carStatus o' forced =
     JObj [(''retCode'', JStr ''S''), (''resMsg'', obj1 ''state'' (obj1 ''Vehicle'' (vehicleDoc o' forced)))]"

section \<open>Handlers\<close>

text \<open>\<open>writeJSON\<close>: a document that cannot be encoded leaves the body empty.\<close>

definition writeJSON :: "int \<Rightarrow> json \<Rightarrow> response" where
  "writeJSON status v =
     \<lparr>rsStatus = status, rsLocation = [], rsPartial = [], rsBody = Inr (if numsFinite v then Doc v else Text [])\<rparr>"

definition httpError :: "int \<Rightarrow> string \<Rightarrow> response" where
  "httpError status m = \<lparr>rsStatus = status, rsLocation = [], rsPartial = [], rsBody = Inr (Text (m @ [CHR 0x0A]))\<rparr>"

definition randToken :: "(nat \<Rightarrow> nat list) \<Rightarrow> mock \<Rightarrow> string \<times> mock" where
  "randToken ent s = (trimRight (CHR ''='') (b64Encode urlAlphabet True (ent (mkReads s))), s\<lparr>mkReads := mkReads s + 1\<rparr>)"

definition formValue :: "body \<Rightarrow> string \<Rightarrow> string" where
  "formValue b k = (case b of FormBody kvs \<Rightarrow> (case map_of kvs k of Some v \<Rightarrow> v | None \<Rightarrow> []) | _ \<Rightarrow> [])"

definition handleAuthorize :: "mock \<Rightarrow> response \<times> mock" where
  "handleAuthorize s =
     (\<lparr>rsStatus = 200, rsLocation = [], rsPartial = [], rsBody = Inr (Text ''<html><body>login</body></html>'')\<rparr>, s)"

definition handleCerts :: "mock \<Rightarrow> response \<times> mock" where
  "handleCerts s = (writeJSON 200 (obj1 ''retValue'' (JObj [(''kid'', JStr ''mock-kid''),
     (''n'', JStr (b64Encode urlAlphabet False (bigBytes (rsaN (mkKey s))))),
     (''e'', JStr (b64Encode urlAlphabet False (bigBytes (rsaE (mkKey s)))))])), s)"

definition handleSignin :: "request \<Rightarrow> mock \<Rightarrow> response \<times> mock" where
  "handleSignin r s =
     (\<lparr>rsStatus = 302, rsLocation = formValue (rqBody r) ''redirect_uri'' @ ''?code=mock-auth-code&state=ccsp'',
       rsPartial = [], rsBody = Inr (Text [])\<rparr>, s)"

text \<open>\<open>int(ttl.Seconds())\<close>: the seconds are a \<open>float64\<close>.\<close>

definition ttlSeconds :: "int \<Rightarrow> int" where
  "ttlSeconds ttl =
     (case f64_add (fl (of_int (ttl div nsPerSec))) (f64_div (fl (of_int (ttl mod nsPerSec))) (Fin 1000000000)) of
        Fin q \<Rightarrow> truncRat q | _ \<Rightarrow> 0)"

definition handleToken :: "(nat \<Rightarrow> nat list) \<Rightarrow> request \<Rightarrow> mock \<Rightarrow> response \<times> mock" where
  "handleToken ent r s0 =
     (let s1 = s0\<lparr>mkGrants := mkGrants s0 @ [formValue (rqBody r) ''grant_type'']\<rparr>;
          ttl0 = moAccessTokenTTL (mkOpts s1);
          ttl = (if ttl0 \<le> 0 then 24 * 3600 * nsPerSec else ttl0);
          (acc, s2) = randToken ent s1; (ref, s3) = randToken ent s2
      in (writeJSON 200 (JObj [(''token_type'', JStr ''Bearer''), (''access_token'', JStr (''mock-access-'' @ acc)),
            (''refresh_token'', JStr (''mock-refresh-'' @ ref)), (''expires_in'', JInt (ttlSeconds ttl))]), s3))"

definition handleRegister :: "(nat \<Rightarrow> nat list) \<Rightarrow> mock \<Rightarrow> response \<times> mock" where
  "handleRegister ent s0 =
     (let s1 = s0\<lparr>mkRegisterHits := mkRegisterHits s0 + 1\<rparr>; (dev, s2) = randToken ent s1
      in (writeJSON 200 (JObj [(''retCode'', JStr ''S''), (''resMsg'', obj1 ''deviceId'' (JStr (''mock-device-'' @ dev)))]), s2))"

definition handleVehicles :: "mock \<Rightarrow> response \<times> mock" where
  "handleVehicles s = (let o' = mkOpts s in
     (writeJSON 200 (JObj [(''retCode'', JStr ''S''), (''resMsg'', obj1 ''vehicles'' (JArr [JObj [
        (''vehicleId'', JStr (moVehicleID o')), (''nickname'', JStr (moNickname o')), (''vehicleName'', JStr (moModel o')),
        (''regDate'', JStr ''2026-01-15T00:00:00''), (''vin'', JStr (moVIN o')), (''type'', JStr ''EV''),
        (''ccuCCS2ProtocolSupport'', JInt (flag01 (moCCS2 o')))]]))]), s))"

text \<open>The four status handlers differ in the counter and the document.\<close>

definition statusReply :: "json \<Rightarrow> mock \<Rightarrow> response" where
  "statusReply doc s = (if mkFailStatus s then httpError 500 ''upstream error'' else writeJSON 200 doc)"

definition handleCached :: "mock \<Rightarrow> response \<times> mock" where
  "handleCached s = (statusReply (carStatus (mkOpts s) False) s, s\<lparr>mkCachedHits := mkCachedHits s + 1\<rparr>)"

definition handleForce :: "mock \<Rightarrow> response \<times> mock" where
  "handleForce s = (statusReply (carStatus (mkOpts s) True) s, s\<lparr>mkForceHits := mkForceHits s + 1\<rparr>)"

definition handleCachedCCS1 :: "mock \<Rightarrow> response \<times> mock" where
  "handleCachedCCS1 s = (statusReply (carStatusCCS1 (mkOpts s) False) s, s\<lparr>mkCachedHits := mkCachedHits s + 1\<rparr>)"

definition handleForceCCS1 :: "mock \<Rightarrow> response \<times> mock" where
  "handleForceCCS1 s = (statusReply (carStatusCCS1 (mkOpts s) True) s, s\<lparr>mkForceHits := mkForceHits s + 1\<rparr>)"

definition handleLocation :: "mock \<Rightarrow> response \<times> mock" where
  "handleLocation s =
     (let fix' = [(''coord'', coordDoc (mkOpts s)), (''time'', JStr ''20260710063000'')]
      in (writeJSON 200 (JObj [(''retCode'', JStr ''S''),
            (''resMsg'', if moCCS2 (mkOpts s) then JObj fix' else obj1 ''gpsDetail'' (JObj fix'))]), s))"

section \<open>Routes\<close>

datatype mock_route =
    RAuthorize | RCerts | RSignin | RToken | RRegister | RVehicles
  | RCached | RForce | RLocation | RCachedCCS1 | RForceCCS1

text \<open>A segment of a pattern: a literal, or \<open>{id}\<close>, which matches any segment but an empty one.\<close>

datatype seg = Lit string | AnySeg

fun matchSegs :: "seg list \<Rightarrow> string list \<Rightarrow> bool" where
  "matchSegs [] [] = True"
| "matchSegs (Lit a # ps) (s # ss) = (a = s \<and> matchSegs ps ss)"
| "matchSegs (AnySeg # ps) (s # ss) = (s \<noteq> [] \<and> matchSegs ps ss)"
| "matchSegs _ _ = False"

definition vehicleRoute :: "string list \<Rightarrow> seg list" where
  "vehicleRoute rest = map Lit [''api'', ''v1'', ''spa'', ''vehicles''] @ AnySeg # map Lit rest"

definition mockRoutes :: "(string \<times> seg list \<times> mock_route) list" where
  "mockRoutes =
     [(''GET'', map Lit [''auth'', ''api'', ''v2'', ''user'', ''oauth2'', ''authorize''], RAuthorize),
      (''GET'', map Lit [''auth'', ''api'', ''v1'', ''accounts'', ''certs''], RCerts),
      (''POST'', map Lit [''auth'', ''account'', ''signin''], RSignin),
      (''POST'', map Lit [''auth'', ''api'', ''v2'', ''user'', ''oauth2'', ''token''], RToken),
      (''POST'', map Lit [''api'', ''v1'', ''spa'', ''notifications'', ''register''], RRegister),
      (''GET'', map Lit [''api'', ''v1'', ''spa'', ''vehicles''], RVehicles),
      (''GET'', vehicleRoute [''ccs2'', ''carstatus'', ''latest''], RCached),
      (''GET'', vehicleRoute [''ccs2'', ''carstatus''], RForce),
      (''GET'', vehicleRoute [''location'', ''park''], RLocation),
      (''GET'', vehicleRoute [''status'', ''latest''], RCachedCCS1),
      (''GET'', vehicleRoute [''status''], RForceCCS1)]"

primrec runRoute :: "mock_route \<Rightarrow> (nat \<Rightarrow> nat list) \<Rightarrow> request \<Rightarrow> mock \<Rightarrow> response \<times> mock" where
  "runRoute RAuthorize ent r = handleAuthorize"
| "runRoute RCerts ent r = handleCerts"
| "runRoute RSignin ent r = handleSignin r"
| "runRoute RToken ent r = handleToken ent r"
| "runRoute RRegister ent r = handleRegister ent"
| "runRoute RVehicles ent r = handleVehicles"
| "runRoute RCached ent r = handleCached"
| "runRoute RForce ent r = handleForce"
| "runRoute RLocation ent r = handleLocation"
| "runRoute RCachedCCS1 ent r = handleCachedCCS1"
| "runRoute RForceCCS1 ent r = handleForceCCS1"

text \<open>\<open>ServeMux\<close>: the patterns exclude one another; a path known under another method is a 405.\<close>

definition mockServe :: "(nat \<Rightarrow> nat list) \<Rightarrow> request \<Rightarrow> string list \<Rightarrow> mock \<Rightarrow> response \<times> mock" where
  "mockServe ent r segs s =
     (case filter (\<lambda>(m, p, h). matchSegs p segs) mockRoutes of
        [] \<Rightarrow> (httpError 404 ''404 page not found'', s)
      | rs \<Rightarrow> (case filter (\<lambda>(m, p, h). m = rqMethod r) rs of
          [] \<Rightarrow> (httpError 405 ''Method Not Allowed'', s)
        | (m, p, h) # _ \<Rightarrow> runRoute h ent r s))"

section \<open>The client's transport\<close>

text \<open>The path of a URL below the base: its segments, without the query.\<close>

definition pathSegs :: "string \<Rightarrow> string" where
  "pathSegs u = takeWhile (\<lambda>c. c \<noteq> CHR ''?'') u"

definition mockDo :: "(nat \<Rightarrow> nat list) \<Rightarrow> string \<Rightarrow> request \<Rightarrow> (mock, gerr, response) op" where
  "mockDo ent base r s =
     (if prefix (base @ ''/'') (rqURL r)
      then (case mockServe ent r (splitOn (CHR ''/'') (pathSegs (drop (length base + 1) (rqURL r)))) s of
              (resp, s') \<Rightarrow> (Inr resp, s'))
      else (Inl (LibErr ''dial tcp: connection refused''), s))"

definition mockNet :: "(nat \<Rightarrow> nat list) \<Rightarrow> string \<Rightarrow> 'w net \<Rightarrow> (mock \<times> 'w) net" where
  "mockNet ent base n = \<lparr>netDo = (\<lambda>r. onFst (mockDo ent base r)), netNewJar = onSnd (netNewJar n),
     netLogin = (\<lambda>follow r. onFst (mockDo ent base r)), netNow = onSnd (netNow n),
     netRandom = (\<lambda>k. onSnd (netRandom n k)), netUUID = onSnd (netUUID n),
     netEncrypt = (\<lambda>k p. onSnd (netEncrypt n k p)), netParseURL = netParseURL n, netRender = netRender n,
     netLoad = onSnd (netLoad n), netSave = (\<lambda>t. onSnd (netSave n t))\<rparr>"

end
