(* ===== verification/MockClient.thy ===== *)
theory MockClient
  imports Mock
begin

text \<open>
  The client against the mock: what its calls return and what the mock counts, for every
  option the mock can be given, and a whole session run from an empty token store.
\<close>

section \<open>What the CCS2 document parses to\<close>

definition mockTime :: "bool \<Rightarrow> gotime" where
  "mockTime forced = \<lparr>tns = (if forced then 1783659600 else 1783665000) * nsPerSec, toff = 0\<rparr>"

text \<open>The state of the car the mock stands for, without its position.\<close>

definition mockState :: "mock_options \<Rightarrow> bool \<Rightarrow> vehicle_state" where
  "mockState o' forced = \<lparr>evBatteryPercentage = Some (mockBattery o' forced), evBatterySoH = Some (Fin 99),
     evRange = Some (moRangeKM o'), evRangeUnit = ''km'', charging = Some (0 < moChargeRemainMin o'),
     pluggedIn = Some (moPluggedIn o'), chargePortDoorOpen = Some (moPluggedIn o'),
     chargeLimitAC = Some (Fin 80), chargeLimitDC = Some (Fin 100), chargingPowerKW = Some (fl (72 / 10)),
     estChargeDurationMin = Some (moChargeRemainMin o'), estFastChargeDurationMin = Some 42,
     battery12VPercentage = Some 87, odometer = Some (Fin (42135 / 10)), odometerUnit = ''km'',
     outsideTemperatureC = Some (Fin (185 / 10)), insideTemperatureC = Some (Fin 21), locked = Some True,
     tirePressureWarning = Some False, latitude = None, longitude = None, locationUpdatedAt = None,
     lastUpdatedAt = Some (mockTime forced)\<rparr>"

definition vehicleMap :: "mock_options \<Rightarrow> bool \<Rightarrow> gomap" where
  "vehicleMap o' forced = (case anyOf (vehicleDoc o' forced) of JObj kvs \<Rightarrow> kvs | _ \<Rightarrow> [])"

lemma vehicleMap_eq: "anyOf (vehicleDoc o' forced) = JObj (vehicleMap o' forced)"
  by (simp add: vehicleMap_def vehicleDoc_def Let_def)

text \<open>A whole number on the wire, as the parsers read it.\<close>

definition wireInt :: "int \<Rightarrow> json" where
  "wireInt i = JNum (fl (of_int i))"

lemma wireInt_any: "anyOf (JInt i) = wireInt i"
  by (simp add: wireInt_def)

lemma wireInt_not_null [simp]: "wireInt i \<noteq> JNull"
  by (simp add: wireInt_def)

lemma asFloat_wire: "\<bar>i\<bar> \<le> 2 ^ 53 \<Longrightarrow> asFloat (wireInt i) = Some (Fin (of_int i))"
  by (simp only: wireInt_def asFloat_def json.case fl_small_int)

lemma truncInt_small: "\<bar>i\<bar> \<le> 2 ^ 53 \<Longrightarrow> truncInt a (Fin (of_int i)) = i"
  by (rule truncInt_of_int) (auto simp: minInt64_def maxInt64_def)

lemma ccs2_paths:
  "getPath (vehicleMap o' forced) ''Green.BatteryManagement.BatteryRemain.Ratio'' = JNum (mockBattery o' forced)"
  "getPath (vehicleMap o' forced) ''Green.BatteryManagement.SoH.Ratio'' = JNum (Fin 99)"
  "getPath (vehicleMap o' forced) ''Drivetrain.FuelSystem.DTE.Total'' = JNum (moRangeKM o')"
  "getPath (vehicleMap o' forced) ''Drivetrain.FuelSystem.DTE.Unit'' = wireInt 1"
  "getPath (vehicleMap o' forced) ''Green.ChargingInformation.Charging.RemainTime'' = wireInt (moChargeRemainMin o')"
  "getPath (vehicleMap o' forced) ''Green.ChargingInformation.ConnectorFastening.State'' = wireInt (flag01 (moPluggedIn o'))"
  "getPath (vehicleMap o' forced) ''Green.ChargingDoor.State'' = wireInt (flag01 (moPluggedIn o'))"
  "getPath (vehicleMap o' forced) ''Green.ChargingInformation.TargetSoC.Standard'' = wireInt 80"
  "getPath (vehicleMap o' forced) ''Green.ChargingInformation.TargetSoC.Quick'' = wireInt 100"
  "getPath (vehicleMap o' forced) ''Green.Electric.SmartGrid.RealTimePower'' = JNum (fl (72 / 10))"
  "getPath (vehicleMap o' forced) ''Green.ChargingInformation.EstimatedTime.Quick'' = wireInt 42"
  "getPath (vehicleMap o' forced) ''Electronics.Battery.Level'' = wireInt 87"
  "getPath (vehicleMap o' forced) ''Electronics.Battery.SensorReliability'' = wireInt 0"
  "getPath (vehicleMap o' forced) ''Drivetrain.Odometer'' = JNum (Fin (42135 / 10))"
  "getPath (vehicleMap o' forced) ''Date'' = JStr (if forced then ''2026-07-10T05:00:00Z'' else ''2026-07-10T06:30:00Z'')"
  unfolding vehicleMap_def vehicleDoc_def getPath_def obj1_def Let_def
  by (simp_all add: wireInt_any del: anyOf.simps(4))

lemma ccs2_cabin_paths:
  "getPath (vehicleMap o' forced) ''Cabin.HVAC.OutsideTemperature.Value'' = JNum (Fin (185 / 10))"
  "getPath (vehicleMap o' forced) ''Cabin.HVAC.OutsideTemperature.Unit'' = wireInt 0"
  "getPath (vehicleMap o' forced) ''Cabin.HVAC.Row1.Driver.Temperature.Value'' = JNum (Fin 21)"
  "getPath (vehicleMap o' forced) ''Cabin.HVAC.Row1.Driver.Temperature.Unit'' = wireInt 0"
  "getPath (vehicleMap o' forced) ''Cabin.Door.Row1.Driver.Lock'' = wireInt 0"
  "getPath (vehicleMap o' forced) ''Cabin.Door.Row1.Passenger.Lock'' = wireInt 0"
  "getPath (vehicleMap o' forced) ''Cabin.Door.Row2.Left.Lock'' = wireInt 0"
  "getPath (vehicleMap o' forced) ''Cabin.Door.Row2.Right.Lock'' = wireInt 0"
  "getPath (vehicleMap o' forced) ''Chassis.Axle.Tire.PressureLow'' = wireInt 0"
  "getPath (vehicleMap o' forced) ''Chassis.Axle.Row1.Left.Tire.PressureLow'' = JNull"
  "getPath (vehicleMap o' forced) ''Chassis.Axle.Row1.Right.Tire.PressureLow'' = JNull"
  "getPath (vehicleMap o' forced) ''Chassis.Axle.Row2.Left.Tire.PressureLow'' = JNull"
  "getPath (vehicleMap o' forced) ''Chassis.Axle.Row2.Right.Tire.PressureLow'' = JNull"
  unfolding vehicleMap_def vehicleDoc_def getPath_def obj1_def Let_def
  by (simp_all add: wireInt_any del: anyOf.simps(4))

lemma getInt_wire: "\<bar>i\<bar> \<le> 2 ^ 53 \<Longrightarrow> getPath m p = wireInt i \<Longrightarrow> getInt a m p = Some i"
  by (simp only: getInt_def asFloat_wire option.case truncInt_small)

lemma asFloat_wire_num [simp]:
  "asFloat (wireInt 0) = Some (Fin 0)" "asFloat (wireInt 1) = Some (Fin 1)"
  "numeral k \<le> (2 ^ 53 :: int) \<Longrightarrow> asFloat (wireInt (numeral k)) = Some (Fin (numeral k))"
  using asFloat_wire [of 0] asFloat_wire [of 1] asFloat_wire [of "numeral k"] by simp_all

lemma asFloat_other [simp]: "asFloat (JNum x) = Some x" "asFloat JNull = None"
  by (simp_all add: asFloat_def)

declare truncInt.simps(1) [simp del]

lemma truncInt_num [simp]:
  "truncInt a (Fin 0) = 0" "truncInt a (Fin 1) = 1"
  "numeral k \<le> (2 ^ 53 :: int) \<Longrightarrow> truncInt a (Fin (numeral k)) = numeral k"
  using truncInt_small [of 0 a] truncInt_small [of 1 a] truncInt_small [of "numeral k" a] by simp_all

lemma asFloat_flag [simp]: "asFloat (wireInt (flag01 b)) = Some (Fin (of_int (flag01 b)))"
  by (rule asFloat_wire) (simp add: flag01_def)

lemma truncInt_flag [simp]: "truncInt a (Fin (of_int (flag01 b))) = flag01 b"
  by (rule truncInt_small) (simp add: flag01_def)

lemma mockDates:
  "parseCCS2Date ''2026-07-10T05:00:00Z'' = Some (mockTime True)"
  "parseCCS2Date ''2026-07-10T06:30:00Z'' = Some (mockTime False)"
  by code_simp+

lemma ccs2_parse:
  assumes "\<bar>moChargeRemainMin o'\<bar> \<le> 2 ^ 53"
  shows "parseCCS2 a (vehicleMap o' forced) = mockState o' forced"
proof -
  let ?m = "vehicleMap o' forced"
  note remain = asFloat_wire [OF assms] truncInt_small [OF assms]
  have soc: "normalizeBatterySoC a (Some (Fin 87)) (Some 0) = Some 87"
    by (simp add: normalizeBatterySoC_def)
  have doors: "allDoorsLocked a ?m = Some True"
    by (simp add: allDoorsLocked_def doorPaths_def getInt_def ccs2_cabin_paths)
  have tire: "tireWarning a ?m = Some False"
    by (simp add: tireWarning_def tirePaths_def getInt_def ccs2_cabin_paths)
  have inside: "insideTemp a ?m = Some (Fin 21)"
    by (simp add: insideTemp_def Let_def temperatureC_def getInt_def ccs2_cabin_paths)
  have flag: "flag01 b \<noteq> 0 \<longleftrightarrow> b" "chargeDoor (Some (flag01 b)) = Some b" for b
    by (simp_all add: flag01_def chargeDoor_def)
  show ?thesis
    by (simp add: parseCCS2_def mockState_def remain soc doors tire inside flag Let_def getFloat_def getInt_def getString_def
        distanceUnit_def temperatureC_def ccs2_paths ccs2_cabin_paths mockDates)
qed

section \<open>The transport\<close>

text \<open>An identifier that is one path segment as it is written.\<close>

definition cleanID :: "string \<Rightarrow> bool" where
  "cleanID i \<longleftrightarrow> i \<noteq> [] \<and> CHR ''/'' \<notin> set i \<and> CHR ''?'' \<notin> set i"

definition pointsAt :: "string \<Rightarrow> client_config \<Rightarrow> bool" where
  "pointsAt base cfg \<longleftrightarrow> ccSPAAPI cfg = base @ ''/api/v1/spa/''"

lemma splitOn_one: "c \<notin> set x \<Longrightarrow> splitOn c x = [x]"
  by (induction x) auto

lemma splitOn_sep: "c \<notin> set x \<Longrightarrow> splitOn c (x @ c # y) = x # splitOn c y"
  by (induction x) auto

lemma vehicle_segs:
  assumes "cleanID i" and "CHR ''?'' \<notin> set q"
  shows "splitOn (CHR ''/'') (pathSegs (''api/v1/spa/vehicles/'' @ i @ CHR ''/'' # q)) =
    [''api'', ''v1'', ''spa'', ''vehicles'', i] @ splitOn (CHR ''/'') q"
proof -
  have "pathSegs (''api/v1/spa/vehicles/'' @ i @ CHR ''/'' # q) = ''api/v1/spa/vehicles/'' @ i @ CHR ''/'' # q"
    using assms unfolding pathSegs_def cleanID_def by (intro takeWhile_eq_all_conv [THEN iffD2]) auto
  moreover have "splitOn (CHR ''/'') (i @ CHR ''/'' # q) = i # splitOn (CHR ''/'') q"
    using assms(1) by (simp add: splitOn_sep cleanID_def)
  ultimately show ?thesis by simp
qed

lemma mockDo_vehicle:
  assumes "pointsAt base cfg" and "cleanID (vID v)" and "CHR ''?'' \<notin> set q"
  shows "mockDo ent base (apiRequest cfg (vehiclePath v (CHR ''/'' # q)) ccs2 tok st) s =
    (case mockServe ent (apiRequest cfg (vehiclePath v (CHR ''/'' # q)) ccs2 tok st)
       ([''api'', ''v1'', ''spa'', ''vehicles'', vID v] @ splitOn (CHR ''/'') q) s of (resp, s') \<Rightarrow> (Inr resp, s'))"
proof -
  have u: "rqURL (apiRequest cfg (vehiclePath v (CHR ''/'' # q)) ccs2 tok st) =
      (base @ ''/'') @ (''api/v1/spa/vehicles/'' @ vID v @ CHR ''/'' # q)"
    using assms(1) by (simp add: apiRequest_def vehiclePath_def pointsAt_def)
  have "length base + 1 = length (base @ ''/'')" by simp
  then have d: "drop (length base + 1) (rqURL (apiRequest cfg (vehiclePath v (CHR ''/'' # q)) ccs2 tok st)) =
      ''api/v1/spa/vehicles/'' @ vID v @ CHR ''/'' # q"
    unfolding u by (simp only: append_eq_conv_conj drop_append) simp
  show ?thesis
    unfolding mockDo_def d vehicle_segs [OF assms(2,3)] by (simp add: u)
qed

lemma api_method [simp]: "rqMethod (apiRequest cfg path ccs2 tok st) = ''GET''"
  by (simp add: apiRequest_def)

lemma mock_status_routes:
  assumes "pointsAt base cfg" and "cleanID (vID v)"
  shows "mockDo ent base (apiRequest cfg (vehiclePath v ''/ccs2/carstatus/latest'') ccs2 tok st) s =
      (case handleCached s of (resp, s') \<Rightarrow> (Inr resp, s'))"
    and "mockDo ent base (apiRequest cfg (vehiclePath v ''/ccs2/carstatus'') ccs2 tok st) s =
      (case handleForce s of (resp, s') \<Rightarrow> (Inr resp, s'))"
    and "mockDo ent base (apiRequest cfg (vehiclePath v ''/location/park'') ccs2 tok st) s =
      (case handleLocation s of (resp, s') \<Rightarrow> (Inr resp, s'))"
    and "mockDo ent base (apiRequest cfg (vehiclePath v ''/status/latest'') ccs2 tok st) s =
      (case handleCachedCCS1 s of (resp, s') \<Rightarrow> (Inr resp, s'))"
    and "mockDo ent base (apiRequest cfg (vehiclePath v ''/status'') ccs2 tok st) s =
      (case handleForceCCS1 s of (resp, s') \<Rightarrow> (Inr resp, s'))"
  using assms(2)
  by (simp_all add: mockDo_vehicle [OF assms] mockServe_def mockRoutes_def vehicleRoute_def cleanID_def)

section \<open>Calls with valid tokens\<close>

text \<open>A client whose tokens are valid whenever it reads the clock.\<close>

definition loggedIn :: "'w net \<Rightarrow> tokens \<Rightarrow> bool" where
  "loggedIn n t \<longleftrightarrow> deviceID t \<noteq> [] \<and> (\<forall>w. tokensValid t (fst (netNow n w)))"

text \<open>The state of a client of the mock, and the outside world after \<open>k\<close> readings of the clock.\<close>

definition mc :: "tokens \<Rightarrow> mock \<Rightarrow> 'w \<Rightarrow> (mock \<times> 'w) client" where
  "mc t s w = \<lparr>clTokens = t, clWorld = (s, w)\<rparr>"

lemma mc_tokens [simp]: "clTokens (mc t s w) = t"
  by (simp add: mc_def)

definition ticked :: "'w net \<Rightarrow> nat \<Rightarrow> 'w \<Rightarrow> 'w" where
  "ticked n k w = ((\<lambda>w. snd (netNow n w)) ^^ k) w"

lemma ticked_add [simp]: "ticked n j (ticked n k w) = ticked n (k + j) w"
  by (simp add: ticked_def add.commute [of k] funpow_add)

lemma now_run: "liftPure (netNow (mockNet ent base n)) (mc t s w) = (Inr (fst (netNow n w)), mc t s (ticked n 1 w))"
  by (simp add: liftPure_def liftOp_def mc_def mockNet_def onSnd_def ticked_def split: prod.split)

lemma stamp_ok: "\<exists>st. stamp now = Inr st"
proof -
  have "stdDecode cfbBase64 \<noteq> None" by code_simp
  then show ?thesis by (auto simp: stamp_def)
qed

lemma ensure_ready:
  assumes "loggedIn n t"
  shows "ensureToken (mockNet ent base n) cfg (mc t s w) = (Inr (), mc t s (ticked n 1 w))"
proof -
  show ?thesis using assms by (simp add: ensureToken_def bindOp_def now_run loggedIn_def)
qed

lemma rawGet_mock:
  assumes "\<And>st. mockDo ent base (apiRequest cfg path ccs2 t st) s = (Inr (writeJSON 200 j), s')" and "numsFinite j"
  shows "rawGet (mockNet ent base n) cfg path ccs2 t (mc t s w) = (Inr (Doc j, 200), mc t s' (ticked n 1 w))"
proof -
  obtain st where st: "stamp (fst (netNow n w)) = Inr st" using stamp_ok by blast
  have "liftOp (netDo (mockNet ent base n) (apiRequest cfg path ccs2 t st)) (mc t s x) =
      (Inr (writeJSON 200 j), mc t s' x)" for x
    by (simp add: liftOp_def mockNet_def onFst_def mc_def assms(1))
  then show ?thesis
    using assms(2) by (simp add: rawGet_def now_run bindOp_def st writeJSON_def)
qed

lemma authedGet_mock:
  assumes "loggedIn n t" and "\<And>st. mockDo ent base (apiRequest cfg path ccs2 t st) s = (Inr (writeJSON 200 j), s')"
    and "numsFinite j" and "checkEnvelope (Doc j) = Inr ()" and "out j = Some x"
  shows "authedGet (mockNet ent base n) cfg path ccs2 out (mc t s w) = (Inr x, mc t s' (ticked n 2 w))"
proof -
  have "doAuthedGet (mockNet ent base n) cfg path ccs2 (mc t s w) = (Inr (Doc j), mc t s' (ticked n 2 w))"
    unfolding doAuthedGet_def
    by (simp add: bindOp_def ensure_ready [OF assms(1)] rawGet_mock [OF assms(2,3)] numeral_2_eq_2)
  then show ?thesis
    by (simp add: authedGet_def bindOp_def wrapErr_def decodeBody_def assms(4,5))
qed

section \<open>Status reads\<close>

lemma numsFinite_int [simp]: "\<bar>i\<bar> \<le> 2 ^ 53 \<Longrightarrow> numsFinite (JInt i)"
  by (simp only: numsFinite.simps fl_small_int) (simp add: f64_finite_def)

lemma numsFinite_flag [simp]: "numsFinite (JInt (flag01 b))"
  by (rule numsFinite_int) (simp add: flag01_def)

lemma f64_finite_Fin [simp]: "f64_finite (Fin x)"
  by (simp add: f64_finite_def)

lemma power_finite: "f64_finite (fl (36 / 5))"
  by code_simp

text \<open>Options a JSON document can carry.\<close>

definition goodOptions :: "mock_options \<Rightarrow> bool" where
  "goodOptions o' \<longleftrightarrow> f64_finite (mockBattery o' False) \<and> f64_finite (mockBattery o' True) \<and> f64_finite (moRangeKM o')
     \<and> f64_finite (moLatitude o') \<and> f64_finite (moLongitude o') \<and> \<bar>moChargeRemainMin o'\<bar> \<le> 2 ^ 53"

lemma battery_finite: "goodOptions o' \<Longrightarrow> f64_finite (mockBattery o' forced)"
  by (cases forced) (simp_all add: goodOptions_def)

lemma vehicleDoc_finite: "goodOptions o' \<Longrightarrow> numsFinite (vehicleDoc o' forced)"
  using battery_finite [of o' forced]
  by (simp add: vehicleDoc_def obj1_def Let_def goodOptions_def power_finite del: numsFinite.simps(4))

lemma carStatus_reply:
  assumes "goodOptions o'"
  shows "numsFinite (carStatus o' forced)" and "checkEnvelope (Doc (carStatus o' forced)) = Inr ()"
    and "decStatusCCS2 (carStatus o' forced) = Some (Some (vehicleMap o' forced))"
proof -
  have doc: "decMap (vehicleDoc o' forced) = Some (Some (vehicleMap o' forced))"
    using vehicleDoc_finite [OF assms] vehicleMap_eq [of o' forced]
    by (auto simp: decMap_def vehicleDoc_def Let_def split: json.splits)
  show "numsFinite (carStatus o' forced)"
    using vehicleDoc_finite [OF assms] by (simp add: carStatus_def obj1_def)
  show "checkEnvelope (Doc (carStatus o' forced)) = Inr ()"
    by (simp add: checkEnvelope_def carStatus_def obj1_def Let_def equalFold_def lower_def lowerc_def)
  show "decStatusCCS2 (carStatus o' forced) = Some (Some (vehicleMap o' forced))"
    by (simp add: decStatusCCS2_def carStatus_def obj1_def decStruct_def decField_def decPath1_def doc equalFold_def
        lower_def lowerc_def)
qed

definition parkDoc :: "mock_options \<Rightarrow> json" where
  "parkDoc o' = JObj [(''retCode'', JStr ''S''),
     (''resMsg'', JObj [(''coord'', coordDoc o'), (''time'', JStr ''20260710063000'')])]"

lemma park_reply:
  assumes "goodOptions o'"
  shows "numsFinite (parkDoc o')" and "checkEnvelope (Doc (parkDoc o')) = Inr ()"
    and "decPark (parkDoc o') = Some (Some (moLatitude o'), Some (moLongitude o'), ''20260710063000'')"
proof -
  show "numsFinite (parkDoc o')" using assms by (simp add: parkDoc_def coordDoc_def goodOptions_def del: numsFinite.simps(4))
  show "checkEnvelope (Doc (parkDoc o')) = Inr ()"
    by (simp add: checkEnvelope_def parkDoc_def Let_def equalFold_def lower_def lowerc_def)
  show "decPark (parkDoc o') = Some (Some (moLatitude o'), Some (moLongitude o'), ''20260710063000'')"
    using assms
    by (simp add: decPark_def parkDoc_def coordDoc_def decStruct_def decField_def decFloatPtr_def decString_def goodOptions_def
        equalFold_def lower_def lowerc_def)
qed

text \<open>The mock after a status read of the given kind.\<close>

definition counted :: "bool \<Rightarrow> mock \<Rightarrow> mock" where
  "counted force s = (if force then s\<lparr>mkForceHits := mkForceHits s + 1\<rparr> else s\<lparr>mkCachedHits := mkCachedHits s + 1\<rparr>)"

lemma counted_opts [simp]: "mkOpts (counted force s) = mkOpts s"
  by (simp add: counted_def)

lemma statusCCS2_mock:
  assumes "pointsAt base cfg" and "cleanID (vID v)" and "loggedIn n t" and "goodOptions (mkOpts s)"
    and "\<not> mkFailStatus s" and "moCCS2 (mkOpts s)"
  shows "statusCCS2 a (mockNet ent base n) cfg v (vehiclePath v (if force then ''/ccs2/carstatus'' else ''/ccs2/carstatus/latest''))
      (mc t s w) =
    (Inr (mockState (mkOpts s) force\<lparr>latitude := Some (moLatitude (mkOpts s)), longitude := Some (moLongitude (mkOpts s)),
        locationUpdatedAt := Some (mockTime False)\<rparr>), mc t (counted force s) (ticked n 4 w))"
proof -
  let ?o = "mkOpts s"
  let ?path = "vehiclePath v (if force then ''/ccs2/carstatus'' else ''/ccs2/carstatus/latest'')"
  have "mockDo ent base (apiRequest cfg ?path (vCCS2ProtocolSupport v) t st) s =
      (Inr (writeJSON 200 (carStatus ?o force)), counted force s)" for st
    using assms(5) by (simp add: mock_status_routes [OF assms(1,2)] handleCached_def handleForce_def statusReply_def counted_def)
  then have 1: "authedGet (mockNet ent base n) cfg ?path (vCCS2ProtocolSupport v) decStatusCCS2 (mc t s w) =
      (Inr (Some (vehicleMap ?o force)), mc t (counted force s) (ticked n 2 w))" for w
    by (rule authedGet_mock [OF assms(3)]) (rule carStatus_reply [OF assms(4)])+
  have "mockDo ent base (apiRequest cfg (vehiclePath v ''/location/park'') (vCCS2ProtocolSupport v) t st) (counted force s) =
      (Inr (writeJSON 200 (parkDoc ?o)), counted force s)" for st
    using assms(6) by (simp add: mock_status_routes [OF assms(1,2)] handleLocation_def parkDoc_def Let_def)
  then have 2: "authedGet (mockNet ent base n) cfg (vehiclePath v ''/location/park'') (vCCS2ProtocolSupport v) decPark
      (mc t (counted force s) w) = (Inr (Some (moLatitude ?o), Some (moLongitude ?o), ''20260710063000''),
        mc t (counted force s) (ticked n 2 w))" for w
    by (rule authedGet_mock [OF assms(3)]) (rule park_reply [OF assms(4)])+
  have time: "parseBluelinkTime ''20260710063000'' = Some (mockTime False)" by code_simp
  have "parseCCS2 a (vehicleMap ?o force) = mockState ?o force"
    using assms(4) by (intro ccs2_parse) (simp add: goodOptions_def)
  then show ?thesis
    by (simp add: statusCCS2_def bindOp_def wrapErr_def tryOp_def parkLocation_def 1 2 time Let_def)
qed

section \<open>A login\<close>

lemma mockDo_path:
  assumes "rqURL r = base @ CHR ''/'' # u"
  shows "mockDo ent base r s = (case mockServe ent r (splitOn (CHR ''/'') (pathSegs u)) s of (resp, s') \<Rightarrow> (Inr resp, s'))"
proof -
  have "drop (length base + 1) (rqURL r) = u" using assms by simp
  with assms show ?thesis unfolding mockDo_def by simp
qed

text \<open>What the login relies on: a cookie jar, an encryption and a save that work, and a URL parser that
  finds the code in the mock's redirect.\<close>

definition worksFor :: "'w net \<Rightarrow> client_config \<Rightarrow> bool" where
  "worksFor n cfg \<longleftrightarrow>
     (\<forall>w. fst (netNewJar n w) = Inr () \<and> (\<forall>k p. \<exists>ct. fst (netEncrypt n k p w) = Inr ct) \<and> (\<forall>t. fst (netSave n t w) = Inr ()))
     \<and> (\<exists>q. netParseURL n (redirectURI (ccSPABase cfg) @ ''?code=mock-auth-code&state=ccsp'') = Inr q \<and> q ''code'' = ''mock-auth-code'')"

definition goodKey :: "rsa_key \<Rightarrow> bool" where
  "goodKey k \<longleftrightarrow> 0 < rsaN k \<and> 0 < rsaE k \<and> rsaE k < 2 ^ 31"

lemma lift_world:
  "\<exists>w'. liftOp (netNewJar (mockNet ent base n)) (mc t s w) = (fst (netNewJar n w), mc t s w')"
  "\<exists>w'. liftOp (netEncrypt (mockNet ent base n) k p) (mc t s w) = (fst (netEncrypt n k p w), mc t s w')"
  "\<exists>w'. liftOp (netSave (mockNet ent base n) tok) (mc t s w) = (fst (netSave n tok w), mc t s w')"
  "\<exists>x w'. randomHex (mockNet ent base n) j (mc t s w) = (Inr x, mc t s w')"
  "\<exists>x w'. liftPure (netUUID (mockNet ent base n)) (mc t s w) = (Inr x, mc t s w')"
  by (simp_all add: randomHex_def bindOp_def liftOp_def liftPure_def mockNet_def onSnd_def mc_def split: prod.split)

lemma lift_mock:
  "liftOp (netDo (mockNet ent base n) r) (mc t s w) = (case mockDo ent base r s of (x, s') \<Rightarrow> (x, mc t s' w))"
  "liftOp (netLogin (mockNet ent base n) b r) (mc t s w) = (case mockDo ent base r s of (x, s') \<Rightarrow> (x, mc t s' w))"
  by (simp_all add: liftOp_def mockNet_def onFst_def mc_def split: prod.split)

lemma mc_put [simp]: "(mc t s w)\<lparr>clTokens := t'\<rparr> = mc t' s w"
  by (simp add: mc_def)

lemma mockNet_parse [simp]: "netParseURL (mockNet ent base n) = netParseURL n"
  by (simp add: mockNet_def)

lemma register_mock:
  assumes "pointsAt base cfg"
  shows "\<exists>w'. registerDevice (mockNet ent base n) cfg (mc t s w) =
    (Inr (''mock-device-'' @ fst (randToken ent s)), mc t (s\<lparr>mkRegisterHits := mkRegisterHits s + 1, mkReads := mkReads s + 1\<rparr>) w')"
proof -
  obtain st where st: "stamp (fst (netNow n w)) = Inr st" using stamp_ok by blast
  obtain x w1 where 1: "randomHex (mockNet ent base n) 32 (mc t s (ticked n 1 w)) = (Inr x, mc t s w1)"
    using lift_world(4) [of ent base n 32 t s "ticked n 1 w"] by blast
  obtain y w2 where 2: "liftPure (netUUID (mockNet ent base n)) (mc t s w1) = (Inr y, mc t s w2)"
    using lift_world(5) [of ent base n t s w1] by blast
  let ?r = "registerRequest cfg st x y"
  have "rqURL ?r = base @ CHR ''/'' # ''api/v1/spa/notifications/register''"
    using assms by (simp add: registerRequest_def pointsAt_def)
  then have 3: "mockDo ent base ?r s = (case handleRegister ent s of (resp, s') \<Rightarrow> (Inr resp, s'))"
    by (simp add: mockDo_path pathSegs_def mockServe_def mockRoutes_def vehicleRoute_def registerRequest_def)
  show ?thesis
    by (simp add: registerDevice_def bindOp_def wrapErr_def now_run 1 [simplified] 2 st lift_mock 3 handleRegister_def randToken_def
        Let_def writeJSON_def obj1_def decodeBody_def decRegister_def decStruct_def decField_def decString_def equalFold_def
        lower_def lowerc_def) blast
qed

definition logsInAt :: "string \<Rightarrow> client_config \<Rightarrow> bool" where
  "logsInAt base cfg \<longleftrightarrow> pointsAt base cfg \<and> ccLoginHost cfg = base"

lemma serve_auth:
  assumes "logsInAt base cfg"
  shows "rqMethod r = ''GET'' \<Longrightarrow> rqURL r = authorizeURL cfg \<Longrightarrow> mockDo ent base r s = (Inr (fst (handleAuthorize s)), s)"
    and "rqMethod r = ''GET'' \<Longrightarrow> rqURL r = ccLoginHost cfg @ ''/auth/api/v1/accounts/certs'' \<Longrightarrow>
           mockDo ent base r s = (Inr (fst (handleCerts s)), s)"
    and "rqMethod r = ''POST'' \<Longrightarrow> rqURL r = ccLoginHost cfg @ ''/auth/account/signin'' \<Longrightarrow>
           mockDo ent base r s = (Inr (fst (handleSignin r s)), s)"
    and "rqMethod r = ''POST'' \<Longrightarrow> rqURL r = ccLoginHost cfg @ ''/auth/api/v2/user/oauth2/token'' \<Longrightarrow>
           mockDo ent base r s = (case handleToken ent r s of (resp, s') \<Rightarrow> (Inr resp, s'))"
  using assms
  by (simp_all add: mockDo_path [of r base "''auth/api/v2/user/oauth2/authorize?response_type=code&client_id='' @ ccspServiceID @
          ''&redirect_uri='' @ queryEscape (redirectURI (ccSPABase cfg)) @ ''&lang=en&state=ccsp&country=de''"]
        mockDo_path [of r base "''auth/api/v1/accounts/certs''"] mockDo_path [of r base "''auth/account/signin''"]
        mockDo_path [of r base "''auth/api/v2/user/oauth2/token''"] logsInAt_def authorizeURL_def
        pathSegs_def mockServe_def mockRoutes_def vehicleRoute_def handleAuthorize_def handleCerts_def handleSignin_def)

lemma certs_mock:
  assumes "logsInAt base cfg"
  shows "fetchCerts (mockNet ent base n) cfg (mc t s w) =
    (Inr \<lparr>jwkKid = ''mock-kid'', jwkN = b64Encode urlAlphabet False (bigBytes (rsaN (mkKey s))),
       jwkE = b64Encode urlAlphabet False (bigBytes (rsaE (mkKey s)))\<rparr>, mc t s w)"
  by (simp add: fetchCerts_def bindOp_def wrapErr_def lift_mock serve_auth [OF assms] handleCerts_def writeJSON_def obj1_def
      decodeBody_def decCerts_def decStruct_def decField_def decString_def equalFold_def lower_def lowerc_def)

lemma signin_mock:
  assumes "logsInAt base cfg" and "worksFor n cfg"
  shows "signin (mockNet ent base n) cfg (redirectURI (ccSPABase cfg)) kid pw (mc t s w) = (Inr ''mock-auth-code'', mc t s w)"
proof -
  obtain q where "netParseURL n (redirectURI (ccSPABase cfg) @ ''?code=mock-auth-code&state=ccsp'') = Inr q"
    "q ''code'' = ''mock-auth-code''" using assms(2) unfolding worksFor_def by blast
  then show ?thesis
    by (simp add: signin_def bindOp_def lift_mock serve_auth [OF assms(1)] signinRequest_def handleSignin_def formValue_def
        codeFromLocation_def)
qed

text \<open>The tokens the mock issues at its state \<open>s\<close>, read at the time \<open>now\<close>, and the mock after that.\<close>

definition mockTTL :: "mock \<Rightarrow> int" where
  "mockTTL s = (let ttl = moAccessTokenTTL (mkOpts s) in ttlSeconds (if ttl \<le> 0 then 24 * 3600 * nsPerSec else ttl))"

definition issued :: "(nat \<Rightarrow> nat list) \<Rightarrow> mock \<Rightarrow> int \<Rightarrow> tokens" where
  "issued ent s now = tokensFrom \<lparr>trTokenType = ''Bearer'', trAccessToken = ''mock-access-'' @ fst (randToken ent s),
     trRefreshToken = ''mock-refresh-'' @ fst (randToken ent (snd (randToken ent s))), trExpiresIn = mockTTL s\<rparr> now"

definition granted :: "string \<Rightarrow> mock \<Rightarrow> mock" where
  "granted g s = s\<lparr>mkGrants := mkGrants s @ [g], mkReads := mkReads s + 2\<rparr>"

text \<open>A lifetime that a JSON integer carries exactly.\<close>

definition goodTTL :: "mock \<Rightarrow> bool" where
  "goodTTL s \<longleftrightarrow> \<bar>mockTTL s\<bar> \<le> 2 ^ 53"

lemma token_mock:
  assumes "logsInAt base cfg" and "goodTTL s" and "\<And>r. hc r = netLogin (mockNet ent base n) True r" and "map_of form ''grant_type'' = Some g"
  shows "postToken (mockNet ent base n) cfg hc form (mc t s w) =
    (Inr \<lparr>trTokenType = ''Bearer'', trAccessToken = ''mock-access-'' @ fst (randToken ent s),
       trRefreshToken = ''mock-refresh-'' @ fst (randToken ent (snd (randToken ent s))), trExpiresIn = mockTTL s\<rparr>, mc t (granted g s) w)"
proof -
  have small: "\<bar>mockTTL s\<bar> \<le> 2 ^ 53" using assms(2) by (simp add: goodTTL_def)
  have ttl: "numsFinite (JInt (mockTTL s))" "decInt (JInt (mockTTL s)) = Some (mockTTL s)"
    using numsFinite_int [OF small] small by (auto simp: decInt_def minInt64_def maxInt64_def)
  let ?r = "\<lparr>rqMethod = ''POST'', rqURL = ccLoginHost cfg @ ''/auth/api/v2/user/oauth2/token'',
     rqHeaders = [(''User-Agent'', userAgentOkHTTP), (''Content-Type'', ''application/x-www-form-urlencoded'')],
     rqBody = FormBody form\<rparr>"
  have "handleToken ent ?r s = (writeJSON 200 (JObj [(''token_type'', JStr ''Bearer''),
      (''access_token'', JStr (''mock-access-'' @ fst (randToken ent s))),
      (''refresh_token'', JStr (''mock-refresh-'' @ fst (randToken ent (snd (randToken ent s))))),
      (''expires_in'', JInt (mockTTL s))]), granted g s)"
    by (simp add: handleToken_def formValue_def assms(4) randToken_def mockTTL_def granted_def Let_def numeral_2_eq_2)
  then have "mockDo ent base ?r s = (Inr (writeJSON 200 (JObj [(''token_type'', JStr ''Bearer''),
      (''access_token'', JStr (''mock-access-'' @ fst (randToken ent s))),
      (''refresh_token'', JStr (''mock-refresh-'' @ fst (randToken ent (snd (randToken ent s))))),
      (''expires_in'', JInt (mockTTL s))])), granted g s)"
    by (simp add: serve_auth [OF assms(1)])
  then show ?thesis
    by (simp add: postToken_def bindOp_def wrapErr_def assms(3) lift_mock writeJSON_def ttl decodeBody_def decTokenResponse_def
        decStruct_def decField_def decString_def equalFold_def lower_def lowerc_def del: numsFinite.simps(4))
qed

lemma login_mock:
  assumes "logsInAt base cfg" and "worksFor n cfg" and "goodTTL s" and "goodKey (mkKey s)"
  shows "\<exists>v w'. loginWithPassword (mockNet ent base n) cfg (mc t s w) =
    (Inr (issued ent s (fst (netNow n v))), mc t (granted ''authorization_code'' s) w')"
proof -
  have "fst (netNewJar n w) = Inr ()" using assms(2) unfolding worksFor_def by blast
  then obtain w1 where jar: "liftOp (netNewJar (mockNet ent base n)) (mc t s w) = (Inr (), mc t s w1)"
    using lift_world(1) [of ent base n t s w] by auto
  have auth: "loginGet (mockNet ent base n) (authorizeURL cfg) (mc t s w1) = (Inr (), mc t s w1)"
    by (simp add: loginGet_def bindOp_def lift_mock serve_auth [OF assms(1)] handleAuthorize_def)
  have pub: "jwkToRSAPublicKey \<lparr>jwkKid = ''mock-kid'', jwkN = b64Encode urlAlphabet False (bigBytes (rsaN (mkKey s))),
      jwkE = b64Encode urlAlphabet False (bigBytes (rsaE (mkKey s)))\<rparr> = Inr (mkKey s)"
    using assms(4)
    by (simp add: goodKey_def jwkToRSAPublicKey_def base64URL_roundtrip bigBytes_bytes bigBytes_nonempty setBytes_bigBytes)
  obtain ct where "fst (netEncrypt n (mkKey s) (ccPassword cfg) w1) = Inr ct" using assms(2) unfolding worksFor_def by blast
  then obtain w2 where enc: "liftOp (netEncrypt (mockNet ent base n) (mkKey s) (ccPassword cfg)) (mc t s w1) = (Inr ct, mc t s w2)"
    using lift_world(2) [of ent base n "mkKey s" "ccPassword cfg" t s w1] by auto
  show ?thesis
    by (simp add: loginWithPassword_def bindOp_def wrapErr_def jar auth certs_mock [OF assms(1)] pub encryptPassword_def enc
        signin_mock [OF assms(1,2)] token_mock [OF assms(1,3)] now_run issued_def) blast
qed

text \<open>The mock after a full login from its state \<open>s\<close>: a registration, then a token.\<close>

definition registered :: "mock \<Rightarrow> mock" where
  "registered s = s\<lparr>mkRegisterHits := mkRegisterHits s + 1, mkReads := mkReads s + 1\<rparr>"

lemma registered_sel [simp]:
  "mkOpts (registered s) = mkOpts s" "mkKey (registered s) = mkKey s" "goodTTL (registered s) = goodTTL s"
  by (simp_all add: registered_def goodTTL_def mockTTL_def)

lemma fullLogin_mock:
  assumes "logsInAt base cfg" and "worksFor n cfg" and "goodTTL s" and "goodKey (mkKey s)"
  shows "\<exists>v w'. fullLogin (mockNet ent base n) cfg (mc t s w) =
    (Inr (), mc (issued ent (registered s) (fst (netNow n v))\<lparr>deviceID := ''mock-device-'' @ fst (randToken ent s)\<rparr>)
       (granted ''authorization_code'' (registered s)) w')"
proof -
  have p: "pointsAt base cfg" using assms(1) by (simp add: logsInAt_def)
  obtain w1 where reg: "registerDevice (mockNet ent base n) cfg (mc t s w) =
      (Inr (''mock-device-'' @ fst (randToken ent s)), mc t (registered s) w1)"
    using register_mock [OF p, of ent n t s w] unfolding registered_def by blast
  obtain v w2 where login: "loginWithPassword (mockNet ent base n) cfg (mc t (registered s) w1) =
      (Inr (issued ent (registered s) (fst (netNow n v))), mc t (granted ''authorization_code'' (registered s)) w2)"
    using login_mock [OF assms(1,2), of "registered s" ent t w1] assms(3,4) by auto
  have "\<exists>w3. liftOp (netSave (mockNet ent base n) tok) (mc t' s' w2) = (Inr (), mc t' s' w3)" for tok t' s'
    using lift_world(3) [of ent base n tok t' s' w2] assms(2) unfolding worksFor_def by simp
  then obtain w3 where "liftOp (netSave (mockNet ent base n) (issued ent (registered s) (fst (netNow n v))\<lparr>deviceID := ''mock-device-'' @ fst (randToken ent s)\<rparr>))
      (mc (issued ent (registered s) (fst (netNow n v))\<lparr>deviceID := ''mock-device-'' @ fst (randToken ent s)\<rparr>)
        (granted ''authorization_code'' (registered s)) w2) = (Inr (), mc (issued ent (registered s) (fst (netNow n v))
        \<lparr>deviceID := ''mock-device-'' @ fst (randToken ent s)\<rparr>) (granted ''authorization_code'' (registered s)) w3)" by blast
  then show ?thesis
    by (simp add: fullLogin_def bindOp_def wrapErr_def reg login Let_def) blast
qed

section \<open>Properties\<close>

text \<open>Against the mock a status read over CCS2 returns the car the mock stands for, whatever its options:
  every field of the state, the battery one higher when the read was forced, the position of the park
  endpoint; and the mock counts one read of the right kind and none of the other.\<close>

theorem mock_status_read:
  assumes "pointsAt base cfg" and "cleanID (vID v)" and "loggedIn n t" and "goodOptions (mkOpts s)"
    and "\<not> mkFailStatus s" and "moCCS2 (mkOpts s)" and "isCCS2 v"
  shows "fetchStatus a (mockNet ent base n) cfg v force (mc t s w) =
    (Inr (mockState (mkOpts s) force\<lparr>latitude := Some (moLatitude (mkOpts s)), longitude := Some (moLongitude (mkOpts s)),
        locationUpdatedAt := Some (mockTime False)\<rparr>), mc t (counted force s) (ticked n 4 w))"
  unfolding fetchStatus_def using assms(7) statusCCS2_mock [OF assms(1-6), of a ent force w] by simp

text \<open>A first start against the mock logs in: from an empty store the client registers once, obtains the
  RSA key, signs in and exchanges the one code, and holds the tokens and the device ID the mock issued,
  whatever the key, the options and the random bytes; no status read happens.\<close>

theorem mock_first_login:
  assumes "logsInAt base cfg" and "worksFor n cfg" and "goodTTL s" and "goodKey (mkKey s)" and "fst (netLoad n w) = Inr None"
  shows "\<exists>v w'. connect (mockNet ent base n) cfg (mc tokens0 s w) =
    (Inr (), mc (issued ent (registered s) (fst (netNow n v))\<lparr>deviceID := ''mock-device-'' @ fst (randToken ent s)\<rparr>)
       (s\<lparr>mkRegisterHits := mkRegisterHits s + 1, mkGrants := mkGrants s @ [''authorization_code''], mkReads := mkReads s + 3\<rparr>) w')"
proof -
  have "liftOp (netLoad (mockNet ent base n)) (mc tokens0 s w) = (Inr None, mc tokens0 s (snd (netLoad n w)))"
    using assms(5) by (cases "netLoad n w") (simp add: liftOp_def mockNet_def onSnd_def mc_def)
  then obtain w1 where ld: "liftOp (netLoad (mockNet ent base n)) (mc tokens0 s w) = (Inr None, mc tokens0 s w1)" by blast
  have none: "deviceID tokens0 = []" by (simp add: tokens0_def)
  have "connect (mockNet ent base n) cfg (mc tokens0 s w) = fullLogin (mockNet ent base n) cfg (mc tokens0 s (ticked n 1 w1))"
    using none by (simp add: connect_def bindOp_def wrapErr_def ld ensureToken_def now_run)
  moreover have "granted g (registered s) = s\<lparr>mkRegisterHits := mkRegisterHits s + 1, mkGrants := mkGrants s @ [g],
      mkReads := mkReads s + 3\<rparr>" for g by (simp add: granted_def registered_def)
  ultimately show ?thesis using fullLogin_mock [OF assms(1-4), of ent tokens0 "ticked n 1 w1"] by simp
qed

text \<open>Witnesses: the mock with its default options, an outside world that stands still at time 0, and a
  parser that finds the code.\<close>

definition stillNet :: "unit net" where
  "stillNet = refreshingNet\<lparr>netParseURL := (\<lambda>u. Inr (\<lambda>k. if k = ''code'' then ''mock-auth-code'' else []))\<rparr>"

definition demoMock :: mock where
  "demoMock = \<lparr>mkOpts = mockDefaults, mkKey = \<lparr>rsaN = 3233, rsaE = 17\<rparr>, mkGrants = [], mkRegisterHits = 0,
     mkCachedHits = 0, mkForceHits = 0, mkFailStatus = False, mkReads = 0\<rparr>"

definition mockClient :: client_config where
  "mockClient = \<lparr>ccLoginHost = ''http://m'', ccSPABase = ''http://m'', ccSPAAPI = ''http://m/api/v1/spa/'',
     ccUsername = ''mock'', ccPassword = ''mock'', ccVIN = []\<rparr>"

lemma demoMock_good: "goodOptions (mkOpts demoMock)" "goodTTL demoMock" "goodKey (mkKey demoMock)"
proof -
  have "f64_finite (moLatitude mockDefaults)" "f64_finite (moLongitude mockDefaults)" "f64_finite (f64_add (Fin 62) (Fin 1))"
    by code_simp+
  then show "goodOptions (mkOpts demoMock)"
    by (simp add: goodOptions_def demoMock_def mockDefaults_def mockBattery_def)
  have "ttlSeconds (24 * 3600 * nsPerSec) = 86400" by code_simp
  then show "goodTTL demoMock" by (simp add: goodTTL_def mockTTL_def demoMock_def mockDefaults_def Let_def)
qed (simp add: goodKey_def demoMock_def)

lemma mockClient_points: "pointsAt ''http://m'' mockClient" "logsInAt ''http://m'' mockClient"
  by (simp_all add: pointsAt_def logsInAt_def mockClient_def)

theorem mock_status_read_witness:
  "\<exists>st c. cachedStatus AMD64 (mockNet (\<lambda>i. []) ''http://m'' stillNet) mockClient
      \<lparr>vID = ''ID'', vVIN = [], vName = [], vModel = [], vRegDate = [], vType = [], vCCS2ProtocolSupport = 1\<rparr>
      (mc \<lparr>accessToken = ''A'', refreshToken = [], deviceID = ''D'', validUntil = 3600 * nsPerSec\<rparr> demoMock ()) = (Inr st, c)
    \<and> evBatteryPercentage st = Some (Fin 62) \<and> mkForceHits (fst (clWorld c)) = 0 \<and> mkCachedHits (fst (clWorld c)) = 1"
proof -
  let ?v = "\<lparr>vID = ''ID'', vVIN = [], vName = [], vModel = [], vRegDate = [], vType = [], vCCS2ProtocolSupport = 1\<rparr>"
  let ?t = "\<lparr>accessToken = ''A'', refreshToken = [], deviceID = ''D'', validUntil = 3600 * nsPerSec\<rparr>"
  have v: "cleanID (vID ?v)" "isCCS2 ?v" by (simp_all add: cleanID_def isCCS2_def)
  have t: "loggedIn stillNet ?t" by (simp add: loggedIn_def stillNet_def refreshingNet_def tokensValid_def Let_def)
  have s: "\<not> mkFailStatus demoMock" "moCCS2 (mkOpts demoMock)" by (simp_all add: demoMock_def mockDefaults_def)
  show ?thesis
    using mock_status_read [OF mockClient_points(1) v(1) t demoMock_good(1) s v(2), of AMD64 "\<lambda>i. []" False "()"]
    by (simp add: cachedStatus_def mockState_def mockBattery_def counted_def mc_def demoMock_def mockDefaults_def)
qed

theorem mock_first_login_witness:
  "\<exists>c. connect (mockNet (\<lambda>i. []) ''http://m'' stillNet) mockClient (mc tokens0 demoMock ()) = (Inr (), c)
    \<and> mkGrants (fst (clWorld c)) = [''authorization_code'']"
proof -
  have "worksFor stillNet mockClient" by (simp add: worksFor_def stillNet_def refreshingNet_def Let_def)
  from mock_first_login [OF mockClient_points(2) this demoMock_good(2,3), of "()" "\<lambda>i. []"] show ?thesis
    by (auto simp: stillNet_def refreshingNet_def Let_def mc_def demoMock_def)
qed

end
