(* ===== verification/MockCCS1.thy ===== *)
theory MockCCS1
  imports MockClient
begin

text \<open>
  The client against the mock over CCS1: the two shapes the mock serves (the cached read with the
  location and the odometer embedded, the forced one bare, its position from the park endpoint) and
  the state the client makes of them.
\<close>

section \<open>What the CCS1 documents parse to\<close>

definition ccs1Fixed :: "mock_options \<Rightarrow> bool" where
  "ccs1Fixed o' \<longleftrightarrow> f64_ne (moLatitude o') (Fin 0) \<or> f64_ne (moLongitude o') (Fin 0)"

text \<open>The state of the car: no odometer in a forced read, no position at the origin.\<close>

definition ccs1Reading :: "mock_options \<Rightarrow> bool \<Rightarrow> vehicle_state" where
  "ccs1Reading o' forced = emptyState
     \<lparr>evBatteryPercentage := Some (mockBattery o' forced), evRange := Some (moRangeKM o'), evRangeUnit := ''km'',
      charging := Some (0 < moChargeRemainMin o'), pluggedIn := Some (moPluggedIn o'),
      chargeLimitAC := Some (Fin 80), chargeLimitDC := Some (Fin 100),
      estChargeDurationMin := Some (moChargeRemainMin o'), estFastChargeDurationMin := Some 42,
      battery12VPercentage := Some 87,
      odometer := (if forced then None else Some (Fin (42135 / 10))), odometerUnit := (if forced then '''' else ''km''),
      locked := Some True, tirePressureWarning := Some False,
      latitude := (if ccs1Fixed o' then Some (moLatitude o') else None),
      longitude := (if ccs1Fixed o' then Some (moLongitude o') else None),
      locationUpdatedAt := (if ccs1Fixed o' then Some (mockTime False) else None),
      lastUpdatedAt := Some (mockTime forced)\<rparr>"

definition fixDoc :: "mock_options \<Rightarrow> json" where
  "fixDoc o' = JObj [(''coord'', coordDoc o'), (''time'', JStr ''20260710063000'')]"

definition infoDoc :: "mock_options \<Rightarrow> json" where
  "infoDoc o' = JObj [(''vehicleLocation'', fixDoc o'), (''vehicleStatus'', ccs1StatusDoc o' False),
     (''odometer'', JObj [(''value'', JNum (Fin (42135 / 10))), (''unit'', JInt 1)])]"

text \<open>The members of a document, as the decoder hands them to the parser.\<close>

definition members :: "json \<Rightarrow> gomap" where
  "members j = (case anyOf j of JObj kvs \<Rightarrow> kvs | _ \<Rightarrow> [])"

definition infoMap :: "mock_options \<Rightarrow> bool \<Rightarrow> gomap" where
  "infoMap o' forced =
     (if forced then [(''vehicleStatus'', JObj (members (ccs1StatusDoc o' True))), (''vehicleLocation'', JObj (members (fixDoc o')))]
      else members (infoDoc o'))"

lemma ccs1_paths:
  "getPath (infoMap o' forced) ''vehicleStatus'' = JObj (members (ccs1StatusDoc o' forced))"
  "getPath (infoMap o' forced) ''vehicleStatus.evStatus.batteryStatus'' = JNum (mockBattery o' forced)"
  "getPath (infoMap o' forced) ''vehicleStatus.evStatus.drvDistance'' =
     JArr [JObj [(''rangeByFuel'', JObj [(''totalAvailableRange'', JObj [(''value'', JNum (moRangeKM o')), (''unit'', wireInt 1)])]),
       (''type'', wireInt 2)]]"
  "getPath (infoMap o' forced) ''vehicleStatus.evStatus.batteryCharge'' = JBool (0 < moChargeRemainMin o')"
  "getPath (infoMap o' forced) ''vehicleStatus.evStatus.batteryPlugin'' = wireInt (flag01 (moPluggedIn o'))"
  "getPath (infoMap o' forced) ''vehicleStatus.evStatus.reservChargeInfos.targetSOClist'' =
     JArr [JObj [(''targetSOClevel'', wireInt 100), (''plugType'', wireInt 0)],
       JObj [(''targetSOClevel'', wireInt 80), (''plugType'', wireInt 1)]]"
  "getPath (infoMap o' forced) ''vehicleStatus.evStatus.remainTime2.atc.value'' = wireInt (moChargeRemainMin o')"
  "getPath (infoMap o' forced) ''vehicleStatus.evStatus.remainTime2.etc3.value'' = wireInt 42"
  "getPath (infoMap o' forced) ''vehicleStatus.battery.batSoc'' = wireInt 87"
  "getPath (infoMap o' forced) ''vehicleStatus.doorLock'' = JBool True"
  "getPath (infoMap o' forced) ''vehicleStatus.time'' = JStr (if forced then ''20260710050000'' else ''20260710063000'')"
  "getPath (infoMap o' forced) ''vehicleStatus.tirePressureLamp.tirePressureLampAll'' = wireInt 0"
  unfolding infoMap_def infoDoc_def members_def ccs1StatusDoc_def getPath_def obj1_def
  by (cases forced; simp add: wireInt_any del: anyOf.simps(4))+

lemma ccs1_absent_lamps:
  "getPath (infoMap o' forced) ''vehicleStatus.tirePressureLamp.tirePressureLampFL'' = JNull"
  "getPath (infoMap o' forced) ''vehicleStatus.tirePressureLamp.tirePressureLampFR'' = JNull"
  "getPath (infoMap o' forced) ''vehicleStatus.tirePressureLamp.tirePressureLampRL'' = JNull"
  "getPath (infoMap o' forced) ''vehicleStatus.tirePressureLamp.tirePressureLampRR'' = JNull"
  unfolding infoMap_def infoDoc_def members_def ccs1StatusDoc_def getPath_def obj1_def
  by (cases forced; simp add: wireInt_any del: anyOf.simps(4))+

lemma ccs1_other_paths:
  "getPath (infoMap o' forced) ''odometer.value'' = (if forced then JNull else JNum (Fin (42135 / 10)))"
  "getPath (infoMap o' forced) ''odometer.unit'' = (if forced then JNull else wireInt 1)"
  "getPath (infoMap o' forced) ''vehicleLocation.coord.lat'' = JNum (moLatitude o')"
  "getPath (infoMap o' forced) ''vehicleLocation.coord.lon'' = JNum (moLongitude o')"
  "getPath (infoMap o' forced) ''vehicleLocation.time'' = JStr ''20260710063000''"
  unfolding infoMap_def infoDoc_def members_def fixDoc_def coordDoc_def getPath_def
  by (cases forced; simp add: wireInt_any del: anyOf.simps(4))+

lemma ccs1Dates:
  "parseBluelinkTime ''20260710050000'' = Some (mockTime True)"
  "parseBluelinkTime ''20260710063000'' = Some (mockTime False)"
  by code_simp+

lemma ccs1_parse:
  assumes "\<bar>moChargeRemainMin o'\<bar> \<le> 2 ^ 53"
  shows "parseCCS1 a (infoMap o' forced) = Inr (ccs1Reading o' forced)"
proof -
  let ?m = "infoMap o' forced"
  note remain = asFloat_wire [OF assms] truncInt_small [OF assms]
  have rng: "ccs1Range a ?m = (Some (moRangeKM o'), ''km'')"
    unfolding ccs1Range_def ccs1_paths by (simp add: distanceUnit_def getFloat_def getInt_def getPath_def)
  have lim: "ccs1Limits a ?m = (Some (Fin 80), Some (Fin 100))"
    unfolding ccs1Limits_def ccs1_paths by (simp add: getFloat_def getInt_def getPath_def)
  have loc: "ccs1Location ?m = (if ccs1Fixed o' then (Some (moLatitude o'), Some (moLongitude o'), Some (mockTime False))
      else (None, None, None))"
    by (simp add: ccs1Location_def getFloat_def getString_def ccs1_other_paths ccs1Dates ccs1Fixed_def)
  have soc: "normalizeBatterySoC a (Some (Fin 87)) None = Some 87" by (simp add: normalizeBatterySoC_def)
  have tire: "ccs1TireWarning a ?m = Some False"
    by (simp add: ccs1TireWarning_def ccs1LampPaths_def getInt_def ccs1_paths ccs1_absent_lamps)
  have flag: "flag01 b \<noteq> 0 \<longleftrightarrow> b" for b by (simp add: flag01_def)
  have st: "parseBluelinkTime (getString ?m ''vehicleStatus.time'') = Some (mockTime forced)"
    by (cases forced) (simp_all add: getString_def ccs1_paths ccs1Dates)
  have odo: "getFloat ?m ''odometer.value'' = (if forced then None else Some (Fin (42135 / 10)))"
    "distanceUnit (getInt a ?m ''odometer.unit'') = (if forced then '''' else ''km'')"
    by (simp_all add: getFloat_def getInt_def ccs1_other_paths distanceUnit_def)
  show ?thesis
    unfolding parseCCS1_def rng lim loc st odo tire
    by (simp add: ccs1Reading_def emptyState_def remain soc flag getFloat_def getInt_def getBool_def ccs1_paths)
qed

section \<open>Status reads\<close>

lemma members_eq:
  "anyOf (ccs1StatusDoc o' forced) = JObj (members (ccs1StatusDoc o' forced))" "anyOf (infoDoc o') = JObj (members (infoDoc o'))"
  "anyOf (fixDoc o') = JObj (members (fixDoc o'))"
  by (simp_all add: members_def ccs1StatusDoc_def infoDoc_def fixDoc_def)

lemma ccs1_finite:
  assumes "goodOptions o'"
  shows "numsFinite (ccs1StatusDoc o' forced)" "numsFinite (fixDoc o')" "numsFinite (infoDoc o')"
proof -
  show 1: "numsFinite (ccs1StatusDoc o' forced)" for forced
    using battery_finite [OF assms, of forced] assms
    by (simp add: ccs1StatusDoc_def obj1_def goodOptions_def del: numsFinite.simps(4))
  show 2: "numsFinite (fixDoc o')" using assms by (simp add: fixDoc_def coordDoc_def goodOptions_def del: numsFinite.simps(4))
  show "numsFinite (infoDoc o')" using 1 2 by (simp add: infoDoc_def del: numsFinite.simps(4))
qed

lemma decMap_doc: "numsFinite j \<Longrightarrow> anyOf j = JObj (members j) \<Longrightarrow> decMap j = Some (Some (members j))"
  by (cases j) (auto simp: decMap_def)

lemma ccs1_decoded:
  assumes "goodOptions o'"
  shows "decMap (ccs1StatusDoc o' forced) = Some (Some (members (ccs1StatusDoc o' forced)))"
    "decMap (fixDoc o') = Some (Some (members (fixDoc o')))" "decMap (infoDoc o') = Some (Some (members (infoDoc o')))"
  by (simp_all add: decMap_doc ccs1_finite [OF assms] members_eq)

definition gpsDoc :: "mock_options \<Rightarrow> json" where
  "gpsDoc o' = JObj [(''retCode'', JStr ''S''), (''resMsg'', obj1 ''gpsDetail'' (fixDoc o'))]"

lemma carStatusCCS1_eq:
  "carStatusCCS1 o' forced = JObj [(''retCode'', JStr ''S''),
     (''resMsg'', if forced then ccs1StatusDoc o' True else obj1 ''vehicleStatusInfo'' (infoDoc o'))]"
  by (simp add: carStatusCCS1_def infoDoc_def fixDoc_def)

lemma envelope_ok: "checkEnvelope (Doc (JObj [(''retCode'', JStr ''S''), (''resMsg'', x)])) = Inr ()"
  by (cases x) (simp_all add: checkEnvelope_def Let_def equalFold_def lower_def lowerc_def)

lemma ccs1_replies:
  assumes "goodOptions o'"
  shows "numsFinite (carStatusCCS1 o' forced)" "numsFinite (gpsDoc o')"
    "checkEnvelope (Doc (carStatusCCS1 o' forced)) = Inr ()" "checkEnvelope (Doc (gpsDoc o')) = Inr ()"
    "decStatusCCS1 (carStatusCCS1 o' False) = Some (Some (infoMap o' False))"
    "decForceCCS1 (carStatusCCS1 o' True) = Some (Some (members (ccs1StatusDoc o' True)))"
    "decParkCCS1 (gpsDoc o') = Some (Some (members (fixDoc o')))"
  by (simp_all add: carStatusCCS1_eq gpsDoc_def obj1_def ccs1_finite [OF assms] ccs1_decoded [OF assms] envelope_ok
      decStatusCCS1_def decForceCCS1_def decParkCCS1_def decStruct_def decField_def decPath1_def infoMap_def
      equalFold_def lower_def lowerc_def)

lemma statusCCS1_mock:
  assumes "pointsAt base cfg" and "cleanID (vID v)" and "loggedIn n t" and "goodOptions (mkOpts s)"
    and "\<not> mkFailStatus s" and "\<not> moCCS2 (mkOpts s)"
  shows "fetchStatusCCS1 a (mockNet ent base n) cfg v force (mc t s w) =
    (Inr (ccs1Reading (mkOpts s) force), mc t (counted force s) (ticked n (if force then 4 else 2) w))"
proof -
  let ?o = "mkOpts s"
  have parse: "parseCCS1 a (infoMap ?o f) = Inr (ccs1Reading ?o f)" for f
    using assms(4) by (intro ccs1_parse) (simp add: goodOptions_def)
  show ?thesis
  proof (cases force)
    case False
    have "mockDo ent base (apiRequest cfg (vehiclePath v ''/status/latest'') (vCCS2ProtocolSupport v) t st) s =
        (Inr (writeJSON 200 (carStatusCCS1 ?o False)), counted False s)" for st
      using assms(5) by (simp add: mock_status_routes [OF assms(1,2)] handleCachedCCS1_def statusReply_def counted_def)
    then have "authedGet (mockNet ent base n) cfg (vehiclePath v ''/status/latest'') (vCCS2ProtocolSupport v) decStatusCCS1 (mc t s w) =
        (Inr (Some (infoMap ?o False)), mc t (counted False s) (ticked n 2 w))"
      by (rule authedGet_mock [OF assms(3)]) (rule ccs1_replies [OF assms(4)])+
    with False show ?thesis
      by (simp add: fetchStatusCCS1_def cachedStatusCCS1_def bindOp_def wrapErr_def parse liftSum_def)
  next
    case True
    have "mockDo ent base (apiRequest cfg (vehiclePath v ''/status'') (vCCS2ProtocolSupport v) t st) s =
        (Inr (writeJSON 200 (carStatusCCS1 ?o True)), counted True s)" for st
      using assms(5) by (simp add: mock_status_routes [OF assms(1,2)] handleForceCCS1_def statusReply_def counted_def)
    then have 1: "authedGet (mockNet ent base n) cfg (vehiclePath v ''/status'') (vCCS2ProtocolSupport v) decForceCCS1 (mc t s w) =
        (Inr (Some (members (ccs1StatusDoc ?o True))), mc t (counted True s) (ticked n 2 w))"
      by (rule authedGet_mock [OF assms(3)]) (rule ccs1_replies [OF assms(4)])+
    have "mockDo ent base (apiRequest cfg (vehiclePath v ''/location/park'') (vCCS2ProtocolSupport v) t st) (counted True s) =
        (Inr (writeJSON 200 (gpsDoc ?o)), counted True s)" for st
      using assms(6) by (simp add: mock_status_routes [OF assms(1,2)] handleLocation_def gpsDoc_def fixDoc_def Let_def)
    then have 2: "authedGet (mockNet ent base n) cfg (vehiclePath v ''/location/park'') (vCCS2ProtocolSupport v) decParkCCS1
        (mc t (counted True s) (ticked n 2 w)) =
        (Inr (Some (members (fixDoc ?o))), mc t (counted True s) (ticked n 2 (ticked n 2 w)))"
      by (rule authedGet_mock [OF assms(3)]) (rule ccs1_replies [OF assms(4)])+
    have "parseCCS1 a [(''vehicleStatus'', JObj (members (ccs1StatusDoc ?o True))), (''vehicleLocation'', JObj (members (fixDoc ?o)))] =
        Inr (ccs1Reading ?o True)"
      using parse [of True] by (simp add: infoMap_def)
    with True show ?thesis
      by (simp add: fetchStatusCCS1_def forceStatusCCS1_def bindOp_def wrapErr_def tryOp_def parkLocationCCS1_def 1 2 liftSum_def)
  qed
qed

section \<open>Either protocol\<close>

text \<open>What a status read returns, and the readings of the clock it takes.\<close>

definition mockReading :: "mock_options \<Rightarrow> bool \<Rightarrow> vehicle_state" where
  "mockReading o' force =
     (if moCCS2 o'
      then mockState o' force\<lparr>latitude := Some (moLatitude o'), longitude := Some (moLongitude o'),
        locationUpdatedAt := Some (mockTime False)\<rparr>
      else ccs1Reading o' force)"

definition clockReads :: "mock_options \<Rightarrow> bool \<Rightarrow> nat" where
  "clockReads o' force = (if \<not> moCCS2 o' \<and> \<not> force then 2 else 4)"

lemma fetchStatus_mock:
  assumes "pointsAt base cfg" and "cleanID (vID v)" and "loggedIn n t" and "goodOptions (mkOpts s)"
    and "\<not> mkFailStatus s" and "isCCS2 v = moCCS2 (mkOpts s)"
  shows "fetchStatus a (mockNet ent base n) cfg v force (mc t s w) =
    (Inr (mockReading (mkOpts s) force), mc t (counted force s) (ticked n (clockReads (mkOpts s) force) w))"
  using statusCCS2_mock [OF assms(1-5), of a ent force w] statusCCS1_mock [OF assms(1-5), of a ent force w] assms(6)
  by (simp add: fetchStatus_def mockReading_def clockReads_def)

end
