(* ===== verification/Pipeline.thy ===== *)
theory Pipeline
  imports Serve MockCCS1
begin

text \<open>
  The service against the mock, from the HTTP handlers of \<open>internal/mock\<close> to the messages a broker
  keeps and the state of the status server: one poll, one daily refresh, and a poll while the mock's
  status endpoints fail. The \<open>mock\<close> command (\<open>internal/cmd/mock.go\<close>) is at the beginning.
\<close>

section \<open>The mock command\<close>

definition mockAddr :: string where
  "mockAddr = '':8090''"

definition mockOptionsOf :: "bool \<Rightarrow> mock_options" where
  "mockOptionsOf ccs1 = mockDefaults\<lparr>moCCS2 := \<not> ccs1\<rparr>"

text \<open>How the command leaves its select: what the listener returned, or the signal.\<close>

datatype mock_end = ServeEnded "gerr option" | MockSignalled

text \<open>\<open>lateErr\<close> is what the listener sends once it is shut down.\<close>

definition runMock :: "gerr + rsa_key \<Rightarrow> bool \<Rightarrow> mock_end \<Rightarrow> gerr option \<Rightarrow> gerr option \<Rightarrow> gerr option" where
  "runMock generated ccs1 e shutErr lateErr =
     (case newMock generated (mockOptionsOf ccs1) of
        Inl err \<Rightarrow> Some (Wrapped ''build mock'' err)
      | Inr srv \<Rightarrow>
          (case e of
             ServeEnded r \<Rightarrow> r
           | MockSignalled \<Rightarrow> (case shutErr of Some err \<Rightarrow> Some err | None \<Rightarrow> lateErr)))"

section \<open>A state of the whole\<close>

text \<open>The service whose client talks to the mock and whose broker keeps the last message of a topic.\<close>

definition wired :: "tokens \<Rightarrow> mock \<Rightarrow> 'w \<Rightarrow> server \<Rightarrow> recorder \<Rightarrow> 'c \<Rightarrow> (mock \<times> 'w, recorder, 'c) service" where
  "wired t k w sv b c = \<lparr>syClient = mc t k w, syServer = sv, syBroker = b, syClock = c\<rparr>"

text \<open>The configurations of the properties: the mock's car, on the protocol the mock serves, and a client logged in.\<close>

definition readsMock :: "string \<Rightarrow> 'w net \<Rightarrow> client_config \<Rightarrow> sched_config \<Rightarrow> tokens \<Rightarrow> mock \<Rightarrow> bool" where
  "readsMock base n cc cfg t k \<longleftrightarrow> pointsAt base cc \<and> cleanID (vID (sdVehicle cfg))
     \<and> isCCS2 (sdVehicle cfg) = moCCS2 (mkOpts k) \<and> loggedIn n t \<and> goodOptions (mkOpts k) \<and> 0 \<le> sdMaxRetries cfg"

text \<open>The messages after a state was published over the messages \<open>view\<close>.\<close>

definition published :: "ha_config \<Rightarrow> vehicle_state \<Rightarrow> json \<Rightarrow> (string \<Rightarrow> (payload \<times> bool) option) \<Rightarrow> string \<Rightarrow> (payload \<times> bool) option" where
  "published ha st d view = (withAttributes ha st (view(stateTopic ha \<mapsto> (Doc d, True))))(trackerStateTopic ha \<mapsto> (Text ''None'', True))"

section \<open>Facts\<close>

lemma fetch_mock:
  assumes "readsMock base n cc cfg t k" and "\<not> mkFailStatus k"
  shows "fetchOnce (serviceEnv a (mockNet ent base n) cc pub ha rt) cfg force (wired t k w sv b c) =
    (Inr (mockReading (mkOpts k) force), wired t (counted force k) (ticked n (clockReads (mkOpts k) force) w) sv b c)"
proof -
  have "fetchStatus a (mockNet ent base n) cc (sdVehicle cfg) force (mc t k w) =
      (Inr (mockReading (mkOpts k) force), mc t (counted force k) (ticked n (clockReads (mkOpts k) force) w))"
    using assms unfolding readsMock_def by (intro fetchStatus_mock) auto
  then show ?thesis
    by (cases force) (simp_all add: fetchOnce_def serviceEnv_def onClient_def cachedStatus_def forceStatus_def wired_def)
qed

lemma retry_mock:
  assumes "readsMock base n cc cfg t k" and "\<not> mkFailStatus k"
  shows "fetchWithRetry (serviceEnv a (mockNet ent base n) cc pub ha rt) cfg force (wired t k w sv b c) =
    (Inr (mockReading (mkOpts k) force), wired t (counted force k) (ticked n (clockReads (mkOpts k) force) w) sv b c)"
  using assms(1) unfolding fetchWithRetry_def
  by (subst retryLoop.simps) (simp add: fetch_mock [OF assms] readsMock_def)

lemma finish_mock:
  assumes "marshalState (inDistanceUnit st (haDistanceUnit ha)) = Inr d"
  shows "\<exists>b'. finish (serviceEnv a net cc recPublish ha rt) (Inr st, wired t k w sv b c) =
      wired t k w (markSuccess (setMetrics (metricsFromState st) sv)) b' c
    \<and> recGet b' = published ha (inDistanceUnit st (haDistanceUnit ha)) d (recGet b)"
proof -
  obtain b' where "publishState recPublish ha st b = (Inr (), b')"
    and "recGet b' = published ha (inDistanceUnit st (haDistanceUnit ha)) d (recGet b)"
    using publishState_recorded [OF assms, of b] unfolding published_def by blast
  then show ?thesis
    by (intro exI [of _ b'])
       (simp add: finish_def serviceEnv_def recordingPublishState_def onBroker_def onServer_def wired_def)
qed

text \<open>While the status endpoints fail: every attempt is one more read, and an error.\<close>

definition statusPath :: "vehicle \<Rightarrow> bool \<Rightarrow> string" where
  "statusPath v force = vehiclePath v
     (if isCCS2 v then (if force then ''/ccs2/carstatus'' else ''/ccs2/carstatus/latest'')
      else (if force then ''/status'' else ''/status/latest''))"

definition outageError :: "vehicle \<Rightarrow> bool \<Rightarrow> gerr" where
  "outageError v force = Wrapped (if isCCS2 v then ''fetch status'' else ''fetch CCS1 status'')
     (Err (''GET '' @ statusPath v force @ '': HTTP 500''))"

lemma rawGet_failing:
  assumes "readsMock base n cc cfg t k" and "mkFailStatus k"
  shows "rawGet (mockNet ent base n) cc (statusPath (sdVehicle cfg) force) ccs2 t (mc t k w) =
    (Inr (Text (''upstream error'' @ [CHR 0x0A]), 500), mc t (counted force k) (ticked n 1 w))"
proof -
  obtain st where st: "stamp (fst (netNow n w)) = Inr st" using stamp_ok by blast
  have "pointsAt base cc" "cleanID (vID (sdVehicle cfg))" using assms(1) by (simp_all add: readsMock_def)
  then have "mockDo ent base (apiRequest cc (statusPath (sdVehicle cfg) force) ccs2 t st) k =
      (Inr (httpError 500 ''upstream error''), counted force k)"
    using assms(2) unfolding statusPath_def
    by (cases force) (simp_all add: mock_status_routes handleCached_def handleForce_def handleCachedCCS1_def handleForceCCS1_def
          statusReply_def counted_def)
  then have "liftOp (netDo (mockNet ent base n) (apiRequest cc (statusPath (sdVehicle cfg) force) ccs2 t st)) (mc t k x) =
      (Inr (httpError 500 ''upstream error''), mc t (counted force k) x)" for x
    by (simp add: liftOp_def mockNet_def onFst_def mc_def)
  then show ?thesis by (simp add: rawGet_def now_run bindOp_def st httpError_def)
qed

lemma fetch_failing:
  assumes "readsMock base n cc cfg t k" and "mkFailStatus k"
  shows "fetchOnce (serviceEnv a (mockNet ent base n) cc pub ha rt) cfg force (wired t k w sv b c) =
    (Inl (outageError (sdVehicle cfg) force), wired t (counted force k) (ticked n 2 w) sv b c)"
proof -
  have log: "loggedIn n t" using assms(1) by (simp add: readsMock_def)
  have "itoa 500 = ''500''" by code_simp
  then have "doAuthedGet (mockNet ent base n) cc (statusPath (sdVehicle cfg) force) ccs2 (mc t k w) =
      (Inl (Err (''GET '' @ statusPath (sdVehicle cfg) force @ '': HTTP 500'')), mc t (counted force k) (ticked n 2 w))" for ccs2
    by (simp add: doAuthedGet_def bindOp_def ensure_ready [OF log] rawGet_failing [OF assms] numeral_2_eq_2)
  then have "fetchStatus a (mockNet ent base n) cc (sdVehicle cfg) force (mc t k w) =
      (Inl (outageError (sdVehicle cfg) force), mc t (counted force k) (ticked n 2 w))"
    by (cases force; cases "isCCS2 (sdVehicle cfg)")
       (simp_all add: fetchStatus_def statusCCS2_def fetchStatusCCS1_def cachedStatusCCS1_def forceStatusCCS1_def statusPath_def
          bindOp_def wrapErr_def authedGet_def outageError_def)
  then show ?thesis
    by (cases force) (simp_all add: fetchOnce_def serviceEnv_def onClient_def cachedStatus_def forceStatus_def wired_def)
qed

lemma counted_fail [simp]: "mkFailStatus (counted force k) = mkFailStatus k"
  by (simp add: counted_def)

lemma readsMock_counted [simp]: "readsMock base n cc cfg t (counted force k) = readsMock base n cc cfg t k"
  by (simp add: readsMock_def)

text \<open>A context that is never done, and timers that fire on time.\<close>

lemma contextRuntime_never [simp]:
  "rtAfter (contextRuntime None) d c = (False, c + max 0 d)" "rtTick (contextRuntime None) d c = (False, c + max 0 d)"
  "rtCtxErr (contextRuntime None) c = None"
  by (simp_all add: contextRuntime_def Let_def)

lemma outage_retries:
  assumes "j \<le> R" and "R \<le> 33" and "sdMaxRetries cfg = int R" and "readsMock base n cc cfg t k" and "mkFailStatus k"
  shows "retryLoop (serviceEnv a (mockNet ent base n) cc pub ha (contextRuntime None)) cfg force (int (Suc j)) (2 ^ j * nsPerSec)
      (Some (outageError (sdVehicle cfg) force)) (wired t k w sv b c) =
    (Inl (outageError (sdVehicle cfg) force),
     wired t ((counted force ^^ (R - j)) k) (ticked n (2 * (R - j)) w) sv b (c + (2 ^ R - 2 ^ j) * nsPerSec))"
  using assms
proof (induction "R - j" arbitrary: j k w c)
  case 0
  then show ?case by (subst retryLoop.simps) (simp add: zeroWith_def ticked_def)
next
  case (Suc d)
  let ?env = "serviceEnv a (mockNet ent base n) cc pub ha (contextRuntime None)"
  have wait: "seAfter ?env (2 ^ j * nsPerSec) (wired t k w sv b c) = (False, wired t k w sv b (c + 2 ^ j * nsPerSec))"
    by (simp add: serviceEnv_def onClock_def wired_def)
  have alive: "seCtxErr ?env s = None" for s by (simp add: serviceEnv_def)
  have j: "Suc j \<le> 33" "Suc j \<le> R" "R - j = Suc (R - Suc j)" "d = R - Suc j" using Suc.prems(1,2) Suc.hyps(2) by auto
  have "doubled nsPerSec (Suc j) = wrap64 (doubled nsPerSec j * 2)" by (simp add: doubled_def)
  then have twice: "wrap64 (2 ^ j * nsPerSec * 2) = 2 ^ Suc j * nsPerSec"
    using doubled_seconds [of "Suc j"] doubled_seconds [of j] j(1) by simp
  have "retryLoop ?env cfg force (int (Suc j)) (2 ^ j * nsPerSec) (Some (outageError (sdVehicle cfg) force)) (wired t k w sv b c) =
      retryLoop ?env cfg force (int (Suc (Suc j))) (2 ^ Suc j * nsPerSec) (Some (outageError (sdVehicle cfg) force))
        (wired t (counted force k) (ticked n 2 w) sv b (c + 2 ^ j * nsPerSec))"
    using twice Suc.prems(3) j(2)
    by (subst retryLoop.simps) (simp add: Let_def wait alive fetch_failing [OF Suc.prems(4,5)] add.commute)
  also have "\<dots> = (Inl (outageError (sdVehicle cfg) force),
     wired t ((counted force ^^ (R - Suc j)) (counted force k)) (ticked n (2 * (R - Suc j)) (ticked n 2 w)) sv b
       (c + 2 ^ j * nsPerSec + (2 ^ R - 2 ^ Suc j) * nsPerSec))"
    using Suc.prems by (intro Suc.hyps(1)) (simp_all add: j)
  finally show ?case by (simp add: j(3) funpow_swap1 algebra_simps)
qed

lemma outage_fetch:
  assumes "sdMaxRetries cfg = int R" and "R \<le> 33" and "readsMock base n cc cfg t k" and "mkFailStatus k"
  shows "fetchWithRetry (serviceEnv a (mockNet ent base n) cc pub ha (contextRuntime None)) cfg force (wired t k w sv b c) =
    (Inl (outageError (sdVehicle cfg) force),
     wired t ((counted force ^^ Suc R) k) (ticked n (2 * Suc R) w) sv b (c + (2 ^ R - 1) * nsPerSec))"
proof -
  let ?env = "serviceEnv a (mockNet ent base n) cc pub ha (contextRuntime None)"
  have alive: "seCtxErr ?env s = None" for s by (simp add: serviceEnv_def)
  have "fetchWithRetry ?env cfg force (wired t k w sv b c) =
      retryLoop ?env cfg force (int (Suc 0)) (2 ^ 0 * nsPerSec) (Some (outageError (sdVehicle cfg) force))
        (wired t (counted force k) (ticked n 2 w) sv b c)"
    unfolding fetchWithRetry_def
    by (subst retryLoop.simps) (simp add: Let_def assms(1) alive fetch_failing [OF assms(3,4)])
  also have "\<dots> = (Inl (outageError (sdVehicle cfg) force),
      wired t ((counted force ^^ R) (counted force k)) (ticked n (2 * R) (ticked n 2 w)) sv b (c + (2 ^ R - 2 ^ 0) * nsPerSec))"
    using outage_retries [of 0 R cfg base n cc t "counted force k" a ent pub ha force "ticked n 2 w" sv b c] assms by simp
  finally show ?thesis by (simp add: funpow_swap1)
qed

lemma counted_hits: "(counted force ^^ i) k =
    (if force then k\<lparr>mkForceHits := mkForceHits k + i\<rparr> else k\<lparr>mkCachedHits := mkCachedHits k + i\<rparr>)"
proof (cases force)
  case True
  then show ?thesis by (induction i) (simp_all add: counted_def)
next
  case False
  then show ?thesis by (induction i) (simp_all add: counted_def)
qed

lemma outage_poll:
  assumes "sdMaxRetries cfg = int R" and "R \<le> 33" and "readsMock base n cc cfg t k" and "mkFailStatus k"
  shows "poll (serviceEnv a (mockNet ent base n) cc pub ha (contextRuntime None)) cfg (wired t k w sv b c) =
    wired t (k\<lparr>mkCachedHits := mkCachedHits k + (R + 1)\<rparr>) (ticked n (2 * (R + 1)) w) (markFailure sv) b
      (c + (2 ^ R - 1) * nsPerSec)"
  unfolding poll_def outage_fetch [OF assms]
  by (simp add: finish_def serviceEnv_def onServer_def wired_def counted_hits del: funpow.simps)

lemma outage_polls:
  assumes "sdMaxRetries cfg = int R" and "R \<le> 33" and "readsMock base n cc cfg t k" and "mkFailStatus k"
  shows "(poll (serviceEnv a (mockNet ent base n) cc pub ha (contextRuntime None)) cfg ^^ m) (wired t k w sv b c) =
    wired t (k\<lparr>mkCachedHits := mkCachedHits k + m * (R + 1)\<rparr>) (ticked n (m * (2 * (R + 1))) w) ((markFailure ^^ m) sv) b
      (c + int m * ((2 ^ R - 1) * nsPerSec))"
proof (induction m)
  case 0
  show ?case by (simp add: ticked_def)
next
  case (Suc m)
  have k: "readsMock base n cc cfg t (k\<lparr>mkCachedHits := h\<rparr>)" "mkFailStatus (k\<lparr>mkCachedHits := h\<rparr>)" for h
    using assms(3,4) by (simp_all add: readsMock_def)
  show ?case
    by (simp only: funpow.simps o_apply Suc.IH outage_poll [OF assms(1,2) k]) (simp add: algebra_simps)
qed

lemma failures_ready:
  "isReady ((markFailure ^^ m) sv) = (isReady sv \<and> (m = 0 \<or> sConsecutiveFailures sv + int m < sThreshold sv))
    \<and> sConsecutiveFailures ((markFailure ^^ m) sv) = sConsecutiveFailures sv + int m \<and> sThreshold ((markFailure ^^ m) sv) = sThreshold sv"
  by (induction m) (auto simp: markFailure_def isReady_def Let_def)

lemma failures_metrics: "sMetrics ((markFailure ^^ m) sv) = sMetrics sv"
  by (induction m) (auto simp: markFailure_def Let_def)

lemma seCached_fetch: "seCached env (sdVehicle cfg) = fetchOnce env cfg False"
  by (simp add: fetchOnce_def)

text \<open>Every reading of a mock with good options has a JSON document.\<close>

lemma mockReading_encodable: "goodOptions o' \<Longrightarrow> encodable (mockReading o' force)"
proof -
  assume good: "goodOptions o'"
  have t: "marshalTime (mockTime True) \<noteq> None" "marshalTime (mockTime False) \<noteq> None" by code_simp+
  have "f64_finite (fl (72 / 10))" by code_simp
  with good battery_finite [OF good, of force] t show ?thesis
    by (cases force) (auto simp: encodable_def stateFields_def mockReading_def mockState_def ccs1Reading_def emptyState_def goodOptions_def
        encFloat_def encTime_def encString_def encBool_def encInt_def split: option.splits)
qed

text \<open>The instance of the examples: the default mock, a client with tokens for an hour, a clock that stands.\<close>

definition demoHA :: ha_config where
  "demoHA = \<lparr>haDiscoveryPrefix = ''homeassistant'', haTopicPrefix = ''hyundai_bluelink'', haVIN = ''REDACTEDVIN000001'',
     haModel = ''INSTER'', haName = ''Inster'', haDistanceUnit = ''km''\<rparr>"

definition demoServer :: server where
  "demoServer = newServer \<lparr>readyFailureThreshold = 3, scPollInterval = 2700 * nsPerSec, scForceEnabled = True,
     scForceHour = 5, scForceMinute = 0, scForceLocation = None\<rparr> 0"

definition demoWired :: "mock \<Rightarrow> (mock \<times> unit, recorder, int) service" where
  "demoWired k = wired demoTokens k () demoServer newRecorder 0"

definition demoEnv :: "(mock \<times> unit, recorder, int) service sched_env" where
  "demoEnv = serviceEnv AMD64 (mockNet (\<lambda>i. []) ''http://m'' stillNet) mockClient recPublish demoHA (contextRuntime None)"

lemma demo_readsMock: "readsMock ''http://m'' stillNet mockClient demoConfig demoTokens demoMock"
  using demoMock_good(1) mockClient_points(1)
  by (simp add: readsMock_def demoConfig_def cleanID_def isCCS2_def loggedIn_def stillNet_def refreshingNet_def tokensValid_def
      demoTokens_def demoMock_def mockDefaults_def Let_def)

lemma demo_answers: "\<not> mkFailStatus demoMock"
  by (simp add: demoMock_def)

lemma demo_marshals:
  "\<exists>d. marshalState (inDistanceUnit (mockReading (mkOpts demoMock) force) (haDistanceUnit demoHA)) = Inr d"
proof -
  have "inDistanceUnit (mockReading (mkOpts demoMock) force) (haDistanceUnit demoHA) = mockReading (mkOpts demoMock) force"
    by (simp add: inDistanceUnit_def convertDistanceField_def mockReading_def mockState_def ccs1Reading_def emptyState_def demoHA_def)
  with mockReading_encodable [OF demoMock_good(1)] encodable_marshal show ?thesis by metis
qed

end
