(* ===== verification/Session.thy ===== *)
theory Session
  imports Serve Concurrent
begin

text \<open>
  \<open>runServe\<close> after its start (\<open>internal/cmd/serve.go\<close>): the scheduler's goroutines, the goroutine of
  \<open>runServe\<close> itself with its select and the shutdown, and the callbacks that connection-ups start,
  taking turns at any step over one state. What ends up on the availability topic and that the
  shutdown comes to its end, in whatever order the steps come.
\<close>

section \<open>The goroutines\<close>

datatype main_pc =
    Serving                   \<comment> \<open>in the select on \<open>healthErr\<close> and \<open>ctx.Done()\<close>\<close>
  | Offlining                 \<comment> \<open>before \<open>PublishAvailability(false)\<close>\<close>
  | Disconnecting             \<comment> \<open>before \<open>Disconnect\<close>\<close>
  | Joining                   \<comment> \<open>at \<open><-schedDone\<close>\<close>
  | Ended "gerr + unit"       \<comment> \<open>returned after the shutdown\<close>
  | Failed gerr               \<comment> \<open>returned because the health listener failed\<close>

text \<open>A callback of a connection-up: before its first publish, before its second.\<close>

datatype up_pc = UpOnline | UpDiscovery

record 'w session =
  ssRun :: "'w run_state"
  ssMain :: main_pc
  ssUps :: "up_pc list"

datatype session_step =
  LSched | LSignal | LOffline | LDisconnect | LJoin | LHealth gerr | LUp | LOnline | LDiscovery

definition sessionInit :: "('w, 'm) running \<Rightarrow> 's \<Rightarrow> 's session" where
  "sessionInit r s = \<lparr>ssRun = runInit (rnSched r) s, ssMain = Serving, ssUps = []\<rparr>"

definition sessionEnv ::
  "goarch \<Rightarrow> ('w, 'm, 'u) deps \<Rightarrow> ('w, 'm) running \<Rightarrow> 'c runtime \<Rightarrow> ('w, 'm, 'c) service sched_env" where
  "sessionEnv a d r rt = serviceEnv a (rnNet r) (rnClient r) (mqttPublish (dpPublish d)) (rnHA r) rt"

definition sessionWorld :: "('s \<Rightarrow> 's) \<Rightarrow> 's session \<Rightarrow> 's session" where
  "sessionWorld f s = s\<lparr>ssRun := (ssRun s)\<lparr>rsWorld := f (rsWorld (ssRun s))\<rparr>\<rparr>"

definition onBroker' :: "('m, gerr, 'a) op \<Rightarrow> ('w, 'm, 'c) service \<Rightarrow> ('w, 'm, 'c) service" where
  "onBroker' m s = snd (onBroker m s)"

text \<open>The process lives until \<open>runServe\<close> returns.\<close>

definition alive :: "'s session \<Rightarrow> bool" where
  "alive s \<longleftrightarrow> (case ssMain s of Ended _ \<Rightarrow> False | Failed _ \<Rightarrow> False | _ \<Rightarrow> True)"

text \<open>
  A loop of the scheduler leaves its select through the context only after the signal; what a cycle sees
  of the context is left to \<open>rt\<close>. Errors of the publishes and of the disconnect are only logged.
\<close>

inductive sessionStep ::
  "goarch \<Rightarrow> ('w, 'm, 'u) deps \<Rightarrow> ('w, 'm) running \<Rightarrow> 'c runtime \<Rightarrow> gerr + unit \<Rightarrow>
    ('w, 'm, 'c) service session \<Rightarrow> session_step \<Rightarrow> ('w, 'm, 'c) service session \<Rightarrow> bool" for a d r rt srvShutdown where
  sched: "alive s \<Longrightarrow> runStep (sessionEnv a d r rt) (rnSched r) (ssRun s) rs \<Longrightarrow>
    \<not> (ssMain s = Serving \<and> (\<exists>t. rsPc (ssRun s) t = Idle \<and> rsPc rs t = Stopped)) \<Longrightarrow>
    sessionStep a d r rt srvShutdown s LSched (s\<lparr>ssRun := rs\<rparr>)"
| signal: "ssMain s = Serving \<Longrightarrow> sessionStep a d r rt srvShutdown s LSignal (s\<lparr>ssMain := Offlining\<rparr>)"
| health: "ssMain s = Serving \<Longrightarrow>
    sessionStep a d r rt srvShutdown s (LHealth e) (s\<lparr>ssMain := Failed (Wrapped ''health server'' e)\<rparr>)"
| offline: "ssMain s = Offlining \<Longrightarrow> sessionStep a d r rt srvShutdown s LOffline
    ((sessionWorld (onBroker' (publishAvailability (mqttPublish (dpPublish d)) (rnHA r) False)) s)\<lparr>ssMain := Disconnecting\<rparr>)"
| disconnect: "ssMain s = Disconnecting \<Longrightarrow> sessionStep a d r rt srvShutdown s LDisconnect
    ((sessionWorld (onBroker' (mqttDisconnect (dpDisconnect d))) s)\<lparr>ssMain := Joining\<rparr>)"
| join: "ssMain s = Joining \<Longrightarrow> \<forall>t. rsPc (ssRun s) t = Stopped \<Longrightarrow>
    sessionStep a d r rt srvShutdown s LJoin (s\<lparr>ssMain := Ended srvShutdown\<rparr>)"
| up: "alive s \<Longrightarrow> sessionStep a d r rt srvShutdown s LUp (s\<lparr>ssUps := UpOnline # ssUps s\<rparr>)"
| online: "alive s \<Longrightarrow> ssUps s = us @ UpOnline # vs \<Longrightarrow> sessionStep a d r rt srvShutdown s LOnline
    ((sessionWorld (onBroker' (publishAvailability (mqttPublish (dpPublish d)) (rnHA r) True)) s)\<lparr>ssUps := us @ UpDiscovery # vs\<rparr>)"
| discovery: "alive s \<Longrightarrow> ssUps s = us @ UpDiscovery # vs \<Longrightarrow> sessionStep a d r rt srvShutdown s LDiscovery
    ((sessionWorld (onBroker' (publishDiscovery (mqttPublish (dpPublish d)) (rnHA r))) s)\<lparr>ssUps := us @ vs\<rparr>)"

inductive sessionRun ::
  "goarch \<Rightarrow> ('w, 'm, 'u) deps \<Rightarrow> ('w, 'm) running \<Rightarrow> 'c runtime \<Rightarrow> gerr + unit \<Rightarrow>
    ('w, 'm, 'c) service session \<Rightarrow> session_step list \<Rightarrow> ('w, 'm, 'c) service session \<Rightarrow> bool" for a d r rt srvShutdown where
  none: "sessionRun a d r rt srvShutdown s [] s"
| snoc: "sessionRun a d r rt srvShutdown s ls s' \<Longrightarrow> sessionStep a d r rt srvShutdown s' l s'' \<Longrightarrow>
    sessionRun a d r rt srvShutdown s (ls @ [l]) s''"

text \<open>\<open>runServe\<close> as a relation between where it starts, what it returns and where it leaves the world.\<close>

inductive runServe ::
  "goarch \<Rightarrow> ('w, 'm, 'u) deps \<Rightarrow> int \<Rightarrow> 'c runtime \<Rightarrow> gerr + unit \<Rightarrow>
    ('w, 'm, 'c) service \<Rightarrow> gerr + unit \<Rightarrow> ('w, 'm, 'c) service \<Rightarrow> bool" for a d now rt srvShutdown s0 where
  start_fails: "startUp d now s0 = (Inl e, s) \<Longrightarrow> runServe a d now rt srvShutdown s0 (Inl e) s"
| shut_down: "startUp d now s0 = (Inr r, s1) \<Longrightarrow> sessionRun a d r rt srvShutdown (sessionInit r s1) ls s \<Longrightarrow>
    ssMain s = Ended y \<Longrightarrow> runServe a d now rt srvShutdown s0 y (rsWorld (ssRun s))"
| listener_failed: "startUp d now s0 = (Inr r, s1) \<Longrightarrow> sessionRun a d r rt srvShutdown (sessionInit r s1) ls s \<Longrightarrow>
    ssMain s = Failed e \<Longrightarrow> runServe a d now rt srvShutdown s0 (Inl e) (rsWorld (ssRun s))"

text \<open>\<open>main\<close>: what a command returned, as the line on standard error and the exit code.\<close>

definition mainExit :: "gerr + unit \<Rightarrow> string option \<times> int" where
  "mainExit r = (case r of Inl e \<Rightarrow> (Some (''error: '' @ errText e), 1) | Inr u \<Rightarrow> (None, 0))"

section \<open>Facts\<close>

text \<open>Offline then disconnect is \<open>shutDown\<close>, online then discovery is \<open>republish\<close>.\<close>

lemma session_shutDown:
  "shutDown d r CtxDone x s = (x, onBroker' (mqttDisconnect (dpDisconnect d))
     (onBroker' (publishAvailability (mqttPublish (dpPublish d)) (rnHA r) False) s))"
  by (simp add: shutDown_def onBroker'_def Let_def)

lemma session_republish:
  "onBroker' (publishDiscovery pub ha) (onBroker' (publishAvailability pub ha True) s) = s\<lparr>syBroker := republish pub ha (syBroker s)\<rparr>"
  by (simp add: onBroker'_def onBroker_def republish_def split: prod.split)

lemma sessionWorld_sel [simp]:
  "ssMain (sessionWorld f s) = ssMain s" "ssUps (sessionWorld f s) = ssUps s"
  "ssRun (sessionWorld f s) = (ssRun s)\<lparr>rsWorld := f (rsWorld (ssRun s))\<rparr>"
  by (simp_all add: sessionWorld_def)

subsection \<open>Availability\<close>

text \<open>The word of the last step that publishes one.\<close>

primrec lastWord :: "string \<Rightarrow> session_step list \<Rightarrow> string" where
  "lastWord x [] = x"
| "lastWord x (l # ls) = lastWord (case l of LOnline \<Rightarrow> ''online'' | LOffline \<Rightarrow> ''offline'' | _ \<Rightarrow> x) ls"

lemma lastWord_snoc [simp]:
  "lastWord x (ls @ [l]) = (case l of LOnline \<Rightarrow> ''online'' | LOffline \<Rightarrow> ''offline'' | _ \<Rightarrow> lastWord x ls)"
  by (induction ls arbitrary: x) (simp_all split: session_step.split)

lemma publishState_silent:
  "publishState recPublish ha st b = (x, b') \<Longrightarrow> availability ha b' = availability ha b"
  using publish_availability_frame(1) [where x = "availability ha b"] by (rule keeps_run) simp_all

interpretation svc_avail: env_rel_cycle "serviceEnv a n cc recPublish ha rt"
    "\<lambda>s s'. availability ha (syBroker s') = availability ha (syBroker s)"
  by unfold_locales
     (auto simp: serviceEnv_def onClient_def onClock_def onServer_def onBroker_def recordingPublishState_def publishState_silent
       split: prod.splits sum.splits)

text \<open>A broker that keeps the last message of every topic, and keeps them when the client leaves.\<close>

definition recording :: "('w, recorder, 'u) deps \<Rightarrow> bool" where
  "recording d \<longleftrightarrow> dpPublish d = (\<lambda>t p q r. recPublish t p r) \<and> (\<forall>b. recGet (snd (dpDisconnect d b)) = recGet b)"

lemma recording_publish:
  assumes "recording d"
  shows "mqttPublish (dpPublish d) = recPublish"
proof (intro ext)
  fix t p r b
  have "dpPublish d t p 1 r = recPublish t p r" using assms by (simp add: recording_def)
  then have "mqttPublish (dpPublish d) t p r b = wrapErr (Wrapped (''mqtt publish '' @ t)) (recPublish t p r) b"
    by (simp add: mqttPublish_def)
  also have "\<dots> = recPublish t p r b" by (rule trans [OF wrapErr_Inr [OF recPublish_run] recPublish_run [symmetric]])
  finally show "mqttPublish (dpPublish d) t p r b = recPublish t p r b" .
qed

lemma broker_world: "syBroker (onBroker' m s) = snd (m (syBroker s))"
  by (simp add: onBroker'_def onBroker_def split: prod.split)

lemma startUp_online:
  assumes "recording d" and "startUp d now s0 = (Inr r, s)"
  shows "availability (rnHA r) (syBroker s) = Some (Text ''online'', True)"
  using assms(2)
proof (rule startUp_InrE)
  fix cfg backend cc v s1 mq b
  assume m: "startMqtt d cfg (haConfigOf cfg v) (syBroker s1) = (Inr mq, b)"
    and r: "r = \<lparr>rnNet = dpNet d backend, rnClient = cc, rnVehicle = v, rnHA = haConfigOf cfg v,
         rnSched = newScheduler (schedConfigOf cfg v), rnMqtt = mq\<rparr>"
    and s: "s = (onServer (setVehicle (vModel v) (vName v) (vVIN v) (isCCS2 v)) s1)\<lparr>syBroker := b\<rparr>"
  from m recording_publish [OF assms(1)] obtain b' where "publishAvailability recPublish (haConfigOf cfg v) True b' = (Inr (), b)"
    unfolding startMqtt_def Let_def by (auto simp: ret_def wrapErr_Inr_iff elim!: bindOp_InrE)
  then have "b = snd (publishAvailability recPublish (haConfigOf cfg v) True b')" by (metis snd_conv)
  then show ?thesis by (simp add: r s publishAvailability_recorded)
qed

text \<open>Whether \<open>runServe\<close> is past its offline message.\<close>

definition saidOffline :: "main_pc \<Rightarrow> bool" where
  "saidOffline m \<longleftrightarrow> (case m of Serving \<Rightarrow> False | Offlining \<Rightarrow> False | Failed _ \<Rightarrow> False | _ \<Rightarrow> True)"

abbreviation brokerOf :: "('w, 'm, 'c) service session \<Rightarrow> 'm" where
  "brokerOf s \<equiv> syBroker (rsWorld (ssRun s))"

lemma session_availability:
  assumes "recording d" and "sessionRun a d r rt x (sessionInit r s0) ls s"
    and "availability (rnHA r) (syBroker s0) = Some (Text ''online'', True)"
  shows "runRel (\<lambda>s s'. availability (rnHA r) (syBroker s') = availability (rnHA r) (syBroker s)) (ssRun s)
    \<and> availability (rnHA r) (brokerOf s) = Some (Text (lastWord ''online'' ls), True)
    \<and> (LOffline \<in> set ls) = saidOffline (ssMain s)"
  using assms(2,3)
proof (induction "sessionInit r s0" ls s rule: sessionRun.induct)
  case none
  then show ?case by (simp add: sessionInit_def runInit_def saidOffline_def runRel_def split: goroutine.split)
next
  case (snoc ls s' l s'')
  note pub = recording_publish [OF assms(1)]
  have disc: "availability (rnHA r) (snd (mqttDisconnect (dpDisconnect d) b)) = availability (rnHA r) b" for b
    using assms(1) by (simp add: recording_def mqttDisconnect_def availability_def)
  have disco: "availability (rnHA r) (snd (publishDiscovery recPublish (rnHA r) b)) = availability (rnHA r) b" for b
    by (rule keepsD [OF publish_availability_frame(2)]) simp
  note IH = snoc.hyps(2) [OF snoc.prems]
  from snoc.hyps(3) show ?case
  proof (cases rule: sessionStep.cases)
    case (sched rs)
    have "runRel (\<lambda>s s'. availability (rnHA r) (syBroker s') = availability (rnHA r) (syBroker s)) rs
      \<and> availability (rnHA r) (syBroker (rsWorld rs)) = availability (rnHA r) (brokerOf s')"
      using svc_avail.runStep_R [OF sched(4) [unfolded sessionEnv_def pub]] IH by blast
    with sched IH show ?thesis by simp
  next
    case join
    with IH show ?thesis by (simp add: saidOffline_def)
  qed (use IH in \<open>simp_all add: pub disc disco broker_world publishAvailability_recorded saidOffline_def\<close>)
qed

subsection \<open>Coming to an end\<close>

text \<open>Steps in which no timer fires and no new connection-up comes.\<close>

definition settling ::
  "goarch \<Rightarrow> ('w, 'm, 'u) deps \<Rightarrow> ('w, 'm) running \<Rightarrow> 'c runtime \<Rightarrow> gerr + unit \<Rightarrow>
    ('w, 'm, 'c) service session \<Rightarrow> ('w, 'm, 'c) service session \<Rightarrow> bool" where
  "settling a d r rt x s s' \<longleftrightarrow> (\<exists>l. l \<noteq> LUp \<and> sessionStep a d r rt x s l s')
     \<and> \<not> (\<exists>t. rsPc (ssRun s) t = Idle \<and> rsPc (ssRun s') t = Wanting)"

definition mainRank :: "main_pc \<Rightarrow> nat" where
  "mainRank m = (case m of Serving \<Rightarrow> 4 | Offlining \<Rightarrow> 3 | Disconnecting \<Rightarrow> 2 | Joining \<Rightarrow> 1 | _ \<Rightarrow> 0)"

definition upsLeft :: "up_pc list \<Rightarrow> nat" where
  "upsLeft us = sum_list (map (\<lambda>u. case u of UpOnline \<Rightarrow> 2 | UpDiscovery \<Rightarrow> 1) us)"

lemma settling_decreases:
  assumes "settling a d r rt x s s'"
  shows "mainRank (ssMain s') < mainRank (ssMain s)
    \<or> ssMain s' = ssMain s \<and> (gStep (rsPc (ssRun s') PollLoop) (rsPc (ssRun s) PollLoop)
      \<or> rsPc (ssRun s') PollLoop = rsPc (ssRun s) PollLoop \<and> (gStep (rsPc (ssRun s') ForceLoop) (rsPc (ssRun s) ForceLoop)
        \<or> rsPc (ssRun s') ForceLoop = rsPc (ssRun s) ForceLoop \<and> upsLeft (ssUps s') < upsLeft (ssUps s)))"
proof -
  from assms obtain l where "sessionStep a d r rt x s l s'" and l: "l \<noteq> LUp"
    and quiet: "\<not> (rsPc (ssRun s) t = Idle \<and> rsPc (ssRun s') t = Wanting)" for t
    by (auto simp: settling_def)
  then show ?thesis
  proof (cases rule: sessionStep.cases)
    case (sched rs)
    have "quietStep (sessionEnv a d r rt) (rnSched r) (ssRun s) rs"
      using sched(2,4) quiet by (simp add: quietStep_def)
    from quiet_decreases [OF this] sched(2) show ?thesis by auto
  qed (use l in \<open>simp_all add: mainRank_def upsLeft_def\<close>)
qed

lemma settling_wf:
  fixes d :: "('w, 'm, 'u) deps" and rt :: "'c runtime"
  shows "wf {(s', s). settling a d r rt x s s'}"
proof -
  let ?g = "{(q, p). gStep q p} :: (('w, 'm, 'c) service gpc \<times> ('w, 'm, 'c) service gpc) set"
  let ?r = "less_than <*lex*> ?g <*lex*> ?g <*lex*> less_than"
  have "wf ?g" using gStep_wf unfolding wfp_def .
  then have "wf ?r" by (intro wf_lex_prod wf_less_than)
  then have "wf (inv_image ?r (\<lambda>s. (mainRank (ssMain s), rsPc (ssRun s) PollLoop, rsPc (ssRun s) ForceLoop, upsLeft (ssUps s))))"
    by (rule wf_inv_image)
  then show ?thesis by (rule wf_subset) (auto dest!: settling_decreases)
qed

text \<open>An infinite run takes a timer or a new connection-up infinitely often.\<close>

lemma run_disturbed:
  assumes "\<forall>i. \<exists>l. sessionStep a d r rt x (f i) l (f (Suc i))"
  shows "infinite {i. sessionStep a d r rt x (f i) LUp (f (Suc i))
    \<or> (\<exists>t. rsPc (ssRun (f i)) t = Idle \<and> rsPc (ssRun (f (Suc i))) t = Wanting)}" (is "infinite ?D")
proof
  assume "finite ?D"
  then obtain n where n: "\<forall>i\<in>?D. i \<le> n" using finite_nat_set_iff_bounded_le by blast
  have late: "settling a d r rt x (f i) (f (Suc i))" if "n < i" for i
  proof -
    have "i \<notin> ?D" using n that by (meson not_le)
    moreover obtain l where "sessionStep a d r rt x (f i) l (f (Suc i))" using assms by blast
    ultimately show ?thesis unfolding settling_def mem_Collect_eq by metis
  qed
  define g where "g i = f (Suc n + i)" for i
  have "\<forall>i. settling a d r rt x (g i) (g (Suc i))" using late by (simp add: g_def)
  then show False using settling_wf [of a d r rt x] by (auto simp: wf_iff_no_infinite_down_chain)
qed

text \<open>The lock is with whoever is in a cycle; \<open>runServe\<close> returns after both loops have, or on a failed listener.\<close>

definition sessionInv :: "gerr + unit \<Rightarrow> 's session \<Rightarrow> bool" where
  "sessionInv x s \<longleftrightarrow> owned (ssRun s) \<and>
     (case ssMain s of
        Ended y \<Rightarrow> y = x \<and> (\<forall>t. rsPc (ssRun s) t = Stopped)
      | Failed e \<Rightarrow> (\<exists>e'. e = Wrapped ''health server'' e')
      | _ \<Rightarrow> True)"

lemma sessionInv_step:
  assumes "sessionStep a d r rt x s l s'" and "sessionInv x s"
  shows "sessionInv x s'"
  using assms(1)
proof (cases rule: sessionStep.cases)
  case (sched rs)
  with owned_step [OF sched(4)] assms(2) show ?thesis by (auto simp: sessionInv_def alive_def split: main_pc.splits)
qed (use assms(2) in \<open>auto simp: sessionInv_def alive_def split: main_pc.splits\<close>)

lemma sessionInv_run:
  assumes "sessionRun a d r rt x (sessionInit r s0) ls s"
  shows "sessionInv x s"
  using assms
proof (induction "sessionInit r s0" ls s rule: sessionRun.induct)
  case none
  show ?case using owned_init by (simp add: sessionInv_def sessionInit_def)
next
  case (snoc ls s' l s'')
  then show ?case by (blast intro: sessionInv_step)
qed

lemma settling_run:
  assumes "rtranclp (settling a d r rt x) s s'" and "sessionRun a d r rt x s0 ls s"
  shows "\<exists>ls'. sessionRun a d r rt x s0 ls' s'"
  using assms by (induction rule: rtranclp_induct) (auto simp: settling_def intro: sessionRun.snoc)

lemma settling_progress:
  assumes "owned (ssRun s)" and "alive s"
  shows "\<exists>s'. settling a d r rt x s s'"
proof (cases "ssMain s")
  case Serving
  from sessionStep.signal [of s a d r rt x, OF this] show ?thesis
    by (intro exI [of _ "s\<lparr>ssMain := Offlining\<rparr>"]) (auto simp: settling_def)
next
  case Offlining
  from sessionStep.offline [of s a d r rt x, OF this] show ?thesis unfolding settling_def by fastforce
next
  case Disconnecting
  from sessionStep.disconnect [of s a d r rt x, OF this] show ?thesis unfolding settling_def by fastforce
next
  case Joining
  show ?thesis
  proof (cases "\<forall>t. rsPc (ssRun s) t = Stopped")
    case True
    from sessionStep.join [of s a d r rt x, OF Joining this] show ?thesis unfolding settling_def by fastforce
  next
    case False
    then obtain rs where "quietStep (sessionEnv a d r rt) (rnSched r) (ssRun s) rs"
      using quiet_progress [OF assms(1)] by blast
    with sessionStep.sched [of s a d r rt rs x] assms(2) Joining show ?thesis
      unfolding settling_def quietStep_def by fastforce
  qed
qed (use assms(2) in \<open>simp_all add: alive_def\<close>)

text \<open>A callback that is under way when the shutdown comes may finish after it.\<close>

lemma late_online_run:
  "\<exists>s s'. sessionRun a d r rt x (sessionInit r s1) [LUp, LSignal, LOffline] s
    \<and> sessionRun a d r rt x (sessionInit r s1) [LUp, LSignal, LOffline, LOnline] s'"
proof -
  let ?run = "sessionRun a d r rt x (sessionInit r s1)"
  let ?s2 = "(sessionInit r s1)\<lparr>ssUps := [UpOnline]\<rparr>"
  let ?s3 = "?s2\<lparr>ssMain := Offlining\<rparr>"
  let ?s4 = "(sessionWorld (onBroker' (publishAvailability (mqttPublish (dpPublish d)) (rnHA r) False)) ?s3)\<lparr>ssMain := Disconnecting\<rparr>"
  have "?run [LUp] ?s2"
    using sessionRun.snoc [OF sessionRun.none sessionStep.up [of "sessionInit r s1"]] by (simp add: sessionInit_def alive_def)
  from sessionRun.snoc [OF this sessionStep.signal] have "?run [LUp, LSignal] ?s3" by (simp add: sessionInit_def)
  from sessionRun.snoc [OF this sessionStep.offline] have off: "?run [LUp, LSignal, LOffline] ?s4" by simp
  from sessionRun.snoc [OF this sessionStep.online [where us = "[]" and vs = "[]"]] off show ?thesis
    by (auto simp: alive_def)
qed

section \<open>Properties\<close>

text \<open>The example of \<open>Serve\<close> with a broker that keeps the last message of every topic.\<close>

definition recorderDeps :: "'w net \<Rightarrow> ('w, recorder, unit) deps" where
  "recorderDeps n = \<lparr>dpParsers = demoParsers, dpEnviron = demoEnvironment, dpInCluster = Inr (), dpNewForConfig = Inr (),
     dpNamespaceFile = Inr ''home'', dpNet = (\<lambda>b. n), dpBrokerParse = (\<lambda>s. Inr ()), dpNewConnection = (\<lambda>u pc. ret ()),
     dpAwaitConnection = ret (), dpPublish = (\<lambda>t p q r. recPublish t p r), dpDisconnect = ret ()\<rparr>"

definition recorderService :: "(unit, recorder, int) service" where
  "recorderService = \<lparr>syClient = \<lparr>clTokens = tokens0, clWorld = ()\<rparr>, syServer = syServer demoService,
     syBroker = newRecorder, syClock = 0\<rparr>"

lemma recorder_recording: "recording (recorderDeps n)"
  by (simp add: recording_def recorderDeps_def ret_def)

lemma publishAll_recorder: "\<exists>b'. publishAll recPublish ms b = (Inr (), b')"
  by (induction ms arbitrary: b) (auto simp: ret_def bindOp_Inr [OF wrapErr_Inr [OF recPublish_run]])

lemma recorder_starts: "\<exists>r s. startUp (recorderDeps demoNet) 0 recorderService = (Inr r, s)"
proof (rule demo_starts_on)
  show "\<exists>mq b'. startMqtt (recorderDeps demoNet) cfg ha b = (Inr mq, b')" for cfg ha b
  proof -
    obtain b' where "publishAll recPublish (buildDiscovery ha) b = (Inr (), b')" using publishAll_recorder by blast
    then show ?thesis
      unfolding startMqtt_def recording_publish [OF recorder_recording]
      by (simp add: mqttConnect_def recorderDeps_def bindOp_def wrapErr_def ret_def publishDiscovery_def publishAvailability_def
          fst_recPublish Let_def split: prod.split sum.split)
         (metis Inl_Inr_False fst_conv fst_recPublish)
  qed
qed (simp_all add: recorderDeps_def recorderService_def)

text \<open>C8: What the broker says of the car's availability is at every moment the word of the last step that
  published one: "online" from the start, "offline" when the shutdown says so, "online" again when a
  callback of a connection-up that is under way says so, also after the shutdown's "offline". Nothing
  a cycle, the discovery or the disconnect does changes it, and the shutdown has said "offline" exactly
  when the signal, not a failed listener, ended the service and \<open>runServe\<close> is past that step.\<close>

theorem serve_availability:
  assumes "recording d" and "startUp d now s0 = (Inr r, s1)" and "sessionRun a d r rt x (sessionInit r s1) ls s"
  shows "recGet (brokerOf s) (availabilityTopic (rnHA r)) = Some (Text (lastWord ''online'' ls), True)
    \<and> (LOffline \<in> set ls) = saidOffline (ssMain s)"
  using session_availability [OF assms(1,3) startUp_online [OF assms(1,2)]] by (simp add: availability_def)

theorem serve_availability_witness:
  "\<exists>r s1 s s'. startUp (recorderDeps demoNet) 0 recorderService = (Inr r, s1)
    \<and> sessionRun AMD64 (recorderDeps demoNet) r (contextRuntime None) (Inr ()) (sessionInit r s1) [LUp, LSignal, LOffline] s
    \<and> recGet (brokerOf s) (availabilityTopic (rnHA r)) = Some (Text ''offline'', True)
    \<and> sessionRun AMD64 (recorderDeps demoNet) r (contextRuntime None) (Inr ()) (sessionInit r s1) [LUp, LSignal, LOffline, LOnline] s'
    \<and> recGet (brokerOf s') (availabilityTopic (rnHA r)) = Some (Text ''online'', True)"
proof -
  obtain r s1 where start: "startUp (recorderDeps demoNet) 0 recorderService = (Inr r, s1)" using recorder_starts by blast
  let ?run = "sessionRun AMD64 (recorderDeps demoNet) r (contextRuntime None) (Inr ()) (sessionInit r s1)"
  obtain s s' where "?run [LUp, LSignal, LOffline] s" "?run [LUp, LSignal, LOffline, LOnline] s'"
    using late_online_run [of AMD64 "recorderDeps demoNet" r "contextRuntime None" "Inr ()" s1] by blast
  with serve_availability [OF recorder_recording start this(1)] serve_availability [OF recorder_recording start this(2)] start
  show ?thesis by auto
qed

text \<open>C7: The service comes to an end, however the steps of its goroutines are ordered: a run that goes on for
  ever has infinitely many steps in which a timer fires or a new connection-up comes (no other run is
  infinite), and from whatever it has done, where only such steps are left, or none, \<open>runServe\<close> has
  returned: either what closing the listener gave, after both loops of the scheduler have returned and
  with the lock free, or the wrapped error of the health listener. The shutdown never waits for ever
  on a cycle.\<close>

theorem serve_ends:
  assumes "startUp d now s0 = (Inr r, s1)" and "sessionRun a d r rt x (sessionInit r s1) ls s"
  shows "(\<forall>f. f 0 = s \<and> (\<forall>i. \<exists>l. sessionStep a d r rt x (f i) l (f (Suc i))) \<longrightarrow>
         infinite {i. sessionStep a d r rt x (f i) LUp (f (Suc i))
           \<or> (\<exists>t. rsPc (ssRun (f i)) t = Idle \<and> rsPc (ssRun (f (Suc i))) t = Wanting)})
    \<and> (\<forall>s'. rtranclp (settling a d r rt x) s s' \<and> (\<nexists>s''. settling a d r rt x s' s'') \<longrightarrow>
         (\<forall>t. rsPc (ssRun s') t = Stopped) \<and> rsLock (ssRun s') = None \<and> runServe a d now rt x s0 x (rsWorld (ssRun s'))
         \<or> (\<exists>e. runServe a d now rt x s0 (Inl (Wrapped ''health server'' e)) (rsWorld (ssRun s'))))"
proof (intro conjI allI impI)
  fix f assume "f 0 = s \<and> (\<forall>i. \<exists>l. sessionStep a d r rt x (f i) l (f (Suc i)))"
  then show "infinite {i. sessionStep a d r rt x (f i) LUp (f (Suc i))
           \<or> (\<exists>t. rsPc (ssRun (f i)) t = Idle \<and> rsPc (ssRun (f (Suc i))) t = Wanting)}"
    by (intro run_disturbed) blast
next
  fix s' assume run: "rtranclp (settling a d r rt x) s s' \<and> (\<nexists>s''. settling a d r rt x s' s'')"
  obtain ls' where path: "sessionRun a d r rt x (sessionInit r s1) ls' s'"
    using settling_run [OF conjunct1 [OF run] assms(2)] by blast
  note inv = sessionInv_run [OF path]
  have "\<not> alive s'"
    using settling_progress [of s' a d r rt x] conjunct2 [OF run] inv by (auto simp: sessionInv_def)
  then consider y where "ssMain s' = Ended y" | e where "ssMain s' = Failed e"
    by (auto simp: alive_def split: main_pc.splits)
  then show "(\<forall>t. rsPc (ssRun s') t = Stopped) \<and> rsLock (ssRun s') = None \<and> runServe a d now rt x s0 x (rsWorld (ssRun s'))
      \<or> (\<exists>e. runServe a d now rt x s0 (Inl (Wrapped ''health server'' e)) (rsWorld (ssRun s')))"
  proof cases
    case (1 y)
    from runServe.shut_down [OF assms(1) path 1] 1 inv show ?thesis
      by (cases "rsLock (ssRun s')") (auto simp: sessionInv_def owned_def)
  next
    case (2 e)
    from runServe.listener_failed [OF assms(1) path 2] 2 inv show ?thesis by (auto simp: sessionInv_def)
  qed
qed

theorem serve_ends_witness:
  "\<exists>r s1 s. startUp (recorderDeps demoNet) 0 recorderService = (Inr r, s1)
    \<and> sessionRun AMD64 (recorderDeps demoNet) r (contextRuntime None) (Inr ()) (sessionInit r s1) [LUp, LSignal, LOffline] s
    \<and> (\<forall>f. f 0 = s \<and>
         (\<forall>i. \<exists>l. sessionStep AMD64 (recorderDeps demoNet) r (contextRuntime None) (Inr ()) (f i) l (f (Suc i))) \<longrightarrow>
         infinite {i. sessionStep AMD64 (recorderDeps demoNet) r (contextRuntime None) (Inr ()) (f i) LUp (f (Suc i))
           \<or> (\<exists>t. rsPc (ssRun (f i)) t = Idle \<and> rsPc (ssRun (f (Suc i))) t = Wanting)})"
proof -
  obtain r s1 where start: "startUp (recorderDeps demoNet) 0 recorderService = (Inr r, s1)" using recorder_starts by blast
  obtain s where "sessionRun AMD64 (recorderDeps demoNet) r (contextRuntime None) (Inr ()) (sessionInit r s1) [LUp, LSignal, LOffline] s"
    using late_online_run [of AMD64 "recorderDeps demoNet" r "contextRuntime None" "Inr ()" s1] by blast
  with serve_ends [OF start this] start show ?thesis by blast
qed

end
