(* ===== verification/MockSession.thy ===== *)
theory MockSession
  imports MockCCS1
begin

text \<open>
  A first session of the client against the mock, from an empty token store: \<open>Connect\<close>,
  \<open>SelectVehicle\<close>, then a status read, over either protocol.
\<close>

section \<open>The vehicle list\<close>

definition mockVehicle :: "mock_options \<Rightarrow> vehicle" where
  "mockVehicle o' = \<lparr>vID = moVehicleID o', vVIN = moVIN o', vName = moNickname o', vModel = moModel o',
     vRegDate = ''2026-01-15T00:00:00'', vType = ''EV'', vCCS2ProtocolSupport = flag01 (moCCS2 o')\<rparr>"

definition vehiclesDoc :: "mock_options \<Rightarrow> json" where
  "vehiclesDoc o' = JArr [JObj [
        (''vehicleId'', JStr (moVehicleID o')), (''nickname'', JStr (moNickname o')), (''vehicleName'', JStr (moModel o')),
        (''regDate'', JStr ''2026-01-15T00:00:00''), (''vin'', JStr (moVIN o')), (''type'', JStr ''EV''),
        (''ccuCCS2ProtocolSupport'', JInt (flag01 (moCCS2 o')))]]"

lemma mockVehicle_ccs2 [simp]: "isCCS2 (mockVehicle o') = moCCS2 o'"
  by (simp add: isCCS2_def mockVehicle_def flag01_def)

lemma vehicles_decoded: "decList decVehicle (vehiclesDoc o') = Some [mockVehicle o']"
  by (simp add: vehiclesDoc_def mockVehicle_def decList_def decVehicle_def decStruct_def decField_def decString_def decInt_def
      flag01_def minInt64_def maxInt64_def equalFold_def lower_def lowerc_def)

lemma vehicles_mock:
  assumes "pointsAt base cfg" and "loggedIn n t"
  shows "vehicles (mockNet ent base n) cfg (mc t s w) = (Inr [mockVehicle (mkOpts s)], mc t s (ticked n 2 w))"
proof -
  let ?j = "JObj [(''retCode'', JStr ''S''), (''resMsg'', obj1 ''vehicles'' (vehiclesDoc (mkOpts s)))]"
  have url: "rqURL (apiRequest cfg ''vehicles'' 0 t st) = base @ CHR ''/'' # ''api/v1/spa/vehicles''" for st
    using assms(1) by (simp add: apiRequest_def pointsAt_def)
  have reply: "mockDo ent base (apiRequest cfg ''vehicles'' 0 t st) s = (Inr (writeJSON 200 ?j), s)" for st
    unfolding mockDo_path [OF url]
    by (simp add: pathSegs_def mockServe_def mockRoutes_def vehicleRoute_def handleVehicles_def vehiclesDoc_def Let_def)
  have fin: "numsFinite ?j" by (simp add: obj1_def vehiclesDoc_def del: numsFinite.simps(4))
  have dec: "decVehicles ?j = Some [mockVehicle (mkOpts s)]"
    by (simp add: decVehicles_def obj1_def decStruct_def decField_def vehicles_decoded equalFold_def lower_def lowerc_def)
  have "authedGet (mockNet ent base n) cfg ''vehicles'' 0 decVehicles (mc t s w) = (Inr [mockVehicle (mkOpts s)], mc t s (ticked n 2 w))"
    by (rule authedGet_mock [where j = ?j]) (rule assms(2) reply fin envelope_ok dec)+
  then show ?thesis by (simp add: vehicles_def wrapErr_def)
qed

lemma select_mock:
  assumes "pointsAt base cfg" and "loggedIn n t" and "ccVIN cfg \<in> {'''', moVIN (mkOpts s)}"
  shows "selectVehicle (mockNet ent base n) cfg (mc t s w) = (Inr (mockVehicle (mkOpts s)), mc t s (ticked n 2 w))"
  using assms(3) by (auto simp: selectVehicle_def bindOp_def vehicles_mock [OF assms(1,2)] ret_def mockVehicle_def equalFold_def)

section \<open>Fresh tokens\<close>

text \<open>A token issued at any time of the session is valid at any other.\<close>

definition outlasts :: "'w net \<Rightarrow> mock \<Rightarrow> bool" where
  "outlasts n s \<longleftrightarrow>
     (\<forall>w w'. fst (netNow n w') < fst (netNow n w) + wrap64 (expiryOf (mockTTL s) * nsPerSec) - 2 * 60 * nsPerSec)"

lemma trimSpace_nonempty: "c \<in> set x \<Longrightarrow> \<not> isSpace c \<Longrightarrow> trimSpace x \<noteq> []"
  by (auto simp: trimSpace_def dropWhile_eq_Nil_conv) (metis (full_types) UnE set_append takeWhile_dropWhile_id set_takeWhileD)

lemma issued_loggedIn:
  assumes "outlasts n s"
  shows "loggedIn n (issued ent (registered s) (fst (netNow n v))\<lparr>deviceID := ''mock-device-'' @ x\<rparr>)"
proof -
  have ttl: "mockTTL (registered s) = mockTTL s" by (simp add: mockTTL_def)
  have "CHR ''B'' \<in> set (''Bearer'' @ '' '' @ y)" "\<not> isSpace (CHR ''B'')" for y by (simp, code_simp)
  then have "trimSpace (''Bearer'' @ '' '' @ y) \<noteq> []" for y by (rule trimSpace_nonempty)
  with assms ttl show ?thesis
    by (simp add: loggedIn_def tokensValid_def issued_def tokensFrom_def outlasts_def)
qed

section \<open>Properties\<close>

text \<open>C14: A first session against the mock: from an empty store the client registers once, logs in once, selects
  the mock's vehicle, and its cached read returns the car the mock stands for, over the protocol the
  vehicle list announced, whatever the options, the key and the random bytes; the mock has counted one
  registration, one grant, one cached read and no forced one.\<close>

theorem mock_session:
  assumes "logsInAt base cfg" and "worksFor n cfg" and "goodTTL s" and "goodKey (mkKey s)" and "goodOptions (mkOpts s)"
    and "cleanID (moVehicleID (mkOpts s))" and "outlasts n s" and "\<not> mkFailStatus s" and "fst (netLoad n w) = Inr None"
    and "ccVIN cfg \<in> {'''', moVIN (mkOpts s)}"
  shows "\<exists>t w'. bindOp (connect (mockNet ent base n) cfg) (\<lambda>_. bindOp (selectVehicle (mockNet ent base n) cfg) (\<lambda>v.
      bindOp (cachedStatus a (mockNet ent base n) cfg v) (\<lambda>st. ret (v, st)))) (mc tokens0 s w) =
    (Inr (mockVehicle (mkOpts s), mockReading (mkOpts s) False),
     mc t (s\<lparr>mkRegisterHits := mkRegisterHits s + 1, mkGrants := mkGrants s @ [''authorization_code''],
       mkReads := mkReads s + 3, mkCachedHits := mkCachedHits s + 1\<rparr>) w')"
proof -
  let ?N = "mockNet ent base n"
  let ?s = "s\<lparr>mkRegisterHits := mkRegisterHits s + 1, mkGrants := mkGrants s @ [''authorization_code''], mkReads := mkReads s + 3\<rparr>"
  have p: "pointsAt base cfg" using assms(1) by (simp add: logsInAt_def)
  obtain t v w1 where c: "connect ?N cfg (mc tokens0 s w) = (Inr (), mc t ?s w1)"
    and t: "t = issued ent (registered s) (fst (netNow n v))\<lparr>deviceID := ''mock-device-'' @ fst (randToken ent s)\<rparr>"
    using mock_first_login [OF assms(1-4,9), of ent] by blast
  have log: "loggedIn n t" unfolding t by (rule issued_loggedIn [OF assms(7)])
  have sel: "selectVehicle ?N cfg (mc t ?s w1) = (Inr (mockVehicle (mkOpts s)), mc t ?s (ticked n 2 w1))"
    using select_mock [OF p log, of ?s ent w1] assms(10) by simp
  have "fetchStatus a ?N cfg (mockVehicle (mkOpts s)) False (mc t ?s (ticked n 2 w1)) =
      (Inr (mockReading (mkOpts ?s) False), mc t (counted False ?s) (ticked n (clockReads (mkOpts ?s) False) (ticked n 2 w1)))"
    by (rule fetchStatus_mock [OF p _ log]) (use assms(5,6,8) in \<open>simp_all add: mockVehicle_def [of "mkOpts s"] isCCS2_def flag01_def\<close>)
  with c sel show ?thesis by (simp add: bindOp_def cachedStatus_def ret_def counted_def) blast
qed

theorem mock_session_witness:
  "\<exists>v st c. bindOp (connect (mockNet (\<lambda>i. []) ''http://m'' stillNet) mockClient)
      (\<lambda>_. bindOp (selectVehicle (mockNet (\<lambda>i. []) ''http://m'' stillNet) mockClient) (\<lambda>v.
      bindOp (cachedStatus ARM64 (mockNet (\<lambda>i. []) ''http://m'' stillNet) mockClient v) (\<lambda>st. ret (v, st)))) (mc tokens0 demoMock ()) =
      (Inr (v, st), c)
    \<and> vVIN v = ''REDACTEDVIN000001'' \<and> evBatteryPercentage st = Some (Fin 62) \<and> mkCachedHits (fst (clWorld c)) = 1"
proof -
  have works: "worksFor stillNet mockClient" "fst (netLoad stillNet ()) = Inr None"
    by (simp_all add: worksFor_def stillNet_def refreshingNet_def Let_def)
  have "mockTTL demoMock = 86400" by code_simp
  then have "outlasts stillNet demoMock" by (simp add: outlasts_def stillNet_def refreshingNet_def expiryOf_def Let_def wrap64_def)
  moreover have "cleanID (moVehicleID (mkOpts demoMock))" "\<not> mkFailStatus demoMock" "ccVIN mockClient \<in> {'''', moVIN (mkOpts demoMock)}"
    by (simp_all add: cleanID_def demoMock_def mockDefaults_def mockClient_def)
  ultimately show ?thesis
    using mock_session [OF mockClient_points(2) works(1) demoMock_good(2,3,1) _ _ _ works(2), of "\<lambda>i. []" ARM64]
    by (auto simp: mockReading_def mockState_def mockBattery_def mockVehicle_def mc_def demoMock_def mockDefaults_def)
qed

end
