(* ===== verification/Command.thy ===== *)
theory Command
  imports Session Pipeline
begin

text \<open>
  The command line (\<open>internal/cmd/root.go\<close>, \<open>src/cmd/main.go\<close>): what runs before every command, the
  three commands, and how the process exits. How cobra reads the arguments is given, as what
  godotenv finds in \<open>.env\<close> is.
\<close>

text \<open>A command with its flags: \<open>serve\<close>, \<open>mock --ccs1\<close>, \<open>dump --force\<close>.\<close>

datatype invocation = InvServe | InvMock bool | InvDump bool

text \<open>\<open>PersistentPreRun\<close>: \<open>godotenv.Load\<close> sets the variables of \<open>.env\<close> that are not set; that there is no
  such file is ignored. The result is what \<open>os.Getenv\<close> returns after it.\<close>

definition preRun :: "gerr + (string \<rightharpoonup> string) \<Rightarrow> (string \<rightharpoonup> string) \<Rightarrow> environment" where
  "preRun dotenv env k = (case env k of
      Some v \<Rightarrow> v
    | None \<Rightarrow> (case dotenv of
          Inl e \<Rightarrow> ''''
        | Inr file \<Rightarrow> (case file k of Some v \<Rightarrow> v | None \<Rightarrow> '''')))"

text \<open>What the mock command is given: its key, how its select ends, and how its listener is closed.\<close>

record mock_world =
  mwKey :: "gerr + rsa_key"
  mwEnd :: mock_end
  mwShutdown :: "gerr option"
  mwLate :: "gerr option"

definition errorOf :: "gerr option \<Rightarrow> gerr + unit" where
  "errorOf r = (case r of None \<Rightarrow> Inr () | Some e \<Rightarrow> Inl e)"

text \<open>\<open>Execute\<close>: what it returns, and the lines a dump prints.\<close>

inductive execute ::
  "goarch \<Rightarrow> (string list \<Rightarrow> gerr + invocation) \<Rightarrow> gerr + (string \<rightharpoonup> string) \<Rightarrow> (string \<rightharpoonup> string) \<Rightarrow>
    ('w, 'm, 'u) deps \<Rightarrow> mock_world \<Rightarrow> int \<Rightarrow> 'c runtime \<Rightarrow>
    gerr + unit \<Rightarrow> ('w, 'm, 'c) service \<Rightarrow> string list \<Rightarrow> gerr + unit \<Rightarrow> dump_line list \<Rightarrow> bool"
  for a parse dotenv env d mw now rt srvShutdown s0 where
  usage: "parse args = Inl e \<Longrightarrow> execute a parse dotenv env d mw now rt srvShutdown s0 args (Inl e) []"
| serve: "parse args = Inr InvServe \<Longrightarrow>
    runServe a (d\<lparr>dpEnviron := preRun dotenv env\<rparr>) now rt srvShutdown s0 res s \<Longrightarrow>
    execute a parse dotenv env d mw now rt srvShutdown s0 args res []"
| mock: "parse args = Inr (InvMock ccs1) \<Longrightarrow>
    execute a parse dotenv env d mw now rt srvShutdown s0 args
      (errorOf (runMock (mwKey mw) ccs1 (mwEnd mw) (mwShutdown mw) (mwLate mw))) []"
| dump: "parse args = Inr (InvDump force) \<Longrightarrow>
    fst (runDump (d\<lparr>dpEnviron := preRun dotenv env\<rparr>) force (syClient s0)) = r \<Longrightarrow>
    execute a parse dotenv env d mw now rt srvShutdown s0 args (map_sum id (\<lambda>_. ()) r) (case r of Inl e \<Rightarrow> [] | Inr ls \<Rightarrow> ls)"

text \<open>A variable of the process wins over the file; an error of any command ends the process with 1.\<close>

lemma preRun_set: "env k = Some v \<Longrightarrow> preRun dotenv env k = v"
  by (simp add: preRun_def)

lemma serve_config_error:
  assumes "parse args = Inr InvServe" and "load (dpParsers d) (preRun dotenv env) = Inl e"
    and "execute a parse dotenv env d mw now rt x s0 args res ls"
  shows "mainExit res = (Some (''error: '' @ ''config: '' @ errText e), 1) \<and> ls = []"
  using assms(3)
proof (cases rule: execute.cases)
  case (serve s)
  from serve(3) show ?thesis
    using assms(2) by (cases rule: runServe.cases) (auto simp: startUp_def mainExit_def serve(1))
qed (use assms(1) in auto)

end
