(* ===== verification/Spec2Isabelle.thy ===== *)
theory Spec2Isabelle
  imports Reports Loops WakeBudget Lock Pipeline Session MockSession Command
begin

text \<open>
  A Go service that polls the Hyundai Bluelink API for the state of an electric car and publishes it
  over MQTT with Home Assistant discovery. All file names below are under \<open>src/internal\<close>.

  The program and its parts. \<open>cmd/serve.go\<close> loads the configuration (\<open>config\<close>), starts the status server
  (\<open>server\<close>), builds a token store and a client (\<open>bluelink\<close>), logs in, selects the vehicle, connects to the
  broker (\<open>mqtt\<close>), publishes discovery and availability (\<open>homeassistant\<close>, \<open>publisher\<close>) and runs the
  scheduler (\<open>scheduler\<close>), whose cycles read the status through the client, publish it and report to the
  status server. \<open>cmd/dump.go\<close> prints raw responses, \<open>cmd/mock.go\<close> serves a stand-in for the API (\<open>mock\<close>).

  Theories, from the bottom up:

    \<^item> \<open>Prelude\<close>: strings as byte lists, ASCII case folding, decimal text, 64-bit wrap-around, and calls: an
      \<open>op\<close> runs on a state and returns an error or a value, with \<open>bindOp\<close>, \<open>wrapErr\<close> and the invariants
      \<open>keeps\<close>. \<open>Float64\<close>: binary64 as rationals rounded to nearest even, with infinities and NaN, and Go's
      conversion to \<open>int\<close> per processor. \<open>Json\<close>: documents and the decoder of \<open>encoding/json\<close> into maps and
      structs. \<open>GoTime\<close>, \<open>TimeText\<close>: civil dates, zones, \<open>time.Date\<close>, parsing and RFC 3339 output. \<open>GoFmt\<close>:
      formatting of floats, durations and quoted strings.
    \<^item> \<open>Model\<close> (\<open>bluelink/model.go\<close>), \<open>ParseCCS2\<close>, \<open>ParseCCS1\<close> (\<open>bluelink/parse_ccs2.go\<close>, \<open>parse_ccs1.go\<close>): a
      status document becomes a \<open>vehicle_state\<close>, one record field per Go field, a nil pointer being \<open>None\<close>;
      \<open>Reports\<close>: the documents a car's state is reported in, and that the parsers read them back.
    \<^item> \<open>Crypto\<close> (\<open>bluelink/stamp.go\<close>, \<open>jwk.go\<close>), \<open>TokenStore\<close> (\<open>bluelink/tokenstore.go\<close>,
      \<open>tokenstore_kube.go\<close>), \<open>Http\<close>, \<open>Auth\<close>, \<open>Client\<close>, \<open>Status\<close> (\<open>bluelink/constants.go\<close>, \<open>auth.go\<close>, \<open>client.go\<close>,
      \<open>status.go\<close>): one definition per method, on the record \<open>client\<close> (the tokens and the outside world).
      What the client is given (transport, clock, randomness, RSA, URL parsing, store) is the record \<open>net\<close>.
    \<^item> \<open>HomeAssistant\<close>, \<open>Publisher\<close>, \<open>Mqtt\<close> (\<open>homeassistant\<close>, \<open>publisher\<close>, \<open>mqtt\<close>): topics, discovery payloads, the
      state document, what is published where; the recording transport keeps the last message per topic.
    \<^item> \<open>Server\<close>, \<open>Page\<close> (\<open>server\<close>): readiness, probes, the status page with the escaping of \<open>html/template\<close>.
    \<^item> \<open>Scheduler\<close>, \<open>Schedule\<close>, \<open>Lock\<close>, \<open>Concurrent\<close>, \<open>Loops\<close>, \<open>WakeBudget\<close> (\<open>scheduler\<close>): cycles, retries and the gate over an
      environment \<open>sched_env\<close>; the time of the next refresh; the two goroutines of \<open>Run\<close> and the lock as step
      relations, over the log of calls (\<open>Lock\<close>) and over the world, with the cycles cut into their calls
      (\<open>Concurrent\<close>); that the loops end; how often the car is woken while they run.
    \<^item> \<open>Config\<close> (\<open>config\<close>), \<open>Serve\<close> (\<open>cmd/serve.go\<close>, \<open>dump.go\<close>, \<open>root.go\<close>): \<open>Load\<close> over an environment, start-up,
      the wiring of the components into one state \<open>service\<close>, shutdown and the dump. \<open>Session\<close> (\<open>cmd/serve.go\<close>,
      \<open>src/cmd/main.go\<close>): \<open>runServe\<close> from the start to its return, with the scheduler's goroutines, the select
      and the shutdown, and the callbacks of connection-ups, as a step relation over \<open>session\<close>. \<open>Command\<close>
      (\<open>cmd/root.go\<close>): the environment after \<open>.env\<close>, the three commands and what \<open>Execute\<close> returns.
    \<^item> \<open>Mock\<close>, \<open>MockClient\<close>, \<open>MockCCS1\<close>, \<open>MockSession\<close>, \<open>Pipeline\<close> (\<open>mock\<close>, \<open>cmd/mock.go\<close>): the handlers and routes of the
      mock, the client against it over both protocols, a first session from an empty store, and the whole
      service against it; the properties of the whole stand in this theory.

  Interfaces. \<open>transport\<close> (Publisher) is what publishing relies on, interpreted on the recorder;
  \<open>token_store\<close> what the client relies on, interpreted on the memory store and, through \<open>kube_secrets\<close>
  (what the Kubernetes API documents), on the Secret store; \<open>health_reporter\<close> (Server) what the outcomes
  of polls say of readiness, interpreted on the status server; \<open>context_env\<close> (Scheduler) that a context
  whose wait was ended has an error; \<open>env_rel\<close> and \<open>env_rel_cycle\<close> that what every call of an environment
  respects, a cycle respects, also when it is run call by call between the calls of others (the section
  of \<open>Concurrent\<close> in \<open>env_rel_cycle\<close>); \<open>env_cost\<close> (WakeBudget) that only forced reads pay a cost; the last
  four are interpreted on the wired service.

  What is shown. Safety: a cached read, a poll and the dump send no request that wakes the car, the
  gate is kept, cycles never overlap, the password leaves only encrypted, nothing secret or personal is
  on the status page. Function: what a poll, a refresh and an outage leave on the broker and the status
  server, end to end; what \<open>Load\<close> accepts, that start-up builds what was configured, what it says to the
  broker; what a publish leaves there when the transport refuses some of its messages. Bounds: attempts, waits and waking requests per cycle and per day, the distance to the next refresh,
  the accuracy of converted distances. Refinement: readiness implements a specification on the history
  of outcomes; an interleaving of the two goroutines leaves the world of cycles run one after another.
  Round trips: tokens, keys, the stamp, every state the two protocols can express through its report and
  the parser, the mock's car through handlers, client and parsers. Termination and liveness: both loops
  end after the context (for the force loop where the time of day of the refresh is at least the spread
  of the zone's offsets, as for the daily budget of waking requests); a run of the service that does not
  return takes timers or connection-ups for ever, and without them it returns. The availability topic says "online" or "offline" as the last step that published one.

  Bounds and fuel. All loops that end by themselves are recursive functions with a measure (the retry
  loop, the save loop, the duration parser). \<open>pollLoop\<close> and \<open>forceLoop\<close>, which run until the context ends,
  take a number of rounds; \<open>scheduler_stops\<close> gives one that is enough. Integers are \<open>int\<close> with Go's
  wrap-around written out where a product or a conversion can leave 64 bits.

  Simplifications. Strings are bytes, and case folding is ASCII: JSON's replacement of invalid UTF-8 and
  Unicode folding are not modelled. JSON texts are documents: two texts of one document are the same
  body; of the members of an object that fill one field, the last wins (objects are merged), where
  \<open>encoding/json\<close> would also report a type error of an earlier one and let a null keep it. Mutexes other than the scheduler's are not modelled: calls of the client and of the status
  server run one at a time, and a step of an interleaving is one call. When a timer fires and when the
  signal comes is left open there: a select may take either. A callback of a connection-up that
  fires while the start makes its first publishes is not interleaved with them. Log output is modelled only where it is a claim (\<open>configString\<close>).

  Not modelled: the HTTP listeners (given by how they end), signals and how cobra and godotenv read arguments
  and files (given by their results), the timeout of the shutdown; \<open>autopaho\<close>, \<open>crypto/rsa\<close>, \<open>url.Parse\<close>, \<open>time.LoadLocation\<close>, the Kubernetes client and the
  transport, which are parameters; cookies and redirects followed by the HTTP client; the acceptance
  suite.
\<close>

section \<open>Properties of the whole\<close>

text \<open>C5: One poll, end to end: while the mock answers, a poll of a logged-in service makes exactly one cached
  read and no forced one, leaves on the broker the marshalled document of the car the mock stands for
  (in the display unit), its coordinates and \<open>None\<close> on the tracker topic, all retained, and counts one
  success with that car's metrics on the status server; nothing else changes.\<close>

theorem poll_end_to_end:
  assumes "readsMock base n cc cfg t k" and "\<not> mkFailStatus k"
    and "marshalState (inDistanceUnit (mockReading (mkOpts k) False) (haDistanceUnit ha)) = Inr d"
  shows "\<exists>b'. poll (serviceEnv a (mockNet ent base n) cc recPublish ha rt) cfg (wired t k w sv b c) =
      wired t (k\<lparr>mkCachedHits := mkCachedHits k + 1\<rparr>) (ticked n (clockReads (mkOpts k) False) w)
        (markSuccess (setMetrics (metricsFromState (mockReading (mkOpts k) False)) sv)) b' c
    \<and> recGet b' = published ha (inDistanceUnit (mockReading (mkOpts k) False) (haDistanceUnit ha)) d (recGet b)"
  unfolding poll_def retry_mock [OF assms(1,2)]
  using finish_mock [OF assms(3)] by (simp add: counted_def)

theorem poll_end_to_end_witness:
  "\<exists>b'. syBroker (poll demoEnv demoConfig (demoWired demoMock)) = b' \<and> recGet b' (trackerStateTopic demoHA) = Some (Text ''None'', True)
    \<and> isReady (syServer (poll demoEnv demoConfig (demoWired demoMock)))"
proof -
  obtain d where d: "marshalState (inDistanceUnit (mockReading (mkOpts demoMock) False) (haDistanceUnit demoHA)) = Inr d"
    using demo_marshals by blast
  show ?thesis
    using poll_end_to_end [OF demo_readsMock demo_answers d, of AMD64 "\<lambda>i. []" "contextRuntime None" "()" demoServer newRecorder 0]
    by (auto simp: demoEnv_def demoWired_def wired_def published_def markSuccess_def isReady_def setMetrics_def demoServer_def newServer_def)
qed

text \<open>C13: One daily refresh, end to end: with the plugged-in gate a cached read comes first and the refresh
  ends there unless the mock's car is plugged in; otherwise the car is woken exactly once, and what is
  published and shown is the forced reading, the battery one higher.\<close>

theorem refresh_end_to_end:
  assumes "readsMock base n cc cfg t k" and "\<not> mkFailStatus k"
    and "marshalState (inDistanceUnit (mockReading (mkOpts k) True) (haDistanceUnit ha)) = Inr d"
  shows "let reads = (if sdForceOnlyWhenPluggedIn cfg then 1 else 0) in
    if sdForceOnlyWhenPluggedIn cfg \<and> \<not> moPluggedIn (mkOpts k)
    then forceRefresh (serviceEnv a (mockNet ent base n) cc recPublish ha rt) cfg (wired t k w sv b c) =
      wired t (k\<lparr>mkCachedHits := mkCachedHits k + 1\<rparr>) (ticked n (clockReads (mkOpts k) False) w) sv b c
    else \<exists>b'. forceRefresh (serviceEnv a (mockNet ent base n) cc recPublish ha rt) cfg (wired t k w sv b c) =
      wired t (k\<lparr>mkCachedHits := mkCachedHits k + reads, mkForceHits := mkForceHits k + 1\<rparr>) (ticked n (reads * clockReads (mkOpts k) False + clockReads (mkOpts k) True) w)
        (markSuccess (setMetrics (metricsFromState (mockReading (mkOpts k) True)) sv)) b' c
    \<and> recGet b' = published ha (inDistanceUnit (mockReading (mkOpts k) True) (haDistanceUnit ha)) d (recGet b)"
proof -
  let ?k = "counted False k"
  let ?c = "clockReads (mkOpts k) False" and ?f = "clockReads (mkOpts k) True"
  have k: "readsMock base n cc cfg t ?k" "\<not> mkFailStatus ?k" "mkOpts ?k = mkOpts k" using assms(1,2) by simp_all
  note cached = fetch_mock [OF assms(1,2), where force = False]
  note direct = retry_mock [OF assms(1,2), where force = True]
  note gated = retry_mock [OF k(1,2), where force = True, unfolded k(3)]
  have plug: "pluggedIn (mockReading (mkOpts k) False) = Some (moPluggedIn (mkOpts k))"
    by (simp add: mockReading_def mockState_def ccs1Reading_def)
  have both: "counted True ?k = k\<lparr>mkCachedHits := mkCachedHits k + 1, mkForceHits := mkForceHits k + 1\<rparr>"
    by (simp add: counted_def)
  show ?thesis
  proof (cases "sdForceOnlyWhenPluggedIn cfg")
    case True
    let ?env = "serviceEnv a (mockNet ent base n) cc recPublish ha rt"
    have "forceRefresh ?env cfg (wired t k w sv b c) =
        (if moPluggedIn (mkOpts k)
         then finish ?env (Inr (mockReading (mkOpts k) True), wired t (counted True ?k) (ticked n (?c + ?f) w) sv b c)
         else wired t ?k (ticked n ?c w) sv b c)"
      using True by (simp add: forceRefresh_def seCached_fetch cached plug gated)
    with True finish_mock [OF assms(3), of a "mockNet ent base n" cc rt t _ "ticked n (?c + ?f) w" sv b c] show ?thesis
      by (simp add: both) (simp add: counted_def)
  next
    case False
    then show ?thesis using finish_mock [OF assms(3)] by (simp add: forceRefresh_def direct counted_def)
  qed
qed

theorem refresh_end_to_end_witness:
  "mkForceHits (fst (clWorld (syClient (forceRefresh demoEnv demoConfig (demoWired demoMock))))) = 1
    \<and> mkCachedHits (fst (clWorld (syClient (forceRefresh demoEnv demoConfig (demoWired demoMock))))) = 1"
proof -
  obtain d where d: "marshalState (inDistanceUnit (mockReading (mkOpts demoMock) True) (haDistanceUnit demoHA)) = Inr d"
    using demo_marshals by blast
  have "sdForceOnlyWhenPluggedIn demoConfig" "moPluggedIn (mkOpts demoMock)"
    by (simp_all add: demoConfig_def demoMock_def mockDefaults_def)
  then show ?thesis
    using refresh_end_to_end [OF demo_readsMock demo_answers d, of AMD64 "\<lambda>i. []" "contextRuntime None" "()" demoServer newRecorder 0]
    by (auto simp: demoEnv_def demoWired_def wired_def mc_def demoMock_def)
qed

text \<open>C15: An outage, end to end: while the mock's status endpoints fail, each of \<open>m\<close> polls makes one read more than
  it has retries, waits 1, 2, 4, ... seconds between them, publishes nothing and counts exactly one
  failure, so the status page keeps the last good snapshot and the car is not woken; the service stays
  ready exactly as long as the failures stay below the threshold.\<close>

theorem outage_end_to_end:
  assumes "sdMaxRetries cfg = int R" and "R \<le> 33" and "readsMock base n cc cfg t k" and "mkFailStatus k"
  shows "(poll (serviceEnv a (mockNet ent base n) cc pub ha (contextRuntime None)) cfg ^^ m) (wired t k w sv b c) =
      wired t (k\<lparr>mkCachedHits := mkCachedHits k + m * (R + 1)\<rparr>) (ticked n (m * (2 * (R + 1))) w) ((markFailure ^^ m) sv) b
        (c + int m * ((2 ^ R - 1) * nsPerSec))
    \<and> isReady ((markFailure ^^ m) sv) = (isReady sv \<and> (m = 0 \<or> sConsecutiveFailures sv + int m < sThreshold sv))
    \<and> sMetrics ((markFailure ^^ m) sv) = sMetrics sv"
  using outage_polls [OF assms] failures_ready failures_metrics by blast

theorem outage_end_to_end_witness:
  "(poll demoEnv demoConfig ^^ 2) (demoWired (demoMock\<lparr>mkFailStatus := True\<rparr>)) =
    wired demoTokens (demoMock\<lparr>mkFailStatus := True, mkCachedHits := 8\<rparr>) () ((markFailure ^^ 2) demoServer) newRecorder (14 * nsPerSec)"
proof -
  have "readsMock ''http://m'' stillNet mockClient demoConfig demoTokens (demoMock\<lparr>mkFailStatus := True\<rparr>)"
    using demo_readsMock by (simp add: readsMock_def)
  from outage_end_to_end [OF _ _ this, where R = 3 and m = 2 and a = AMD64 and ent = "\<lambda>i. []" and pub = recPublish and ha = demoHA
      and w = "()" and sv = demoServer and b = newRecorder and c = 0]
  show ?thesis by (simp add: demoConfig_def demoEnv_def demoWired_def demoMock_def del: funpow.simps)
qed

end
